(* ===== verification/Prelude.thy ===== *)
theory Prelude
  imports Main "HOL-Library.Word"
begin

text \<open>
  Shared vocabulary of the development: results (Rust's \<open>Result\<close> with the
  question-mark operator), byte strings and the ASCII predicates of the standard
  library, splitting, trimming, decimal text, and association lists for the hash
  maps.  A Rust \<open>String\<close> is its UTF-8 byte sequence: a \<^typ>\<open>string\<close> whose
  characters are bytes, so that \<open>length\<close> is Rust's \<open>len()\<close>.
  Durations and instants are natural numbers of milliseconds.
\<close>

named_theorems result_simps \<open>equations and inversions of results\<close>
named_theorems text_simps \<open>ASCII and decimal text\<close>

type_synonym i64 = "64 word"
type_synonym u64 = "64 word"
type_synonym i32 = "32 word"
type_synonym u32 = "32 word"

section \<open>Results\<close>

definition and_then :: "'e + 'a \<Rightarrow> ('a \<Rightarrow> 'e + 'b) \<Rightarrow> 'e + 'b" where
  "and_then r f = (case r of Inl e \<Rightarrow> Inl e | Inr x \<Rightarrow> f x)"

definition ensure :: "bool \<Rightarrow> 'e \<Rightarrow> 'e + unit" where
  "ensure b e = (if b then Inr () else Inl e)"

definition ok_or :: "'a option \<Rightarrow> 'e \<Rightarrow> 'e + 'a" where
  "ok_or o' e = (case o' of Some x \<Rightarrow> Inr x | None \<Rightarrow> Inl e)"

definition map_err :: "('e \<Rightarrow> 'f) \<Rightarrow> 'e + 'a \<Rightarrow> 'f + 'a" where
  "map_err g r = (case r of Inl e \<Rightarrow> Inl (g e) | Inr x \<Rightarrow> Inr x)"

definition result_ok :: "'e + 'a \<Rightarrow> 'a option" where
  "result_ok r = (case r of Inl _ \<Rightarrow> None | Inr x \<Rightarrow> Some x)"

definition result_err :: "'e + 'a \<Rightarrow> 'e option" where
  "result_err r = (case r of Inl e \<Rightarrow> Some e | Inr _ \<Rightarrow> None)"

fun map_results :: "('a \<Rightarrow> 'e + 'b) \<Rightarrow> 'a list \<Rightarrow> 'e + 'b list" where
  "map_results f [] = Inr []"
| "map_results f (x # xs) =
     and_then (f x) (\<lambda>y. and_then (map_results f xs) (\<lambda>ys. Inr (y # ys)))"

lemma and_then_simps [simp, result_simps]:
  "and_then (Inl e) f = Inl e"
  "and_then (Inr x) f = f x"
  by (simp_all add: and_then_def)

lemma ensure_simps [simp, result_simps]:
  "ensure True e = Inr ()"
  "ensure False e = Inl e"
  by (simp_all add: ensure_def)

lemma ok_or_simps [simp, result_simps]:
  "ok_or (Some x) e = Inr x"
  "ok_or None e = Inl e"
  by (simp_all add: ok_or_def)

lemma map_err_simps [simp, result_simps]:
  "map_err g (Inl e) = Inl (g e)"
  "map_err g (Inr x) = Inr x"
  by (simp_all add: map_err_def)

lemma result_ok_simps [simp, result_simps]:
  "result_ok (Inl e) = None"
  "result_ok (Inr x) = Some x"
  "result_err (Inl e) = Some e"
  "result_err (Inr x) = None"
  by (simp_all add: result_ok_def result_err_def)

lemma and_then_Inr [result_simps]:
  "and_then r f = Inr y \<longleftrightarrow> (\<exists>x. r = Inr x \<and> f x = Inr y)"
  by (cases r) simp_all

lemma and_then_Inl [result_simps]:
  "and_then r f = Inl e \<longleftrightarrow> r = Inl e \<or> (\<exists>x. r = Inr x \<and> f x = Inl e)"
  by (cases r) simp_all

lemma and_then_Inr_id [simp, result_simps]: "and_then r Inr = r"
  by (cases r) simp_all

lemma ensure_eq [result_simps]:
  "ensure b e = Inr u \<longleftrightarrow> b"
  "ensure b e = Inl e' \<longleftrightarrow> \<not> b \<and> e' = e"
  by (auto simp: ensure_def)

lemma ok_or_eq [result_simps]:
  "ok_or o' e = Inr x \<longleftrightarrow> o' = Some x"
  "ok_or o' e = Inl e' \<longleftrightarrow> o' = None \<and> e' = e"
  by (auto simp: ok_or_def split: option.splits)

lemma result_ok_eq [result_simps]:
  "result_ok r = Some x \<longleftrightarrow> r = Inr x"
  "result_err r = Some e \<longleftrightarrow> r = Inl e"
  "result_ok r = None \<longleftrightarrow> (\<exists>e. r = Inl e)"
  "result_err r = None \<longleftrightarrow> (\<exists>x. r = Inr x)"
  by (cases r; simp)+

lemma map_err_Inr [result_simps]: "map_err g r = Inr x \<longleftrightarrow> r = Inr x"
  by (cases r) simp_all

lemma map_results_Inr:
  "map_results f xs = Inr ys \<Longrightarrow> list_all2 (\<lambda>x y. f x = Inr y) xs ys"
  by (induction xs arbitrary: ys) (auto simp: result_simps)

lemma map_results_length: "map_results f xs = Inr ys \<Longrightarrow> length ys = length xs"
  by (auto dest!: map_results_Inr simp: list_all2_lengthD)

section \<open>Bytes and text\<close>

definition byte :: "char \<Rightarrow> nat" where
  "byte c = (of_char c :: nat)"

definition is_ascii_digit :: "char \<Rightarrow> bool" where
  "is_ascii_digit c \<longleftrightarrow> 48 \<le> byte c \<and> byte c \<le> 57"

definition is_ascii_alphabetic :: "char \<Rightarrow> bool" where
  "is_ascii_alphabetic c \<longleftrightarrow>
     65 \<le> byte c \<and> byte c \<le> 90 \<or> 97 \<le> byte c \<and> byte c \<le> 122"

definition is_ascii_alphanumeric :: "char \<Rightarrow> bool" where
  "is_ascii_alphanumeric c \<longleftrightarrow> is_ascii_digit c \<or> is_ascii_alphabetic c"

definition is_ascii_hexdigit :: "char \<Rightarrow> bool" where
  "is_ascii_hexdigit c \<longleftrightarrow> is_ascii_digit c \<or>
     65 \<le> byte c \<and> byte c \<le> 70 \<or> 97 \<le> byte c \<and> byte c \<le> 102"

definition is_ascii :: "char \<Rightarrow> bool" where
  "is_ascii c \<longleftrightarrow> byte c < 128"

definition is_ascii_control :: "char \<Rightarrow> bool" where
  "is_ascii_control c \<longleftrightarrow> byte c < 32 \<or> byte c = 127"

definition is_ascii_whitespace :: "char \<Rightarrow> bool" where
  "is_ascii_whitespace c \<longleftrightarrow> byte c \<in> {9, 10, 12, 13, 32}"

lemma byte_less [simp]: "byte c < 256"
  unfolding byte_def by (rule nat_of_char_less_256)

lemma byte_inject [simp]: "byte c = byte d \<longleftrightarrow> c = d"
  by (simp add: byte_def)

lemma byte_char_of [simp]: "n < 256 \<Longrightarrow> byte (char_of n) = n"
  by (simp add: byte_def)

lemma char_of_byte [simp]: "char_of (byte c) = c"
  by (simp add: byte_def)

text \<open>
  \<open>char::is_control\<close> on UTF-8: the C0 bytes and DEL, and the two-byte encodings
  (lead byte 194) of U+0080 to U+009F.  In valid UTF-8 the byte 194 occurs only as
  such a lead byte.
\<close>

fun has_control :: "string \<Rightarrow> bool" where
  "has_control [] = False"
| "has_control [c] = is_ascii_control c"
| "has_control (c # d # s) =
     (is_ascii_control c \<or> byte c = 194 \<and> 128 \<le> byte d \<and> byte d \<le> 159 \<or> has_control (d # s))"

definition starts_with :: "string \<Rightarrow> string \<Rightarrow> bool" where
  "starts_with s p \<longleftrightarrow> take (length p) s = p"

definition ends_with :: "string \<Rightarrow> string \<Rightarrow> bool" where
  "ends_with s p \<longleftrightarrow> length p \<le> length s \<and> drop (length s - length p) s = p"

definition strip_prefix :: "string \<Rightarrow> string \<Rightarrow> string option" where
  "strip_prefix s p = (if starts_with s p then Some (drop (length p) s) else None)"

definition strip_suffix :: "string \<Rightarrow> string \<Rightarrow> string option" where
  "strip_suffix s p = (if ends_with s p then Some (take (length s - length p) s) else None)"

fun split_on :: "char \<Rightarrow> string \<Rightarrow> string list" where
  "split_on c [] = [[]]"
| "split_on c (x # xs) =
     (if x = c then [] # split_on c xs
      else (case split_on c xs of [] \<Rightarrow> [[x]] | p # ps \<Rightarrow> (x # p) # ps))"

fun join_with :: "string \<Rightarrow> string list \<Rightarrow> string" where
  "join_with sep [] = []"
| "join_with sep [p] = p"
| "join_with sep (p # q # ps) = p @ sep @ join_with sep (q # ps)"

text \<open>\<open>str::split_once\<close> with a character separator.\<close>

fun split_once :: "char \<Rightarrow> string \<Rightarrow> (string \<times> string) option" where
  "split_once c [] = None"
| "split_once c (x # xs) =
     (if x = c then Some ([], xs)
      else (case split_once c xs of None \<Rightarrow> None | Some (a, b) \<Rightarrow> Some (x # a, b)))"

lemma split_on_nonempty [simp]: "split_on c s \<noteq> []"
  by (induction s) (auto split: list.splits)

lemma join_split_on: "join_with [c] (split_on c s) = s"
proof (induction s)
  case Nil
  then show ?case by simp
next
  case (Cons x xs)
  obtain p ps where ps: "split_on c xs = p # ps"
    using split_on_nonempty [of c xs] by (cases "split_on c xs") auto
  with Cons show ?case
    by (cases ps) auto
qed

lemma split_on_no_sep: "c \<notin> set s \<Longrightarrow> split_on c s = [s]"
  by (induction s) auto

lemma split_on_append_sep: "c \<notin> set p \<Longrightarrow> split_on c (p @ c # s) = p # split_on c s"
  by (induction p) auto

lemma split_on_parts: "p \<in> set (split_on c s) \<Longrightarrow> c \<notin> set p"
proof (induction s arbitrary: p)
  case Nil
  then show ?case by simp
next
  case (Cons x xs)
  obtain q qs where qs: "split_on c xs = q # qs"
    using split_on_nonempty [of c xs] by (cases "split_on c xs") auto
  with Cons show ?case by (auto split: if_splits)
qed

lemma split_once_Some:
  "split_once c s = Some (a, b) \<longleftrightarrow> s = a @ c # b \<and> c \<notin> set a"
proof (induction s arbitrary: a b)
  case Nil
  then show ?case by simp
next
  case (Cons x xs)
  show ?case
  proof (cases "x = c")
    case True
    then show ?thesis by (auto simp: Cons_eq_append_conv)
  next
    case False
    then have "split_once c (x # xs) = Some (a, b) \<longleftrightarrow>
        (\<exists>a'. a = x # a' \<and> split_once c xs = Some (a', b))"
      by (auto split: option.splits)
    with False Cons.IH show ?thesis by (auto simp: Cons_eq_append_conv)
  qed
qed

lemma strip_prefix_Some [text_simps]: "strip_prefix s p = Some r \<longleftrightarrow> s = p @ r"
  by (auto simp: strip_prefix_def starts_with_def) (metis append_take_drop_id)

lemma ends_with_append [simp]: "ends_with (a @ p) p"
  by (simp add: ends_with_def)

lemma starts_with_append [simp]: "starts_with (p @ a) p"
  by (simp add: starts_with_def)

text \<open>
  \<open>str::trim\<close> removes Unicode white space; these are the UTF-8 encodings of the
  characters with that property.
\<close>

definition white_space :: "string list" where
  "white_space = map (map char_of)
     ([[9], [10], [11], [12], [13], [32], [194, 133], [194, 160], [225, 154, 128],
       [226, 128, 128], [226, 128, 129], [226, 128, 130], [226, 128, 131], [226, 128, 132],
       [226, 128, 133], [226, 128, 134], [226, 128, 135], [226, 128, 136], [226, 128, 137],
       [226, 128, 138], [226, 128, 168], [226, 128, 169], [226, 128, 175], [226, 129, 159],
       [227, 128, 128]] :: nat list list)"

function strip_tokens :: "string list \<Rightarrow> string \<Rightarrow> string" where
  "strip_tokens ws s =
     (case find (\<lambda>w. w \<noteq> [] \<and> starts_with s w) ws of
        None \<Rightarrow> s
      | Some w \<Rightarrow> strip_tokens ws (drop (length w) s))"
  by pat_completeness auto
termination
proof (relation "measure (\<lambda>(ws, s). length s)")
  show "wf (measure (\<lambda>(ws, s). length s))" by simp
next
  fix ws s w
  assume "find (\<lambda>w. w \<noteq> [] \<and> starts_with s w) ws = Some w"
  then have "w \<noteq> []" "starts_with s w" by (auto simp: find_Some_iff)
  then have "s \<noteq> []" by (auto simp: starts_with_def)
  with \<open>w \<noteq> []\<close> show "((ws, drop (length w) s), (ws, s)) \<in> measure (\<lambda>(ws, s). length s)"
    by simp
qed

declare strip_tokens.simps [simp del]

definition trim :: "string \<Rightarrow> string" where
  "trim s = rev (strip_tokens (map rev white_space) (rev (strip_tokens white_space s)))"

section \<open>Decimal text\<close>

definition digit_char :: "nat \<Rightarrow> char" where
  "digit_char d = char_of (48 + d)"

definition digit_value :: "char \<Rightarrow> nat" where
  "digit_value c = byte c - 48"

fun dec_of_nat :: "nat \<Rightarrow> string" where
  "dec_of_nat n = (if n < 10 then [digit_char n] else dec_of_nat (n div 10) @ [digit_char (n mod 10)])"

declare dec_of_nat.simps [simp del]

definition dec_of_int :: "int \<Rightarrow> string" where
  "dec_of_int i = (if i < 0 then CHR ''-'' # dec_of_nat (nat (- i)) else dec_of_nat (nat i))"

definition all_digits :: "string \<Rightarrow> bool" where
  "all_digits s \<longleftrightarrow> s \<noteq> [] \<and> list_all is_ascii_digit s"

definition digits_value :: "string \<Rightarrow> nat" where
  "digits_value s = foldl (\<lambda>n c. 10 * n + digit_value c) 0 s"

text \<open>
  The standard library's \<open>str::parse\<close> for unsigned and signed integers: an optional
  plus sign (and minus sign for signed types), then at least one digit, and an error
  outside the range of the type.
\<close>

definition parse_unsigned :: "nat \<Rightarrow> string \<Rightarrow> nat option" where
  "parse_unsigned bound s =
     (let d = (if starts_with s ''+'' then tl s else s) in
      if all_digits d \<and> digits_value d < bound then Some (digits_value d) else None)"

definition parse_signed :: "nat \<Rightarrow> string \<Rightarrow> int option" where
  "parse_signed half s =
     (if starts_with s ''-'' then
        (if all_digits (tl s) \<and> digits_value (tl s) \<le> half
         then Some (- int (digits_value (tl s))) else None)
      else map_option int (parse_unsigned half s))"

abbreviation parse_u32 :: "string \<Rightarrow> nat option" where
  "parse_u32 \<equiv> parse_unsigned 4294967296"

abbreviation parse_u64 :: "string \<Rightarrow> nat option" where
  "parse_u64 \<equiv> parse_unsigned 18446744073709551616"

abbreviation parse_i32 :: "string \<Rightarrow> int option" where
  "parse_i32 \<equiv> parse_signed 2147483648"

abbreviation parse_i64 :: "string \<Rightarrow> int option" where
  "parse_i64 \<equiv> parse_signed 9223372036854775808"

lemma byte_digit_char [text_simps]: "d < 10 \<Longrightarrow> byte (digit_char d) = 48 + d"
  by (simp add: digit_char_def)

lemma digit_value_digit_char [text_simps]: "d < 10 \<Longrightarrow> digit_value (digit_char d) = d"
  by (simp add: digit_value_def text_simps)

lemma is_ascii_digit_digit_char [text_simps]: "d < 10 \<Longrightarrow> is_ascii_digit (digit_char d)"
  by (simp add: is_ascii_digit_def text_simps)

lemma digits_value_snoc [text_simps]:
  "digits_value (s @ [c]) = 10 * digits_value s + digit_value c"
  by (simp add: digits_value_def)

lemma all_digits_dec_of_nat [simp, text_simps]: "all_digits (dec_of_nat n)"
proof (induction n rule: dec_of_nat.induct)
  case (1 n)
  then show ?case
    by (subst dec_of_nat.simps) (simp add: all_digits_def text_simps)
qed

lemma digits_value_dec_of_nat [simp, text_simps]: "digits_value (dec_of_nat n) = n"
proof (induction n rule: dec_of_nat.induct)
  case (1 n)
  show ?case
  proof (cases "n < 10")
    case True
    then show ?thesis
      by (subst dec_of_nat.simps) (simp add: digits_value_def text_simps)
  next
    case False
    with 1 show ?thesis
      by (subst dec_of_nat.simps) (simp add: text_simps)
  qed
qed

lemma digits_value_from: "foldl (\<lambda>n c. 10 * n + digit_value c) m s = m * 10 ^ length s + digits_value s"
proof (induction s arbitrary: m)
  case (Cons c s)
  show ?case using Cons [of "10 * m + digit_value c"] Cons [of "digit_value c"]
    by (simp add: digits_value_def algebra_simps)
qed (simp add: digits_value_def)

lemma digits_value_Cons: "digits_value (c # s) = digit_value c * 10 ^ length s + digits_value s"
  using digits_value_from [of "digit_value c" s] by (simp add: digits_value_def)

lemma digits_value_less: "list_all is_ascii_digit s \<Longrightarrow> digits_value s < 10 ^ length s"
proof (induction s)
  case (Cons c s)
  then have "digit_value c \<le> 9" "digits_value s < 10 ^ length s"
    by (auto simp: digit_value_def is_ascii_digit_def)
  then have "digit_value c * 10 ^ length s + digits_value s < 9 * 10 ^ length s + 10 ^ length s"
    by (intro add_le_less_mono mult_right_mono) auto
  then show ?case by (simp add: digits_value_Cons)
qed (simp add: digits_value_def)

lemma dec_of_nat_nonempty [simp]: "dec_of_nat n \<noteq> []"
  using all_digits_dec_of_nat [of n] by (auto simp: all_digits_def)

lemma dec_of_nat_no_sign:
  "\<not> starts_with (dec_of_nat n) ''+''" "\<not> starts_with (dec_of_nat n) ''-''"
proof -
  obtain c s where s: "dec_of_nat n = c # s" by (cases "dec_of_nat n") auto
  with all_digits_dec_of_nat [of n] have "is_ascii_digit c" by (simp add: all_digits_def)
  then have "c \<noteq> CHR ''+''" "c \<noteq> CHR ''-''"
    by (auto simp: is_ascii_digit_def byte_def)
  with s show "\<not> starts_with (dec_of_nat n) ''+''" "\<not> starts_with (dec_of_nat n) ''-''"
    by (simp_all add: starts_with_def)
qed

lemma parse_unsigned_dec_of_nat: "n < bound \<Longrightarrow> parse_unsigned bound (dec_of_nat n) = Some n"
  by (simp add: parse_unsigned_def dec_of_nat_no_sign)

lemma parse_signed_dec_of_int:
  assumes "- int half \<le> i" "i < int half"
  shows "parse_signed half (dec_of_int i) = Some i"
proof (cases "i < 0")
  case True
  with assms show ?thesis
    by (simp add: parse_signed_def dec_of_int_def starts_with_def)
next
  case False
  with assms have "nat i < half" by simp
  with False show ?thesis
    by (simp add: parse_signed_def dec_of_int_def dec_of_nat_no_sign parse_unsigned_dec_of_nat)
qed

lemma parse_unsigned_bound: "parse_unsigned bound s = Some n \<Longrightarrow> n < bound"
  by (auto simp: parse_unsigned_def Let_def split: if_splits)

lemma parse_signed_bound:
  "parse_signed half s = Some i \<Longrightarrow> 0 < half \<Longrightarrow> - int half \<le> i \<and> i < int half"
  by (auto simp: parse_signed_def dest: parse_unsigned_bound split: if_splits)

lemmas text_eval =
  byte_def is_ascii_digit_def is_ascii_alphabetic_def is_ascii_alphanumeric_def
  is_ascii_hexdigit_def is_ascii_def is_ascii_control_def is_ascii_whitespace_def
  starts_with_def ends_with_def strip_prefix_def strip_suffix_def
  parse_unsigned_def parse_signed_def all_digits_def digits_value_def digit_value_def

section \<open>Association lists\<close>

text \<open>
  The hash maps and header maps of the program are association lists: lookup takes the
  first pair, \<open>alist_put\<close> replaces or appends, \<open>alist_remove\<close> drops every pair of the key.
\<close>

fun alist_put :: "'k \<Rightarrow> 'v \<Rightarrow> ('k \<times> 'v) list \<Rightarrow> ('k \<times> 'v) list" where
  "alist_put k v [] = [(k, v)]"
| "alist_put k v ((k', v') # xs) =
     (if k' = k then (k, v) # xs else (k', v') # alist_put k v xs)"

definition alist_remove :: "'k \<Rightarrow> ('k \<times> 'v) list \<Rightarrow> ('k \<times> 'v) list" where
  "alist_remove k xs = filter (\<lambda>(k', _). k' \<noteq> k) xs"

lemma map_of_alist_put [simp]: "map_of (alist_put k v xs) = (map_of xs)(k \<mapsto> v)"
  by (induction xs) auto

lemma keys_alist_put: "map fst (alist_put k v xs) =
    (if k \<in> set (map fst xs) then map fst xs else map fst xs @ [k])"
proof (induction xs)
  case Nil
  then show ?case by simp
next
  case (Cons x xs)
  then show ?case by (cases x) (simp del: set_map)
qed

lemma set_keys_alist_put [simp]: "fst ` set (alist_put k v xs) = insert k (fst ` set xs)"
  using arg_cong [OF keys_alist_put, of set k v xs] by (simp split: if_splits) blast

lemma distinct_alist_put [simp]:
  "distinct (map fst (alist_put k v xs)) = distinct (map fst xs)"
  by (simp add: keys_alist_put)

lemma alist_put_new: "k \<notin> fst ` set xs \<Longrightarrow> alist_put k v xs = xs @ [(k, v)]"
  by (induction xs) auto

lemma map_of_alist_remove [simp]: "map_of (alist_remove k xs) = (map_of xs)(k := None)"
  by (induction xs) (auto simp: alist_remove_def)

lemma set_keys_alist_remove [simp]: "fst ` set (alist_remove k xs) = fst ` set xs - {k}"
  by (auto simp: alist_remove_def image_iff)

lemma distinct_alist_remove [simp]:
  "distinct (map fst xs) \<Longrightarrow> distinct (map fst (alist_remove k xs))"
  by (induction xs) (auto simp: alist_remove_def)

lemma length_alist_remove_le: "length (alist_remove k xs) \<le> length xs"
  by (simp add: alist_remove_def)

lemma length_alist_remove_less: "k \<in> fst ` set xs \<Longrightarrow> length (alist_remove k xs) < length xs"
  unfolding alist_remove_def by (auto intro: length_filter_less)

text \<open>
  The ordered maps of the program are association lists kept sorted by their keys.
\<close>

fun btree_insert :: "'k::linorder \<Rightarrow> 'v \<Rightarrow> ('k \<times> 'v) list \<Rightarrow> ('k \<times> 'v) list" where
  "btree_insert k v [] = [(k, v)]"
| "btree_insert k v ((k', v') # xs) =
     (if k < k' then (k, v) # (k', v') # xs
      else if k = k' then (k, v) # xs
      else (k', v') # btree_insert k v xs)"

lemma map_of_btree_insert [simp]: "map_of (btree_insert k v xs) = (map_of xs)(k \<mapsto> v)"
  by (induction xs) (auto simp: fun_eq_iff)

lemma keys_btree_insert [simp]: "fst ` set (btree_insert k v xs) = insert k (fst ` set xs)"
proof (induction xs)
  case (Cons x xs)
  then show ?case by (cases x) (simp add: insert_commute)
qed simp

lemma sorted_btree_insert:
  "sorted_wrt (<) (map fst xs) \<Longrightarrow> sorted_wrt (<) (map fst (btree_insert k v xs))"
proof (induction xs)
  case (Cons x xs)
  obtain k' v' where x: "x = (k', v')" by (cases x)
  from Cons.prems x have prems: "\<forall>j\<in>fst ` set xs. k' < j" "sorted_wrt (<) (map fst xs)" by auto
  show ?case
  proof (cases "k < k'")
    case True
    with prems x show ?thesis by (auto dest: order_less_trans)
  next
    case False
    have "fst ` set (btree_insert k v xs) = insert k (fst ` set xs)" by simp
    with False prems x Cons.IH show ?thesis by (cases "k = k'") auto
  qed
qed simp

end
