(* ===== verification/Errors.thy ===== *)
theory Errors
  imports Prelude
begin

text \<open>
  Classified upstream errors (\<open>client/src/error.rs\<close>): the error kinds, the error value
  with its private business codes, and the classification of a gRPC status with its
  initial and trailing metadata.  A metadata map keeps its header values in order; a value
  is known by its visible text (absent when \<open>to_str\<close> fails) and its sensitivity mark.
\<close>

datatype error_kind =
    InvalidConfig | InvalidRequest | AuthenticationRequired | Authentication | Maintenance
  | Version | DeviceConflict | Business | Transport | Protocol | Timeout | Cancelled
  | QueueFull | SessionChanged

text \<open>The gRPC status codes the classification distinguishes; every other code is \<open>OtherCode\<close>.\<close>

datatype grpc_code = CodeOk | DeadlineExceeded | OtherCode nat

record meta_value =
  visible_text :: "string option"
  sensitive :: bool

type_synonym metadata_map = "(string \<times> meta_value) list"

record private_codes =
  initial_codes :: "string list"
  trailing_codes :: "string list"

record client_error =
  kind :: error_kind
  grpc_code :: "grpc_code option"
  business_codes :: private_codes

type_synonym 'a outcome = "client_error + 'a"

definition client_error_new :: "error_kind \<Rightarrow> client_error" where
  "client_error_new k = \<lparr>kind = k, grpc_code = None,
     business_codes = \<lparr>initial_codes = [], trailing_codes = []\<rparr>\<rparr>"

abbreviation fail :: "error_kind \<Rightarrow> 'a outcome" where
  "fail k \<equiv> Inl (client_error_new k)"

definition get_all :: "string \<Rightarrow> metadata_map \<Rightarrow> meta_value list" where
  "get_all key m = map snd (filter (\<lambda>(k, _). k = key) m)"

definition meta_get :: "string \<Rightarrow> metadata_map \<Rightarrow> meta_value option" where
  "meta_get key m = map_of m key"

definition error_codes :: "metadata_map \<Rightarrow> string list" where
  "error_codes m = List.map_filter visible_text (get_all ''x-sirius-error-code'' m)"

definition last_code :: "string list \<Rightarrow> string option" where
  "last_code xs = (if xs = [] then None else Some (last xs))"

text \<open>\<open>trailing.last().or(initial.last())\<close>: the code that decides, shared by the three readers.\<close>

definition effective_code :: "private_codes \<Rightarrow> string option" where
  "effective_code pc =
     (case last_code (trailing_codes pc) of Some c \<Rightarrow> Some c | None \<Rightarrow> last_code (initial_codes pc))"

definition classify_code :: "grpc_code \<Rightarrow> string option \<Rightarrow> error_kind" where
  "classify_code code effective =
     (case effective of
        Some c \<Rightarrow>
          (if c = ''UNDER_MAINTENANCE'' then Maintenance
           else if c = ''TOKEN_ILLEGAL'' \<or> c = ''TOKEN_MISSING'' then Authentication
           else if c = ''CLIENT_UPDATE_REQUIRED'' \<or> c = ''MASTER_VERSION_MISMATCH'' then Version
           else if c = ''CONCURRENT_DEVICE'' then DeviceConflict
           else Business)
      | None \<Rightarrow> (if code = DeadlineExceeded then Timeout else Transport))"

definition from_metadata :: "grpc_code \<Rightarrow> metadata_map \<Rightarrow> metadata_map \<Rightarrow> client_error option" where
  "from_metadata code initial trailing =
     (let codes = \<lparr>initial_codes = error_codes initial, trailing_codes = error_codes trailing\<rparr>;
          effective = effective_code codes
      in if code = CodeOk \<and> effective = None then None
         else Some \<lparr>kind = classify_code code effective, grpc_code = Some code, business_codes = codes\<rparr>)"

text \<open>A gRPC status error: its code and the metadata it carries (\<open>transport.rs\<close>).\<close>

record grpc_status =
  status_code :: grpc_code
  status_metadata :: metadata_map

definition status_error :: "grpc_status \<Rightarrow> metadata_map \<Rightarrow> client_error" where
  "status_error status initial =
     (case from_metadata (status_code status) initial (status_metadata status) of
        Some e \<Rightarrow> e
      | None \<Rightarrow> client_error_new Protocol)"

section \<open>Facts\<close>

lemma kind_client_error_new [simp]: "kind (client_error_new k) = k"
  by (simp add: client_error_new_def)

lemma client_error_new_inject [simp]: "client_error_new a = client_error_new b \<longleftrightarrow> a = b"
  by (auto simp: client_error_new_def)

lemma effective_code_new [simp]: "effective_code (business_codes (client_error_new k)) = None"
  by (simp add: client_error_new_def effective_code_def last_code_def)

lemma effective_code_None:
  "effective_code pc = None \<longleftrightarrow> trailing_codes pc = [] \<and> initial_codes pc = []"
  by (auto simp: effective_code_def last_code_def)

lemma from_metadata_Some:
  "from_metadata code i t = Some e \<Longrightarrow>
     kind e = classify_code code (effective_code (business_codes e)) \<and>
     business_codes e = \<lparr>initial_codes = error_codes i, trailing_codes = error_codes t\<rparr>"
  by (auto simp: from_metadata_def Let_def split: if_splits)

lemma from_metadata_None:
  "from_metadata code i t = None \<longleftrightarrow> code = CodeOk \<and> error_codes i = [] \<and> error_codes t = []"
  by (auto simp: from_metadata_def Let_def effective_code_None)

lemma classify_Version:
  "classify_code c lc = Version \<longleftrightarrow>
     lc = Some ''CLIENT_UPDATE_REQUIRED'' \<or> lc = Some ''MASTER_VERSION_MISMATCH''"
  by (auto simp: classify_code_def split: option.splits)

lemma classify_never_local:
  "classify_code c lc \<in>
     {Maintenance, Authentication, Version, DeviceConflict, Business, Timeout, Transport}"
  by (auto simp: classify_code_def split: option.splits)

text \<open>
  the classification of an upstream answer is decided by one code, the last trailing
  business code, or the last initial one when there is no trailing code; a nonempty list of
  trailing codes hides every initial code, and an answer without codes is an error exactly
  when its gRPC code is not Ok.
\<close>

theorem from_metadata_decided_by_last_code:
  "map_option kind (from_metadata code initial trailing) =
     (if error_codes trailing \<noteq> [] then Some (classify_code code (Some (last (error_codes trailing))))
      else if error_codes initial \<noteq> [] then Some (classify_code code (Some (last (error_codes initial))))
      else if code = CodeOk then None
      else Some (if code = DeadlineExceeded then Timeout else Transport))"
  by (simp add: from_metadata_def Let_def effective_code_def last_code_def classify_code_def)

end
