(* ===== verification/Version_Text.thy ===== *)
theory Version_Text
  imports Errors "HOL-Library.List_Lexorder"
begin

text \<open>
  Version identifiers as text: public data revisions and \<open>MAJOR.MINOR.PATCH\<close> client
  versions (\<open>client/src/versions.rs\<close>), and the JP master version, numeric version and
  asset selection rules (\<open>client/src/jp.rs\<close>).
\<close>

section \<open>Client versions\<close>

definition version_char :: "char \<Rightarrow> bool" where
  "version_char c \<longleftrightarrow> is_ascii_alphanumeric c \<or> c \<in> set ''._-''"

definition valid_revision :: "string \<Rightarrow> bool" where
  "valid_revision v \<longleftrightarrow>
     v \<noteq> [] \<and> length v \<le> 128 \<and> list_all version_char v \<and> v \<noteq> ''.'' \<and> v \<noteq> ''..''"

definition patch_part :: "string \<Rightarrow> nat option" where
  "patch_part t =
     (if t = [] \<or> 9 < length t \<or> \<not> list_all is_ascii_digit t then None else parse_u32 t)"

text \<open>The three parts are read in order; a missing or a fourth part is an error.\<close>

definition patch_version :: "string \<Rightarrow> (nat \<times> nat \<times> nat) option" where
  "patch_version v =
     (case split_on CHR ''.'' v of
        [a, b, c] \<Rightarrow>
          (case patch_part a of None \<Rightarrow> None | Some major \<Rightarrow>
           case patch_part b of None \<Rightarrow> None | Some minor \<Rightarrow>
           case patch_part c of None \<Rightarrow> None | Some patch \<Rightarrow> Some (major, minor, patch))
      | _ \<Rightarrow> None)"

definition checked_add_u32 :: "nat \<Rightarrow> nat \<Rightarrow> nat option" where
  "checked_add_u32 a b = (if a + b < 4294967296 then Some (a + b) else None)"

definition format_version :: "nat \<Rightarrow> nat \<Rightarrow> nat \<Rightarrow> string" where
  "format_version major minor patch =
     dec_of_nat major @ ''.'' @ dec_of_nat minor @ ''.'' @ dec_of_nat patch"

definition patch_successors :: "string \<Rightarrow> nat \<Rightarrow> string list" where
  "patch_successors current count =
     (case patch_version current of
        None \<Rightarrow> []
      | Some (major, minor, patch) \<Rightarrow>
          map (format_version major minor)
            (List.map_filter (checked_add_u32 patch) [1..<Suc count]))"

section \<open>JP versions\<close>

definition numeric_part :: "string \<Rightarrow> nat option" where
  "numeric_part p =
     (if p = [] \<or> \<not> list_all is_ascii_digit p then None
      else (case parse_u32 p of
              None \<Rightarrow> None
            | Some n \<Rightarrow> if 2147483647 < n then None else Some n))"

text \<open>The array of four parts starts as zeros: missing parts compare as zero.\<close>

definition numeric_version :: "string \<Rightarrow> nat list option" where
  "numeric_version v =
     (let parts = split_on CHR ''.'' v in
      if \<not> (2 \<le> length parts \<and> length parts \<le> 4) then None
      else (case those (map numeric_part parts) of
              None \<Rightarrow> None
            | Some ns \<Rightarrow> Some (ns @ replicate (4 - length ns) 0)))"

definition lower_hex_char :: "char \<Rightarrow> bool" where
  "lower_hex_char c \<longleftrightarrow> is_ascii_digit c \<or> 97 \<le> byte c \<and> byte c \<le> 102"

definition valid_master :: "string \<Rightarrow> bool" where
  "valid_master v =
     (case split_once CHR ''/'' v of
        None \<Rightarrow> False
      | Some (release, hash) \<Rightarrow>
          length v \<le> 128 \<and> numeric_version release \<noteq> None \<and> length hash = 32
          \<and> list_all lower_hex_char hash)"

record asset_entry =
  ae_min :: string
  ae_version :: string
  ae_android :: "string option"

record asset_payload =
  ap_version :: "string option"
  ap_android :: "string option"
  ap_live :: "asset_entry option list option"

text \<open>The loop over \<open>live\<close>: keep the entry with the greatest minimum not above the client.\<close>

fun best_entry :: "nat list \<Rightarrow> (nat list \<times> asset_entry) option \<Rightarrow> asset_entry list \<Rightarrow>
    (nat list \<times> asset_entry) option" where
  "best_entry current best [] = best"
| "best_entry current best (entry # rest) =
     (case numeric_version (ae_min entry) of
        None \<Rightarrow> best_entry current best rest
      | Some m \<Rightarrow>
          if m \<le> current \<and> (case best of None \<Rightarrow> True | Some (old, _) \<Rightarrow> old < m)
          then best_entry current (Some (m, entry)) rest
          else best_entry current best rest)"

definition select_asset :: "asset_payload \<Rightarrow> string \<Rightarrow> (string \<times> string) option" where
  "select_asset payload client =
     (case ap_live payload of
        Some (e # es) \<Rightarrow>
          (case numeric_version client of
             None \<Rightarrow> None
           | Some current \<Rightarrow>
               (case best_entry current None (List.map_filter id (e # es)) of
                  None \<Rightarrow> None
                | Some (_, selected) \<Rightarrow>
                    map_option (\<lambda>h. (ae_version selected, h)) (ae_android selected)))
      | _ \<Rightarrow>
          (case ap_version payload of
             None \<Rightarrow> None
           | Some v \<Rightarrow> map_option (\<lambda>h. (v, h)) (ap_android payload)))"

text \<open>\<open>parse\<close> stands for the JSON deserialisation of the asset header into a payload.\<close>

definition asset_version :: "(string \<Rightarrow> asset_payload option) \<Rightarrow> string option \<Rightarrow> string \<Rightarrow> string option" where
  "asset_version parse raw client =
     (case raw of
        None \<Rightarrow> None
      | Some text \<Rightarrow>
          if 64 * 1024 < length text then None
          else (case parse text of
             None \<Rightarrow> None
           | Some payload \<Rightarrow>
               (case select_asset payload client of
                  None \<Rightarrow> None
                | Some (v, hash) \<Rightarrow>
                    (let version = trim v in
                     if version = [] \<or> 128 < length version \<or> \<not> list_all version_char version
                        \<or> version = ''.'' \<or> version = ''..''
                        \<or> length (trim hash) \<noteq> 32 \<or> \<not> list_all is_ascii_hexdigit (trim hash)
                     then None else Some version))))"

section \<open>Facts\<close>

lemma dec_of_nat_no_dot: "CHR ''.'' \<notin> set (dec_of_nat n)"
proof
  assume "CHR ''.'' \<in> set (dec_of_nat n)"
  with all_digits_dec_of_nat [of n] have "is_ascii_digit CHR ''.''"
    by (auto simp: all_digits_def list_all_iff)
  then show False by (simp add: is_ascii_digit_def byte_def)
qed

lemma length_dec_of_nat: "n < 10 ^ Suc k \<Longrightarrow> length (dec_of_nat n) \<le> Suc k"
proof (induction k arbitrary: n)
  case 0
  then show ?case by (subst dec_of_nat.simps) simp
next
  case (Suc k)
  then have "n div 10 < 10 ^ Suc k" by auto
  then have "length (dec_of_nat (n div 10)) \<le> Suc k" by (rule Suc.IH)
  then show ?case by (subst dec_of_nat.simps) simp
qed

lemma length_dec_of_nat_ge: "10 ^ k \<le> n \<Longrightarrow> Suc k \<le> length (dec_of_nat n)"
proof (induction k arbitrary: n)
  case 0
  then show ?case using dec_of_nat_nonempty [of n] by (cases "dec_of_nat n") simp_all
next
  case (Suc k)
  then have "10 ^ k \<le> n div 10" by auto
  then have "Suc k \<le> length (dec_of_nat (n div 10))" by (rule Suc.IH)
  moreover have "(1 :: nat) \<le> 10 ^ k" by simp
  with Suc.prems have "\<not> n < 10" unfolding power_Suc by linarith
  ultimately show ?case by (subst dec_of_nat.simps) simp
qed

lemma patch_part_dec_of_nat:
  "patch_part (dec_of_nat n) = (if n < 1000000000 then Some n else None)"
proof (cases "n < 1000000000")
  case True
  then have "length (dec_of_nat n) \<le> 9" using length_dec_of_nat [of n 8] by simp
  with True show ?thesis
    using all_digits_dec_of_nat [of n]
    by (simp add: patch_part_def all_digits_def parse_unsigned_dec_of_nat)
next
  case False
  then show ?thesis using length_dec_of_nat_ge [of 9 n] by (simp add: patch_part_def)
qed

lemma patch_part_bound: "patch_part t = Some n \<Longrightarrow> n < 4294967296"
  by (auto simp: patch_part_def dest: parse_unsigned_bound split: if_splits)

lemma patch_part_less: "patch_part t = Some n \<Longrightarrow> n < 1000000000"
proof -
  assume "patch_part t = Some n"
  then have "t \<noteq> []" "length t \<le> 9" "list_all is_ascii_digit t" and p: "parse_u32 t = Some n"
    by (auto simp: patch_part_def split: if_splits)
  then have "\<not> starts_with t ''+''"
    by (cases t) (auto simp: starts_with_def is_ascii_digit_def byte_def)
  with p have "n = digits_value t" by (auto simp: parse_unsigned_def split: if_splits)
  also have "\<dots> < 10 ^ length t" by (rule digits_value_less) fact
  also have "\<dots> \<le> 10 ^ 9" using \<open>length t \<le> 9\<close> by (intro power_increasing) auto
  finally show ?thesis by simp
qed

lemma split_format_version:
  "split_on CHR ''.'' (format_version a b c) = [dec_of_nat a, dec_of_nat b, dec_of_nat c]"
  by (simp add: format_version_def split_on_append_sep split_on_no_sep dec_of_nat_no_dot)

lemma patch_version_format:
  "patch_version (format_version a b c) =
     (if a < 1000000000 \<and> b < 1000000000 \<and> c < 1000000000 then Some (a, b, c) else None)"
  by (simp add: patch_version_def split_format_version patch_part_dec_of_nat)

lemma patch_version_bounds:
  "patch_version v = Some (a, b, c) \<Longrightarrow> a < 1000000000 \<and> b < 1000000000 \<and> c < 1000000000"
  by (auto simp: patch_version_def dest!: patch_part_less split: list.splits option.splits)

lemma numeric_version_length: "numeric_version v = Some ns \<Longrightarrow> length ns = 4"
proof -
  have "those xs = Some ys \<Longrightarrow> length ys = length xs" for xs :: "nat option list" and ys
    by (induction xs arbitrary: ys) (auto split: option.splits)
  then show "numeric_version v = Some ns \<Longrightarrow> length ns = 4"
    by (fastforce simp: numeric_version_def Let_def split: if_splits option.splits)
qed

lemma patch_successors_eq:
  assumes "patch_version cur = Some (a, b, c)" "count < 4294967296 - 1000000000"
  shows "patch_successors cur count = map (\<lambda>k. format_version a b (c + k)) [1..<Suc count]"
proof -
  have c: "c < 1000000000" using patch_version_bounds [OF assms(1)] by simp
  have "List.map_filter (checked_add_u32 c) ks = map ((+) c) ks"
    if "\<forall>k\<in>set ks. k \<le> count" for ks
    using that assms(2) c by (induction ks) (auto simp: List.map_filter_simps checked_add_u32_def)
  then have "List.map_filter (checked_add_u32 c) [1..<Suc count] = map ((+) c) [1..<Suc count]"
    by auto
  with assms(1) show ?thesis by (simp add: patch_successors_def comp_def del: upt_Suc)
qed

text \<open>
  following client releases guesses patch releases only.  For every bound that
  leaves the 32-bit sum in range, the candidates after \<open>a.b.c\<close> are exactly
  \<open>a.b.(c+1)\<close>, \<open>a.b.(c+2)\<close>, and so on in order, none is dropped by the checked
  addition, and each candidate is read back as the version it was printed from as long as
  its patch number has at most nine digits.
\<close>

theorem patch_successors_are_next_patches:
  assumes "patch_version cur = Some (a, b, c)" and "count \<le> 1000"
  shows "map patch_version (patch_successors cur count) =
     map (\<lambda>k. if c + k < 1000000000 then Some (a, b, c + k) else None) [1..<Suc count]"
  using patch_successors_eq [OF assms(1), of count] patch_version_bounds [OF assms(1)] assms(2)
  by (simp add: comp_def patch_version_format del: upt_Suc)

theorem patch_successors_are_next_patches_witness:
  "map patch_version (patch_successors ''1.0.3'' 3) =
     [Some (1, 0, 4), Some (1, 0, 5), Some (1, 0, 6)]"
proof -
  have "patch_version ''1.0.3'' = Some (1, 0, 3)"
    by (simp add: patch_version_def patch_part_def text_eval)
  then have "map patch_version (patch_successors ''1.0.3'' 3) =
     map (\<lambda>k. if 3 + k < 1000000000 then Some (1, 0, 3 + k) else None) [1..<Suc 3]"
    by (rule patch_successors_are_next_patches) simp
  then show ?thesis by (simp add: upt_rec)
qed

text \<open>
  a version that is not three short decimal numbers has no successors, and at the
  nine-digit edge the only candidate printed is one that the client itself does not accept
  as a version.
\<close>

theorem patch_successors_edges:
  "(patch_version cur = None \<longrightarrow> patch_successors cur count = [])
   \<and> (\<exists>v. patch_successors ''1.0.999999999'' 1 = [v] \<and> patch_version v = None)"
proof -
  have v: "patch_version ''1.0.999999999'' = Some (1, 0, 999999999)"
    by (simp add: patch_version_def patch_part_def text_eval)
  have "patch_successors ''1.0.999999999'' 1 = [format_version 1 0 1000000000]"
    using patch_successors_eq [OF v, of 1] by simp
  then show ?thesis by (simp add: patch_version_format patch_successors_def)
qed

theorem patch_successors_edges_witness:
  "patch_version ''1.0'' = None \<and> patch_successors ''1.0'' 3 = []"
proof -
  have "patch_version ''1.0'' = None"
    by (simp add: patch_version_def patch_part_def text_eval)
  with patch_successors_edges [of "''1.0''" 3] show ?thesis by simp
qed

section \<open>JP asset selection\<close>

definition admissible :: "nat list \<Rightarrow> asset_entry \<Rightarrow> nat list \<Rightarrow> bool" where
  "admissible current e m \<longleftrightarrow> numeric_version (ae_min e) = Some m \<and> m \<le> current"

lemma best_entry_sound:
  assumes "best_entry current best es = Some (m, e)"
  shows "best = Some (m, e) \<or> e \<in> set es \<and> admissible current e m"
  using assms
proof (induction es arbitrary: best)
  case (Cons x xs)
  then show ?case
    by (fastforce simp: admissible_def split: option.splits if_splits prod.splits)
qed simp

lemma best_entry_ge_acc:
  "best_entry current (Some (m0, e0)) es = Some (m, e) \<Longrightarrow> m0 \<le> m"
proof (induction es arbitrary: m0 e0)
  case (Cons x xs)
  then show ?case
    by (auto split: option.splits if_splits) (meson less_imp_le order_trans)
qed simp

lemma best_entry_not_None: "best \<noteq> None \<Longrightarrow> best_entry current best es \<noteq> None"
  by (induction es arbitrary: best) (auto split: option.splits if_splits)

lemma best_entry_max:
  assumes "x \<in> set es" "admissible current x m'"
  shows "\<exists>m e. best_entry current best es = Some (m, e) \<and> m' \<le> m"
  using assms
proof (induction es arbitrary: best)
  case Nil
  then show ?case by simp
next
  case (Cons y ys)
  show ?case
  proof (cases "x = y")
    case False
    with Cons show ?thesis by (auto split: option.splits prod.splits)
  next
    case True
    with Cons.prems have y: "numeric_version (ae_min y) = Some m'" "m' \<le> current"
      by (simp_all add: admissible_def)
    have from_acc: "\<exists>m e. best_entry current (Some (m0, e0)) ys = Some (m, e) \<and> m' \<le> m"
      if "m' \<le> m0" for m0 e0
    proof -
      obtain m e where me: "best_entry current (Some (m0, e0)) ys = Some (m, e)"
        using best_entry_not_None [of "Some (m0, e0)" current ys] by auto
      with best_entry_ge_acc [OF me] that show ?thesis by (meson order_trans)
    qed
    show ?thesis
    proof (cases best)
      case None
      with y from_acc [of m' y] show ?thesis by simp
    next
      case (Some b)
      obtain m0 e0 where b: "b = (m0, e0)" by (cases b)
      show ?thesis
      proof (cases "m0 < m'")
        case True
        with Some b y from_acc [of m' y] show ?thesis by simp
      next
        case False
        then have "m' \<le> m0" by (simp add: not_less)
        with False Some b y from_acc [of m0 e0] show ?thesis by simp
      qed
    qed
  qed
qed

text \<open>
  among the JP asset releases of a header, the one selected for a client is an
  entry whose minimum client version the client reaches, and no other such entry has a greater
  minimum; nothing is selected only if no entry admits the client, or an entry of greatest
  minimum has no Android hash.
\<close>

theorem select_asset_is_greatest_admissible:
  assumes "ap_live payload = Some live" "live \<noteq> []" "numeric_version client = Some current"
  shows "case select_asset payload client of
      Some (v, h) \<Rightarrow> \<exists>e m. Some e \<in> set live \<and> ae_version e = v \<and> ae_android e = Some h
        \<and> admissible current e m
        \<and> (\<forall>e' m'. Some e' \<in> set live \<longrightarrow> admissible current e' m' \<longrightarrow> m' \<le> m)
    | None \<Rightarrow> (\<forall>e m. Some e \<in> set live \<longrightarrow> \<not> admissible current e m)
        \<or> (\<exists>e m. Some e \<in> set live \<and> admissible current e m \<and> ae_android e = None
             \<and> (\<forall>e' m'. Some e' \<in> set live \<longrightarrow> admissible current e' m' \<longrightarrow> m' \<le> m))"
proof -
  obtain x xs where live: "live = x # xs" using assms(2) by (cases live) auto
  let ?es = "List.map_filter id live"
  have mem: "e \<in> set ?es \<longleftrightarrow> Some e \<in> set live" for e
    by (force simp: List.map_filter_def)
  have sel: "select_asset payload client =
      (case best_entry current None ?es of None \<Rightarrow> None
       | Some (_, s) \<Rightarrow> map_option (\<lambda>h. (ae_version s, h)) (ae_android s))"
    using assms live by (simp add: select_asset_def)
  show ?thesis
  proof (cases "best_entry current None ?es")
    case None
    with best_entry_max [of _ ?es current _ None] have "\<not> admissible current e m"
      if "Some e \<in> set live" for e m
      using that mem by fastforce
    with None sel show ?thesis by simp
  next
    case (Some p)
    obtain m e where p: "p = (m, e)" by (cases p)
    from best_entry_sound [of current None ?es m e] Some p
    have e: "Some e \<in> set live" "admissible current e m" by (simp_all add: mem)
    have max: "\<forall>e' m'. Some e' \<in> set live \<longrightarrow> admissible current e' m' \<longrightarrow> m' \<le> m"
      using best_entry_max [of _ ?es current _ None] Some p by (auto simp: mem)
    show ?thesis
    proof (cases "ae_android e")
      case None
      then have "select_asset payload client = None" using sel Some p by simp
      moreover have "\<exists>e m. Some e \<in> set live \<and> admissible current e m \<and> ae_android e = None
          \<and> (\<forall>e' m'. Some e' \<in> set live \<longrightarrow> admissible current e' m' \<longrightarrow> m' \<le> m)"
        using e max None by blast
      ultimately show ?thesis by simp
    next
      case (Some h)
      then have "select_asset payload client = Some (ae_version e, h)"
        using sel \<open>best_entry current None ?es = Some p\<close> p by simp
      then show ?thesis using e max Some by auto
    qed
  qed
qed

theorem select_asset_is_greatest_admissible_witness:
  "select_asset \<lparr>ap_version = None, ap_android = None,
      ap_live = Some [Some \<lparr>ae_min = ''1.0'', ae_version = ''a'', ae_android = Some ''h''\<rparr>, None]\<rparr> ''1.0.3''
      = Some (''a'', ''h'')
   \<and> (\<exists>e m. admissible [1, 0, 3, 0] e m \<and> ae_version e = ''a'')"
proof -
  let ?e = "\<lparr>ae_min = ''1.0'', ae_version = ''a'', ae_android = Some ''h''\<rparr>"
  let ?p = "\<lparr>ap_version = None, ap_android = None, ap_live = Some [Some ?e, None]\<rparr>"
  have c: "numeric_version ''1.0.3'' = Some [1, 0, 3, 0]"
    by (simp add: numeric_version_def numeric_part_def text_eval)
  have m: "numeric_version ''1.0'' = Some [1, 0, 0, 0]"
    by (simp add: numeric_version_def numeric_part_def text_eval numeral_2_eq_2)
  have s: "select_asset ?p ''1.0.3'' = Some (''a'', ''h'')"
    using c m by (simp add: select_asset_def List.map_filter_def)
  from select_asset_is_greatest_admissible [of ?p "[Some ?e, None]" "''1.0.3''" "[1, 0, 3, 0]"] c s
  have "\<exists>e m. ae_version e = ''a'' \<and> ae_android e = Some ''h'' \<and> admissible [1, 0, 3, 0] e m"
    by (intro exI [of _ ?e]) (auto simp del: One_nat_def)
  with s show ?thesis by blast
qed

lemma asset_version_valid: "asset_version parse raw client = Some v \<Longrightarrow> valid_revision v"
  by (auto simp: asset_version_def valid_revision_def Let_def split: option.splits if_splits)

end
