(* ===== verification/Session_Config.thy ===== *)
theory Session_Config
  imports Version_Text
begin

text \<open>
  Session configuration and credentials (\<open>client/src/session.rs\<close>): origins, the request
  metadata a call carries, validation, and the credential provider.  URL parsing and the
  acceptance of a header value are library functions; the record \<open>library\<close> holds them as
  parameters.
\<close>

text \<open>What the code reads of a parsed URL (the \<open>url\<close> crate).\<close>

record parsed_url =
  url_scheme :: string
  url_host :: "string option"
  url_username :: string
  url_password :: "string option"
  url_query :: "string option"
  url_fragment :: "string option"
  url_path :: string
  url_origin :: string

record library =
  lib_parse_url :: "string \<Rightarrow> parsed_url option"
  lib_header_ok :: "string \<Rightarrow> bool"

record credentials =
  player_id :: string
  credential :: string
  device_id :: "string option"
  bid :: "string option"

record session_config =
  region :: string
  config_origin :: string
  allowed_origins :: "string list"
  platform :: string
  client_version :: string
  master_version :: "string option"
  resource_version :: "string option"

abbreviation bad_config :: "'a outcome" where
  "bad_config \<equiv> fail InvalidConfig"

definition origin :: "library \<Rightarrow> string \<Rightarrow> string outcome" where
  "origin lib value =
     (case lib_parse_url lib value of
        None \<Rightarrow> bad_config
      | Some url \<Rightarrow>
          if url_scheme url \<noteq> ''https''
             \<or> url_host url = None
             \<or> url_username url \<noteq> []
             \<or> url_password url \<noteq> None
             \<or> url_query url \<noteq> None
             \<or> url_fragment url \<noteq> None
             \<or> url_path url \<noteq> ''/''
          then bad_config
          else Inr (url_origin url))"

definition meta_insert :: "library \<Rightarrow> metadata_map \<Rightarrow> string \<times> string \<times> bool \<Rightarrow> metadata_map outcome" where
  "meta_insert lib m = (\<lambda>(key, value, secret).
     if lib_header_ok lib value
     then Inr (alist_put key \<lparr>visible_text = Some value, sensitive = secret\<rparr> m)
     else bad_config)"

text \<open>A run of insertions, stopping at the first refused value.\<close>

fun meta_insert_all :: "library \<Rightarrow> (string \<times> string \<times> bool) list \<Rightarrow> metadata_map \<Rightarrow> metadata_map outcome" where
  "meta_insert_all lib [] m = Inr m"
| "meta_insert_all lib (x # xs) m = and_then (meta_insert lib m x) (meta_insert_all lib xs)"

definition optional_pair :: "string \<Rightarrow> string option \<Rightarrow> bool \<Rightarrow> (string \<times> string \<times> bool) list" where
  "optional_pair key value secret =
     (case value of None \<Rightarrow> [] | Some v \<Rightarrow> [(key, v, secret)])"

definition metadata :: "library \<Rightarrow> session_config \<Rightarrow> credentials option \<Rightarrow> string \<Rightarrow> bool \<Rightarrow> metadata_map outcome" where
  "metadata lib cfg credentials request_id anonymous =
     and_then (meta_insert_all lib
       [(''x-request-id'', request_id, False),
        (''x-platform'', platform cfg, False),
        (''x-client-version'', client_version cfg, False)] []) (\<lambda>result.
     (case credentials of
        Some auth \<Rightarrow>
          if anonymous then Inr result
          else if player_id auth = [] \<or> credential auth = [] then bad_config
          else and_then (meta_insert lib result (''x-player-id'', player_id auth, True)) (\<lambda>result.
            if region cfg = ''jp'' \<and> bid auth \<noteq> None then bad_config
            else meta_insert_all lib
              ([(''x-player-credential'', credential auth, True)]
               @ optional_pair ''x-device-id'' (device_id auth) True
               @ (if region cfg = ''jp'' then [] else optional_pair ''x-player-bid'' (bid auth) True)
               @ optional_pair ''x-master-version'' (master_version cfg) False
               @ (if region cfg = ''jp'' then []
                  else optional_pair ''x-resource-version'' (resource_version cfg) False)) result)
      | None \<Rightarrow> Inr result))"

text \<open>The checks of \<open>SessionConfig::validate\<close> after the target origin is known.\<close>

definition config_rejected :: "library \<Rightarrow> session_config \<Rightarrow> string \<Rightarrow> bool" where
  "config_rejected lib cfg target \<longleftrightarrow>
     region cfg = []
     \<or> platform cfg = []
     \<or> client_version cfg = []
     \<or> \<not> list_ex (\<lambda>v. result_ok (origin lib v) = Some target) (allowed_origins cfg)
     \<or> (region cfg \<noteq> ''jp'' \<and> (master_version cfg \<noteq> None) \<noteq> (resource_version cfg \<noteq> None))
     \<or> (region cfg = ''jp''
        \<and> (platform cfg \<noteq> ''android''
           \<or> resource_version cfg \<noteq> None \<and> master_version cfg = None))
     \<or> region cfg = ''jp''
        \<and> (case master_version cfg of None \<Rightarrow> False | Some v \<Rightarrow> \<not> valid_master v)"

definition config_validate :: "library \<Rightarrow> session_config \<Rightarrow> unit outcome" where
  "config_validate lib cfg =
     and_then (origin lib (config_origin cfg)) (\<lambda>target.
     if config_rejected lib cfg target then bad_config
     else and_then (metadata lib cfg None ''validation'' False) (\<lambda>_. Inr ()))"

section \<open>Credential providers\<close>

record static_credentials =
  sc_region :: string
  sc_origin :: string
  sc_credentials :: credentials

text \<open>
  \<open>StaticCredentials::credentials\<close>: both origins are normalised, the stored one first, and
  a region mismatch is reported before either is parsed.
\<close>

definition static_provide :: "library \<Rightarrow> static_credentials \<Rightarrow> session_config \<Rightarrow> credentials option outcome" where
  "static_provide lib p cfg =
     (if sc_region p \<noteq> region cfg then bad_config
      else and_then (origin lib (sc_origin p)) (\<lambda>a.
           and_then (origin lib (config_origin cfg)) (\<lambda>b.
             if a \<noteq> b then bad_config else Inr (Some (sc_credentials p)))))"

text \<open>
  \<open>StaticCredentials::from_json\<close>: \<open>parse\<close> is the strict JSON deserialisation of a
  credential file.
\<close>

definition static_from_json ::
  "library \<Rightarrow> (string \<Rightarrow> static_credentials option) \<Rightarrow> session_config \<Rightarrow> string \<Rightarrow> static_credentials outcome" where
  "static_from_json lib parse cfg bytes =
     (if 64 * 1024 < length bytes then bad_config
      else and_then (ok_or (parse bytes) (client_error_new InvalidConfig)) (\<lambda>provider.
           and_then (static_provide lib provider cfg) (\<lambda>cs.
           and_then (ok_or cs (client_error_new InvalidConfig)) (\<lambda>c.
           and_then (metadata lib cfg (Some c) ''validation'' False) (\<lambda>_. Inr provider)))))"

section \<open>Facts\<close>

lemma meta_insert_Inr:
  "meta_insert lib m (k, v, s) = Inr m' \<longleftrightarrow>
     lib_header_ok lib v \<and> m' = alist_put k \<lparr>visible_text = Some v, sensitive = s\<rparr> m"
  by (auto simp: meta_insert_def)

lemma meta_insert_keys:
  "meta_insert lib m x = Inr m' \<Longrightarrow> fst ` set m' = insert (fst x) (fst ` set m)"
  by (cases x) (auto simp: meta_insert_Inr)

lemma meta_insert_all_keys:
  "meta_insert_all lib xs m = Inr m' \<Longrightarrow> fst ` set m' = fst ` set xs \<union> fst ` set m"
proof (induction xs arbitrary: m)
  case (Cons x xs)
  then obtain m1 where "meta_insert lib m x = Inr m1" "meta_insert_all lib xs m1 = Inr m'"
    by (auto simp: result_simps)
  with Cons.IH [of m1] meta_insert_keys [of lib m x m1] show ?case by auto
qed simp

lemma meta_insert_all_distinct:
  "meta_insert_all lib xs m = Inr m' \<Longrightarrow> distinct (map fst m) \<Longrightarrow> distinct (map fst m')"
  by (induction xs arbitrary: m) (auto simp: result_simps meta_insert_Inr split_paired_all)

text \<open>Every value put in the map is an accepted header value and is marked as asked.\<close>

lemma meta_insert_all_values:
  assumes "meta_insert_all lib xs m = Inr m'" "(k, v) \<in> set m'"
  shows "(k, v) \<in> set m \<or> (\<exists>t s. (k, t, s) \<in> set xs \<and> lib_header_ok lib t
           \<and> v = \<lparr>visible_text = Some t, sensitive = s\<rparr>)"
proof -
  have put: "(k, v) \<in> set (alist_put k' v' l) \<Longrightarrow> (k, v) = (k', v') \<or> (k, v) \<in> set l"
    for k' :: string and v' l by (induction l) (auto split: if_splits)
  show ?thesis
    using assms
  proof (induction xs arbitrary: m)
    case (Cons x xs)
    obtain k' t s where x: "x = (k', t, s)" by (cases x)
    with Cons.prems obtain m1 where m1: "meta_insert lib m x = Inr m1" "meta_insert_all lib xs m1 = Inr m'"
      by (auto simp: result_simps)
    then have t: "lib_header_ok lib t" "m1 = alist_put k' \<lparr>visible_text = Some t, sensitive = s\<rparr> m"
      using x by (simp_all add: meta_insert_Inr)
    from Cons.IH [OF m1(2) Cons.prems(2)] show ?case
    proof
      assume "(k, v) \<in> set m1"
      with t(2) put have "(k, v) = (k', \<lparr>visible_text = Some t, sensitive = s\<rparr>) \<or> (k, v) \<in> set m"
        by blast
      with x t(1) show ?case by auto
    next
      assume "\<exists>t s. (k, t, s) \<in> set xs \<and> lib_header_ok lib t
           \<and> v = \<lparr>visible_text = Some t, sensitive = s\<rparr>"
      then show ?case by auto
    qed
  qed simp
qed

lemma metadata_anonymous:
  "metadata lib cfg cr rid True = metadata lib cfg None rid anonymous"
  by (cases cr) (simp_all add: metadata_def del: meta_insert_all.simps)

lemma metadata_None_keys:
  "metadata lib cfg None rid a = Inr m \<Longrightarrow>
     fst ` set m = {''x-request-id'', ''x-platform'', ''x-client-version''}"
  unfolding metadata_def option.case and_then_Inr_id
  by (drule meta_insert_all_keys) auto

lemma metadata_anonymous_keys:
  "metadata lib cfg cr rid True = Inr m \<Longrightarrow>
     fst ` set m = {''x-request-id'', ''x-platform'', ''x-client-version''}"
  using metadata_anonymous metadata_None_keys by metis

lemma config_validate_Inr:
  "config_validate lib cfg = Inr u \<longleftrightarrow> (\<exists>t. origin lib (config_origin cfg) = Inr t
     \<and> \<not> config_rejected lib cfg t) \<and> (\<exists>m. metadata lib cfg None ''validation'' False = Inr m)"
  by (auto simp: config_validate_def result_simps)

lemma config_validate_origin:
  assumes "config_validate lib cfg = Inr u"
  shows "\<exists>t v. origin lib (config_origin cfg) = Inr t \<and> v \<in> set (allowed_origins cfg)
     \<and> origin lib v = Inr t"
proof -
  obtain t where "origin lib (config_origin cfg) = Inr t" "\<not> config_rejected lib cfg t"
    using assms by (auto simp: config_validate_Inr)
  moreover from this(2) have "list_ex (\<lambda>v. result_ok (origin lib v) = Some t) (allowed_origins cfg)"
    by (simp add: config_rejected_def)
  ultimately show ?thesis
    by (auto simp: list_ex_iff result_simps)
qed

lemma static_provide_Inr:
  "static_provide lib p cfg = Inr c \<longleftrightarrow>
     c = Some (sc_credentials p) \<and> sc_region p = region cfg
     \<and> (\<exists>t. origin lib (sc_origin p) = Inr t \<and> origin lib (config_origin cfg) = Inr t)"
  by (auto simp: static_provide_def result_simps)

lemma static_provide_error: "static_provide lib p cfg = Inl e \<Longrightarrow> kind e = InvalidConfig"
  by (auto simp: static_provide_def origin_def result_simps split: if_splits option.splits)

section \<open>What a call reveals\<close>

definition base_headers :: "session_config \<Rightarrow> string \<Rightarrow> (string \<times> string \<times> bool) list" where
  "base_headers cfg request_id =
     [(''x-request-id'', request_id, False),
      (''x-platform'', platform cfg, False),
      (''x-client-version'', client_version cfg, False)]"

definition credential_headers :: "session_config \<Rightarrow> credentials \<Rightarrow> (string \<times> string \<times> bool) list" where
  "credential_headers cfg auth =
     [(''x-player-id'', player_id auth, True), (''x-player-credential'', credential auth, True)]
     @ optional_pair ''x-device-id'' (device_id auth) True
     @ (if region cfg = ''jp'' then [] else optional_pair ''x-player-bid'' (bid auth) True)
     @ optional_pair ''x-master-version'' (master_version cfg) False
     @ (if region cfg = ''jp'' then []
        else optional_pair ''x-resource-version'' (resource_version cfg) False)"

definition secret_header :: "string \<Rightarrow> bool" where
  "secret_header k \<longleftrightarrow>
     k \<in> {''x-player-id'', ''x-player-credential'', ''x-device-id'', ''x-player-bid''}"

lemma meta_insert_all_append:
  "meta_insert_all lib (xs @ ys) m = and_then (meta_insert_all lib xs m) (meta_insert_all lib ys)"
proof (induction xs arbitrary: m)
  case (Cons x xs)
  then show ?case by (cases "meta_insert lib m x") simp_all
qed simp

lemma metadata_anonymous_headers:
  "metadata lib cfg cr rid True = meta_insert_all lib (base_headers cfg rid) []"
  "metadata lib cfg None rid a = meta_insert_all lib (base_headers cfg rid) []"
  by (cases cr; simp add: metadata_def base_headers_def del: meta_insert_all.simps)+

lemma metadata_credentials:
  assumes "metadata lib cfg (Some auth) rid False = Inr m"
  shows "meta_insert_all lib (base_headers cfg rid @ credential_headers cfg auth) [] = Inr m"
    and "player_id auth \<noteq> []" and "credential auth \<noteq> []"
    and "region cfg = ''jp'' \<Longrightarrow> bid auth = None"
proof -
  from assms obtain m1 m2 where m1: "meta_insert_all lib (base_headers cfg rid) [] = Inr m1"
    and c: "player_id auth \<noteq> []" "credential auth \<noteq> []"
    and m2: "meta_insert lib m1 (''x-player-id'', player_id auth, True) = Inr m2"
    and b: "\<not> (region cfg = ''jp'' \<and> bid auth \<noteq> None)"
    and rest: "meta_insert_all lib (tl (credential_headers cfg auth)) m2 = Inr m"
    by (auto simp: metadata_def base_headers_def credential_headers_def and_then_Inr
        simp del: meta_insert_all.simps split: if_split_asm)
  have "credential_headers cfg auth =
      (''x-player-id'', player_id auth, True) # tl (credential_headers cfg auth)"
    by (simp add: credential_headers_def)
  with m2 rest have "meta_insert_all lib (credential_headers cfg auth) m1 = Inr m"
    by (metis and_then_simps(2) meta_insert_all.simps(2))
  with m1 show "meta_insert_all lib (base_headers cfg rid @ credential_headers cfg auth) [] = Inr m"
    by (simp add: meta_insert_all_append)
  from c b show "player_id auth \<noteq> []" "credential auth \<noteq> []"
    "region cfg = ''jp'' \<Longrightarrow> bid auth = None" by auto
qed

lemma base_headers_not_secret: "(k, t, s) \<in> set (base_headers cfg rid) \<Longrightarrow> \<not> secret_header k"
  by (auto simp: base_headers_def secret_header_def)

lemma credential_headers_secret:
  "(k, t, s) \<in> set (credential_headers cfg auth) \<Longrightarrow> s = secret_header k"
  by (auto simp: credential_headers_def secret_header_def optional_pair_def split: option.splits if_splits)

lemma credential_headers_jp:
  "region cfg = ''jp'' \<Longrightarrow> (k, t, s) \<in> set (credential_headers cfg auth) \<Longrightarrow>
     k \<noteq> ''x-player-bid'' \<and> k \<noteq> ''x-resource-version''"
  by (auto simp: credential_headers_def optional_pair_def split: option.splits)

text \<open>
  the metadata of a call reveals an account header (player, credential, device
  or BID) only when the call is not anonymous and the session has credentials, every such
  header is marked sensitive, and on JP neither a BID nor a resource version is ever sent.
\<close>

theorem metadata_reveals_credentials_only_when_authenticated:
  assumes "metadata lib cfg cr rid anonymous = Inr m" and "(k, v) \<in> set m"
  shows "(secret_header k \<longrightarrow> \<not> anonymous \<and> cr \<noteq> None \<and> sensitive v)
    \<and> (region cfg = ''jp'' \<longrightarrow> k \<noteq> ''x-player-bid'' \<and> k \<noteq> ''x-resource-version'')"
proof -
  have base: ?thesis if b: "meta_insert_all lib (base_headers cfg rid) [] = Inr m"
  proof -
    from meta_insert_all_values [OF b assms(2)] obtain t s where "(k, t, s) \<in> set (base_headers cfg rid)"
      by auto
    then show ?thesis using base_headers_not_secret [of k t s cfg rid]
      by (auto simp: base_headers_def)
  qed
  show ?thesis
  proof (cases "anonymous \<or> cr = None")
    case True
    then have "meta_insert_all lib (base_headers cfg rid) [] = Inr m"
      using assms(1) metadata_anonymous_headers by (cases anonymous) simp_all
    then show ?thesis by (rule base)
  next
    case False
    then obtain auth where cr: "cr = Some auth" and a: "\<not> anonymous" by auto
    with assms(1) have "meta_insert_all lib (base_headers cfg rid @ credential_headers cfg auth) [] = Inr m"
      by (intro metadata_credentials) simp
    from meta_insert_all_values [OF this assms(2)] obtain t s where
      ts: "(k, t, s) \<in> set (base_headers cfg rid) \<or> (k, t, s) \<in> set (credential_headers cfg auth)"
      and v: "v = \<lparr>visible_text = Some t, sensitive = s\<rparr>" by auto
    from ts show ?thesis
    proof
      assume "(k, t, s) \<in> set (base_headers cfg rid)"
      with base_headers_not_secret [OF this] show ?thesis by (auto simp: base_headers_def)
    next
      assume "(k, t, s) \<in> set (credential_headers cfg auth)"
      with credential_headers_secret [OF this] credential_headers_jp [OF _ this] cr a v
      show ?thesis by auto
    qed
  qed
qed

definition sample_library :: library where
  "sample_library =
     \<lparr>lib_parse_url = (\<lambda>u. if starts_with u ''https://'' then
          Some \<lparr>url_scheme = ''https'', url_host = Some (drop 8 u), url_username = [],
            url_password = None, url_query = None, url_fragment = None, url_path = ''/'',
            url_origin = u\<rparr> else None),
      lib_header_ok = list_all (\<lambda>c. 32 \<le> byte c \<and> byte c < 127)\<rparr>"

definition sample_config :: session_config where
  "sample_config =
     \<lparr>region = ''en'', config_origin = ''https://game.invalid'',
      allowed_origins = [''https://game.invalid''], platform = ''android'',
      client_version = ''1.0.3'', master_version = Some ''m'', resource_version = Some ''r''\<rparr>"

definition sample_credentials :: credentials where
  "sample_credentials =
     \<lparr>player_id = ''p'', credential = ''c'', device_id = None, bid = Some ''b''\<rparr>"

lemmas sample_session_defs =
  sample_library_def sample_config_def sample_credentials_def

theorem metadata_reveals_credentials_only_when_authenticated_witness:
  "secret_header ''x-player-bid''
   \<and> (\<exists>m v. metadata sample_library sample_config (Some sample_credentials) ''id'' False = Inr m
       \<and> (''x-player-bid'', v) \<in> set m \<and> sensitive v)"
proof -
  let ?m = "alist_put ''x-resource-version'' \<lparr>visible_text = Some ''r'', sensitive = False\<rparr>
    (alist_put ''x-master-version'' \<lparr>visible_text = Some ''m'', sensitive = False\<rparr>
    (alist_put ''x-player-bid'' \<lparr>visible_text = Some ''b'', sensitive = True\<rparr>
    (alist_put ''x-player-credential'' \<lparr>visible_text = Some ''c'', sensitive = True\<rparr>
    (alist_put ''x-player-id'' \<lparr>visible_text = Some ''p'', sensitive = True\<rparr>
    (alist_put ''x-client-version'' \<lparr>visible_text = Some ''1.0.3'', sensitive = False\<rparr>
    (alist_put ''x-platform'' \<lparr>visible_text = Some ''android'', sensitive = False\<rparr>
    [(''x-request-id'', \<lparr>visible_text = Some ''id'', sensitive = False\<rparr>)]))))))"
  have m: "metadata sample_library sample_config (Some sample_credentials) ''id'' False = Inr ?m"
    by (simp add: metadata_def sample_session_defs meta_insert_def optional_pair_def byte_def)
  have k: "(''x-player-bid'', \<lparr>visible_text = Some ''b'', sensitive = True\<rparr>) \<in> set ?m"
    by simp
  have "secret_header ''x-player-bid''" by (simp add: secret_header_def)
  with metadata_reveals_credentials_only_when_authenticated [OF m k] m k show ?thesis by blast
qed

end
