(* ===== verification/Queries.thy ===== *)
theory Queries
  imports Errors
begin

text \<open>
  The typed query allowlist (\<open>client/src/query.rs\<close>): the method table the macro expands
  to, one constructor per query with the request fields of the checked-in descriptor
  snapshot, the local validation of every request, and the JP protocol's overrides.
  Protobuf encoding is a library: where a byte encoding matters it is a parameter.
\<close>

record api_method =
  m_name :: string
  m_path :: string
  m_input :: string
  m_output :: string
  m_anonymous :: bool
  m_http :: bool

record arena_ranking_request =
  ar_arena_season_id :: i64
  ar_band_id :: "i64 option"
  ar_ranking_start :: i64
  ar_ranking_end :: i64

record deck_trend_request =
  dt_music_id :: i64
  dt_arena_season_id :: i64

record search_options =
  so_name :: string
  so_member_range :: i32
  so_join_rule :: i32
  so_play_style :: i32

record event_deck_request =
  ed_player_id :: string
  ed_event_id :: i64

record event_ranking_request =
  er_event_id :: i64
  er_ranks :: "i32 list"

record probability_request =
  pr_gacha_id :: i64
  pr_product_id :: i64
  pr_selected_pick_up :: "i64 list"

datatype query =
    Announcement i64
  | Announcements i32
  | ArenaRanking arena_ranking_request
  | DeckTrend deck_trend_request
  | Circle u64
  | CircleRecommendations
  | CircleSearch "search_options option"
  | ChallengeRanking i64
  | EventDeck event_deck_request
  | EventRanking event_ranking_request
  | Profile i64
  | Probability probability_request
  | MusicRanking i64
  | FavoriteStatus string
  | Profiles "i64 list"
  | ServerList
  | VersionQuery
  | Whoami

definition method_row ::
  "string \<Rightarrow> string \<Rightarrow> string \<Rightarrow> string \<Rightarrow> string \<Rightarrow> bool \<Rightarrow> bool \<Rightarrow> api_method" where
  "method_row name service rpc input output anonymous http =
     \<lparr>m_name = name, m_path = ''/'' @ service @ ''/'' @ rpc, m_input = input, m_output = output,
      m_anonymous = anonymous, m_http = http\<rparr>"

definition METHODS :: "api_method list" where
  "METHODS =
    [method_row ''announcement'' ''app.announcement.AnnouncementService'' ''Get'' ''app.announcement.GetRequest'' ''app.announcement.GetResponse'' True True,
     method_row ''announcements'' ''app.announcement.AnnouncementService'' ''GetList'' ''app.announcement.GetListRequest'' ''app.announcement.GetListResponse'' True True,
     method_row ''arena-ranking'' ''app.arena.ArenaService'' ''ArenaRanking'' ''app.arena.ArenaRankingRequest'' ''app.arena.ArenaRankingResponse'' False True,
     method_row ''deck-trend'' ''app.arena.ArenaService'' ''DeckTrend'' ''app.arena.DeckTrendRequest'' ''app.arena.DeckTrendResponse'' False True,
     method_row ''circle'' ''app.circle.CircleService'' ''GetCircleDetail'' ''app.circle.GetCircleRequest'' ''app.circle.GetCircleResponse'' False True,
     method_row ''circle-recommendations'' ''app.circle.CircleService'' ''GetRecommendedCircleList'' ''app.circle.GetRecommendedCircleListRequest'' ''app.circle.GetRecommendedCircleListResponse'' False True,
     method_row ''circle-search'' ''app.circle.CircleService'' ''Search'' ''app.circle.SearchRequest'' ''app.circle.SearchResponse'' False True,
     method_row ''challenge-ranking'' ''app.event.EventService'' ''GetChallengeMusicRanking'' ''app.event.GetChallengeMusicRankingRequest'' ''app.event.GetChallengeMusicRankingResponse'' False True,
     method_row ''event-deck'' ''app.event.EventService'' ''GetDeck'' ''app.event.GetDeckRequest'' ''app.event.GetDeckResponse'' False True,
     method_row ''event-ranking'' ''app.event.EventService'' ''GetRankingList'' ''app.event.GetRankingListRequest'' ''app.event.GetRankingListResponse'' False True,
     method_row ''profile'' ''app.friend.FriendService'' ''FindByProfileID'' ''app.friend.FindByProfileIDRequest'' ''app.friend.FindByProfileIDResponse'' False True,
     method_row ''probability'' ''app.gacha.GachaService'' ''Probability'' ''app.gacha.ProbabilityRequest'' ''app.gacha.ProbabilityResponse'' False True,
     method_row ''music-ranking'' ''app.livemusic.LiveMusicService'' ''GetRanking'' ''app.livemusic.GetRankingRequest'' ''app.livemusic.GetRankingResponse'' False True,
     method_row ''favorite-status'' ''app.player.PlayerService'' ''GetPlayerFavoriteStatus'' ''app.player.GetPlayerFavoriteStatusRequest'' ''app.player.GetPlayerFavoriteStatusResponse'' False True,
     method_row ''profiles'' ''app.playerext.PlayerExtService'' ''GetPlayerList'' ''app.playerext.GetPlayerListRequest'' ''app.playerext.GetPlayerListResponse'' False True,
     method_row ''server-list'' ''app.playerlogin.PlayerLoginService'' ''GetServerList'' ''app.playerlogin.GetServerListRequest'' ''app.playerlogin.GetServerListResponse'' True False,
     method_row ''version'' ''app.masterdata.MasterdataService'' ''Version'' ''app.masterdata.VersionRequest'' ''app.masterdata.VersionResponse'' True False,
     method_row ''whoami'' ''app.player.PlayerService'' ''Whoami'' ''app.player.WhoamiRequest'' ''app.player.WhoamiResponse'' False False]"

fun variant_name :: "query \<Rightarrow> string" where
  "variant_name (Announcement r) = ''announcement''"
| "variant_name (Announcements r) = ''announcements''"
| "variant_name (ArenaRanking r) = ''arena-ranking''"
| "variant_name (DeckTrend r) = ''deck-trend''"
| "variant_name (Circle r) = ''circle''"
| "variant_name (CircleRecommendations) = ''circle-recommendations''"
| "variant_name (CircleSearch r) = ''circle-search''"
| "variant_name (ChallengeRanking r) = ''challenge-ranking''"
| "variant_name (EventDeck r) = ''event-deck''"
| "variant_name (EventRanking r) = ''event-ranking''"
| "variant_name (Profile r) = ''profile''"
| "variant_name (Probability r) = ''probability''"
| "variant_name (MusicRanking r) = ''music-ranking''"
| "variant_name (FavoriteStatus r) = ''favorite-status''"
| "variant_name (Profiles r) = ''profiles''"
| "variant_name (ServerList) = ''server-list''"
| "variant_name (VersionQuery) = ''version''"
| "variant_name (Whoami) = ''whoami''"

definition find_method :: "string \<Rightarrow> api_method option" where
  "find_method name = find (\<lambda>m. m_name m = name) METHODS"

definition query_method :: "query \<Rightarrow> api_method" where
  "query_method q = the (find_method (variant_name q))"

definition method_for_region :: "query \<Rightarrow> string \<Rightarrow> api_method outcome" where
  "method_for_region q region =
     (if region = ''jp'' then
        (case q of
           ServerList \<Rightarrow> fail InvalidRequest
         | Profiles _ \<Rightarrow> Inr ((query_method q)
             \<lparr>m_path := ''/app.player.PlayerService/GetPlayerList'',
              m_input := ''app.player.GetPlayerListRequest'',
              m_output := ''app.player.GetPlayerListResponse''\<rparr>)
         | _ \<Rightarrow> Inr (query_method q))
      else Inr (query_method q))"

definition valid_player :: "string \<Rightarrow> bool" where
  "valid_player v \<longleftrightarrow> v \<noteq> [] \<and> length v \<le> 256"

fun query_valid :: "query \<Rightarrow> bool" where
  "query_valid (Announcement i) = (0 <s i)"
| "query_valid (Announcements tab) = (0 <=s tab \<and> tab <=s 2)"
| "query_valid (ArenaRanking r) =
     (0 <s ar_arena_season_id r
      \<and> (case ar_band_id r of None \<Rightarrow> True | Some v \<Rightarrow> 0 <=s v)
      \<and> 0 <s ar_ranking_start r
      \<and> ar_ranking_start r <=s ar_ranking_end r
      \<and> ar_ranking_end r - ar_ranking_start r <s 100)"
| "query_valid (DeckTrend r) = (0 <s dt_music_id r \<and> 0 <s dt_arena_season_id r)"
| "query_valid (Circle i) = (0 < i)"
| "query_valid (CircleSearch options) =
     (case options of None \<Rightarrow> False | Some s \<Rightarrow> length (so_name s) \<le> 256)"
| "query_valid (ChallengeRanking i) = (0 <s i)"
| "query_valid (EventDeck r) = (0 <s ed_event_id r \<and> valid_player (ed_player_id r))"
| "query_valid (EventRanking r) =
     (0 <s er_event_id r \<and> er_ranks r \<noteq> [] \<and> length (er_ranks r) \<le> 100
      \<and> list_all (\<lambda>v. 0 <s v) (er_ranks r))"
| "query_valid (Profile i) = (0 <s i)"
| "query_valid (Probability r) =
     (0 <s pr_gacha_id r \<and> pr_product_id r = 0 \<and> length (pr_selected_pick_up r) \<le> 100
      \<and> list_all (\<lambda>v. 0 <s v) (pr_selected_pick_up r))"
| "query_valid (MusicRanking i) = (0 <s i)"
| "query_valid (FavoriteStatus p) = valid_player p"
| "query_valid (Profiles ids) =
     (ids \<noteq> [] \<and> length ids \<le> 100 \<and> list_all (\<lambda>v. 0 <s v) ids)"
| "query_valid _ = True"

definition query_validate :: "query \<Rightarrow> unit outcome" where
  "query_validate q = (if query_valid q then Inr () else fail InvalidRequest)"

text \<open>
  \<open>Query::from_json\<close>: \<open>decode\<close> stands for the reflective JSON deserialisation into the
  input message and the prost decoding of its bytes into the variant of that name.
\<close>

definition query_from_json :: "(api_method \<Rightarrow> 'json \<Rightarrow> query option) \<Rightarrow> string \<Rightarrow> 'json \<Rightarrow> query outcome" where
  "query_from_json decode name json =
     and_then (ok_or (find_method name) (client_error_new InvalidRequest)) (\<lambda>m.
     and_then (ok_or (decode m json) (client_error_new InvalidRequest)) (\<lambda>q.
     and_then (query_validate q) (\<lambda>_. Inr q)))"

section \<open>Facts\<close>

lemma method_row_simps [simp]:
  "m_name (method_row n s r i o' a h) = n"
  "m_input (method_row n s r i o' a h) = i"
  "m_output (method_row n s r i o' a h) = o'"
  "m_anonymous (method_row n s r i o' a h) = a"
  "m_http (method_row n s r i o' a h) = h"
  by (simp_all add: method_row_def)

lemma find_method_name: "find_method n = Some m \<Longrightarrow> m_name m = n"
  by (auto simp: find_method_def find_Some_iff)

lemma find_method_variant: "\<exists>m. find_method (variant_name q) = Some m"
  by (cases q) (simp_all add: find_method_def METHODS_def)

lemma find_query_method: "find_method (variant_name q) = Some (query_method q)"
  using find_method_variant [of q] by (auto simp: query_method_def)

lemma query_method_name [simp]: "m_name (query_method q) = variant_name q"
  using find_query_method by (rule find_method_name)

lemma query_method_anonymous:
  "m_anonymous (query_method q) \<longleftrightarrow>
     (case q of Announcement _ \<Rightarrow> True | Announcements _ \<Rightarrow> True | ServerList \<Rightarrow> True
      | VersionQuery \<Rightarrow> True | _ \<Rightarrow> False)"
  by (cases q) (simp_all add: query_method_def find_method_def METHODS_def)

lemma method_for_region_name:
  "method_for_region q region = Inr m \<Longrightarrow>
     m_name m = variant_name q \<and> m_anonymous m = m_anonymous (query_method q)"
  by (auto simp: method_for_region_def split: if_splits query.splits)

lemma query_validate_Inr [simp]: "query_validate q = Inr u \<longleftrightarrow> query_valid q"
  by (simp add: query_validate_def)

lemma query_validate_Inl [simp]:
  "query_validate q = Inl e \<longleftrightarrow> \<not> query_valid q \<and> e = client_error_new InvalidRequest"
  by (auto simp: query_validate_def)

end
