(* ===== verification/Sdk_Login.thy ===== *)
theory Sdk_Login
  imports Session_Config Queries
begin

text \<open>
  The SDK-to-game login request (\<open>client/src/auth.rs\<close>): importing an SDK callback, its
  binding to a region and origin, and the request and metadata of the pre-login and login
  calls.  The JSON deserialisation of a callback is a parameter.
\<close>

definition LOGIN :: api_method where
  "LOGIN =
     \<lparr>m_name = ''player-login'', m_path = ''/app.playerlogin.PlayerLoginService/PlayerLogin'',
      m_input = ''app.playerlogin.PlayerLoginRequest'',
      m_output = ''app.playerlogin.PlayerLoginResponse'', m_anonymous = True, m_http = False\<rparr>"

definition PRE_LOGIN :: api_method where
  "PRE_LOGIN =
     \<lparr>m_name = ''player-pre-login'', m_path = ''/app.playerlogin.PlayerLoginService/PlayerPreLogin'',
      m_input = m_input LOGIN,
      m_output = ''app.playerlogin.PlayerPreLoginResponse'', m_anonymous = True, m_http = False\<rparr>"

definition is_login_method :: "api_method \<Rightarrow> bool" where
  "is_login_method m \<longleftrightarrow> m = LOGIN \<or> m = PRE_LOGIN"

record callback =
  cb_uid :: string
  cb_access_token :: string
  cb_id_token :: "string option"

record sdk_authorization =
  sdk_region :: string
  sdk_origin :: string
  sdk_callback :: callback

record login_context =
  device_model :: string
  operating_system :: string
  device_identifier :: string
  global_channel_id :: u32
  brand_id :: u32
  area_id :: u32

definition from_callback_json ::
  "library \<Rightarrow> (string \<Rightarrow> callback option) \<Rightarrow> session_config \<Rightarrow> string \<Rightarrow> sdk_authorization outcome" where
  "from_callback_json lib parse cfg json =
     and_then (config_validate lib cfg) (\<lambda>_.
     if platform cfg \<noteq> ''android'' \<or> 64 * 1024 < length json then fail InvalidRequest
     else (case parse json of
       None \<Rightarrow> fail InvalidRequest
     | Some cb \<Rightarrow>
         if cb_uid cb = [] \<or> 256 < length (cb_uid cb)
            \<or> cb_access_token cb = [] \<or> 16 * 1024 < length (cb_access_token cb)
            \<or> (case cb_id_token cb of None \<Rightarrow> False | Some v \<Rightarrow> 16 * 1024 < length v)
         then fail InvalidRequest
         else if \<not> lib_header_ok lib (cb_uid cb) then fail InvalidRequest
         else and_then (origin lib (config_origin cfg)) (\<lambda>o'.
           Inr \<lparr>sdk_region = region cfg, sdk_origin = o', sdk_callback = cb\<rparr>)))"

text \<open>A region or platform mismatch is reported before the origin is parsed.\<close>

definition check_binding :: "library \<Rightarrow> sdk_authorization \<Rightarrow> session_config \<Rightarrow> unit outcome" where
  "check_binding lib sdk cfg =
     (if region cfg = ''jp'' \<or> platform cfg \<noteq> ''android'' \<or> sdk_region sdk \<noteq> region cfg
      then fail InvalidConfig
      else and_then (origin lib (config_origin cfg)) (\<lambda>o'.
        if sdk_origin sdk \<noteq> o' then fail InvalidConfig else Inr ()))"

record login_request =
  lr_sdk_uid :: string
  lr_sdk_access_token :: string
  lr_id_token :: string
  lr_platform :: u32
  lr_device_model :: string
  lr_operating_system :: string
  lr_client_version :: string
  lr_uuid_ad_id :: string
  lr_uuid_identifier :: string
  lr_client_package :: string
  lr_initial_data_group :: string
  lr_global_channel_id :: u32
  lr_brand_id :: u32
  lr_area_id :: u32

definition login_request_for :: "session_config \<Rightarrow> sdk_authorization \<Rightarrow> login_context \<Rightarrow> api_method \<Rightarrow> login_request" where
  "login_request_for cfg sdk ctx method =
     \<lparr>lr_sdk_uid = cb_uid (sdk_callback sdk),
      lr_sdk_access_token = cb_access_token (sdk_callback sdk),
      lr_id_token = (if method = LOGIN
        then (case cb_id_token (sdk_callback sdk) of None \<Rightarrow> [] | Some t \<Rightarrow> t) else []),
      lr_platform = 0,
      lr_device_model = device_model ctx,
      lr_operating_system = operating_system ctx,
      lr_client_version = client_version cfg,
      lr_uuid_ad_id = [],
      lr_uuid_identifier = device_identifier ctx,
      lr_client_package = ''com.bilibili.sirius'',
      lr_initial_data_group = [],
      lr_global_channel_id = global_channel_id ctx,
      lr_brand_id = brand_id ctx,
      lr_area_id = area_id ctx\<rparr>"

text \<open>
  \<open>build_request\<close>: the dynamic re-decoding of the just encoded request cannot change it,
  so the request record itself stands for the message.  \<open>rid\<close> is the fresh request id.
\<close>

definition build_request ::
  "library \<Rightarrow> session_config \<Rightarrow> sdk_authorization \<Rightarrow> login_context \<Rightarrow> api_method \<Rightarrow> string \<Rightarrow>
     (login_request \<times> metadata_map) outcome" where
  "build_request lib cfg sdk ctx method rid =
     and_then (check_binding lib sdk cfg) (\<lambda>_.
     if list_ex (\<lambda>v. v = [] \<or> 1024 < length v)
          [device_model ctx, operating_system ctx, device_identifier ctx]
     then fail InvalidRequest
     else and_then (metadata lib cfg None rid True) (\<lambda>m.
       (let m' = (if method = PRE_LOGIN then alist_remove ''x-client-version'' m else m);
            uid = cb_uid (sdk_callback sdk) in
        if \<not> lib_header_ok lib uid then fail InvalidRequest
        else Inr (login_request_for cfg sdk ctx method,
               alist_put ''x-player-bid'' \<lparr>visible_text = Some uid, sensitive = True\<rparr> m'))))"

section \<open>Facts\<close>

lemma login_methods_distinct [simp]: "LOGIN \<noteq> PRE_LOGIN" "PRE_LOGIN \<noteq> LOGIN"
  by (simp_all add: LOGIN_def PRE_LOGIN_def)

lemma login_methods_anonymous [simp]: "m_anonymous LOGIN" "m_anonymous PRE_LOGIN"
  by (simp_all add: LOGIN_def PRE_LOGIN_def)

lemma check_binding_Inr:
  "check_binding lib sdk cfg = Inr u \<longleftrightarrow>
     region cfg \<noteq> ''jp'' \<and> platform cfg = ''android'' \<and> sdk_region sdk = region cfg
     \<and> origin lib (config_origin cfg) = Inr (sdk_origin sdk)"
  by (auto simp: check_binding_def result_simps)

lemma from_callback_json_bound:
  "from_callback_json lib parse cfg json = Inr sdk \<Longrightarrow>
     sdk_region sdk = region cfg \<and> origin lib (config_origin cfg) = Inr (sdk_origin sdk)
     \<and> lib_header_ok lib (cb_uid (sdk_callback sdk))"
  by (auto simp: from_callback_json_def result_simps split: option.splits if_split_asm)

lemma build_request_Inr:
  assumes "build_request lib cfg sdk ctx method rid = Inr (req, m)"
  obtains m0 where "check_binding lib sdk cfg = Inr ()" "metadata lib cfg None rid True = Inr m0"
    "req = login_request_for cfg sdk ctx method"
    "lib_header_ok lib (cb_uid (sdk_callback sdk))"
    "m = alist_put ''x-player-bid'' \<lparr>visible_text = Some (cb_uid (sdk_callback sdk)), sensitive = True\<rparr>
           (if method = PRE_LOGIN then alist_remove ''x-client-version'' m0 else m0)"
  using assms by (auto simp: build_request_def result_simps Let_def split: if_split_asm)

lemma build_request_headers:
  assumes "build_request lib cfg sdk ctx method rid = Inr (req, m)"
  shows "fst ` set m \<subseteq> {''x-request-id'', ''x-platform'', ''x-player-bid'', ''x-client-version''}"
proof -
  obtain m0 where m0: "metadata lib cfg None rid True = Inr m0"
    and m: "m = alist_put ''x-player-bid'' \<lparr>visible_text = Some (cb_uid (sdk_callback sdk)), sensitive = True\<rparr>
           (if method = PRE_LOGIN then alist_remove ''x-client-version'' m0 else m0)"
    using assms by (rule build_request_Inr)
  from metadata_anonymous_keys [OF m0] show ?thesis by (auto simp: m)
qed

text \<open>
  SDK tokens leave the process only towards the origin and region they were
  imported for.  Whenever a pre-login or login request is built, the authorization's region
  is the session's, its origin is the session's normalised origin, the session is not JP;
  the headers are exactly the support headers (without the client version for the probe)
  plus the sensitive BID, and the probe omits the ID token.
\<close>

theorem build_request_stays_in_scope:
  assumes "build_request lib cfg sdk ctx method rid = Inr (req, m)"
  shows "region cfg \<noteq> ''jp'' \<and> sdk_region sdk = region cfg
    \<and> origin lib (config_origin cfg) = Inr (sdk_origin sdk)
    \<and> fst ` set m = {''x-request-id'', ''x-platform'', ''x-player-bid''}
        \<union> (if method = PRE_LOGIN then {} else {''x-client-version''})
    \<and> map_of m ''x-player-bid'' = Some \<lparr>visible_text = Some (cb_uid (sdk_callback sdk)), sensitive = True\<rparr>
    \<and> (method = PRE_LOGIN \<longrightarrow> lr_id_token req = [])"
proof -
  from assms obtain m0 where b: "check_binding lib sdk cfg = Inr ()"
    and m0: "metadata lib cfg None rid True = Inr m0"
    and req: "req = login_request_for cfg sdk ctx method"
    and m: "m = alist_put ''x-player-bid''
        \<lparr>visible_text = Some (cb_uid (sdk_callback sdk)), sensitive = True\<rparr>
        (if method = PRE_LOGIN then alist_remove ''x-client-version'' m0 else m0)"
    by (rule build_request_Inr)
  from metadata_anonymous_keys [OF m0] m b req show ?thesis
    by (auto simp: check_binding_Inr login_request_for_def)
qed

definition sample_sdk :: sdk_authorization where
  "sample_sdk = \<lparr>sdk_region = ''en'', sdk_origin = ''https://game.invalid'',
     sdk_callback = \<lparr>cb_uid = ''u'', cb_access_token = ''t'', cb_id_token = Some ''i''\<rparr>\<rparr>"

definition sample_context :: login_context where
  "sample_context = \<lparr>device_model = ''d'', operating_system = ''o'', device_identifier = ''x'',
     global_channel_id = 1, brand_id = 1, area_id = 1\<rparr>"

theorem build_request_stays_in_scope_witness:
  "\<exists>req m. build_request sample_library sample_config sample_sdk sample_context PRE_LOGIN ''id''
       = Inr (req, m)
     \<and> fst ` set m = {''x-request-id'', ''x-platform'', ''x-player-bid''} \<and> lr_id_token req = []"
proof -
  have b: "\<exists>req m. build_request sample_library sample_config sample_sdk sample_context PRE_LOGIN ''id''
      = Inr (req, m)"
    by (simp add: build_request_def check_binding_def origin_def metadata_def meta_insert_def
        sample_sdk_def sample_context_def sample_session_defs byte_def starts_with_def Let_def)
  then obtain req m where
    "build_request sample_library sample_config sample_sdk sample_context PRE_LOGIN ''id'' = Inr (req, m)"
    by blast
  with build_request_stays_in_scope [OF this] show ?thesis by auto
qed

end
