(* ===== verification/Game_Client.thy ===== *)
theory Game_Client
  imports Sdk_Login
begin

text \<open>
  The game client (\<open>client/src/lib.rs\<close>) with the session-installing operations of
  \<open>versions.rs\<close>, \<open>auth.rs\<close> and \<open>jp.rs\<close>.  A session object is shared by reference, so the
  client holds a store of sessions addressed by their generation, the generation of the
  current one, the serial slot's next start time and the free admission permits.  A fresh
  generation is an argument: the source draws it from UUID v4.  Message contents and their
  decoders are library matter, gathered in the record \<open>codec\<close>.
\<close>

type_synonym generation = nat

datatype session_status =
    Anonymous | CredentialsUnverified | AuthenticationRejected | VersionBlocked
  | DeviceConflictStatus

record client_options =
  timeout :: nat
  minimum_interval :: nat
  queue_capacity :: nat

definition default_client_options :: client_options where
  "default_client_options = \<lparr>timeout = 10000, minimum_interval = 1000, queue_capacity = 32\<rparr>"

record session =
  s_generation :: generation
  s_config :: session_config
  s_credentials :: "credentials option"
  s_transport :: nat
  s_cancelled :: bool
  s_blocked :: "error_kind option"
  s_master_mismatch :: bool
  s_jp_override_pending :: bool

record client =
  sessions :: "generation \<Rightarrow> session"
  issued :: "generation list"
  current :: generation
  serial_next :: nat
  permits :: nat
  options :: client_options

definition current_session :: "client \<Rightarrow> session" where
  "current_session c = sessions c (current c)"

definition update_session :: "generation \<Rightarrow> (session \<Rightarrow> session) \<Rightarrow> client \<Rightarrow> client" where
  "update_session g f c = c\<lparr>sessions := (sessions c)(g := f (sessions c g))\<rparr>"

definition make_session ::
  "library \<Rightarrow> session_config \<Rightarrow> (session_config \<Rightarrow> credentials option outcome) option \<Rightarrow> nat \<Rightarrow>
     generation \<Rightarrow> session outcome" where
  "make_session lib cfg provider transport g =
     and_then (config_validate lib cfg) (\<lambda>_.
     and_then (case provider of None \<Rightarrow> Inr None | Some p \<Rightarrow> p cfg) (\<lambda>cr.
     and_then (metadata lib cfg cr ''validation'' False) (\<lambda>_.
       Inr \<lparr>s_generation = g, s_config = cfg, s_credentials = cr, s_transport = transport,
            s_cancelled = False, s_blocked = None, s_master_mismatch = False,
            s_jp_override_pending = False\<rparr>)))"

definition with_transport ::
  "library \<Rightarrow> session_config \<Rightarrow> (session_config \<Rightarrow> credentials option outcome) option \<Rightarrow>
     client_options \<Rightarrow> nat \<Rightarrow> generation \<Rightarrow> nat \<Rightarrow> client outcome" where
  "with_transport lib cfg provider opts transport g now =
     (if timeout opts = 0 \<or> 120000 < timeout opts \<or> 60000 < minimum_interval opts
         \<or> 4096 < queue_capacity opts
      then fail InvalidConfig
      else and_then (make_session lib cfg provider transport g) (\<lambda>s.
        Inr \<lparr>sessions = (\<lambda>_. s), issued = [g], current = g, serial_next = now,
             permits = queue_capacity opts + 1, options = opts\<rparr>))"

text \<open>
  Constructing the gRPC transport validates the configuration and then builds the endpoint;
  \<open>connect\<close> is that library step and the identity of the resulting channel.
\<close>

definition grpc_transport_new :: "library \<Rightarrow> (session_config \<Rightarrow> nat option) \<Rightarrow> session_config \<Rightarrow> nat outcome" where
  "grpc_transport_new lib connect cfg =
     and_then (config_validate lib cfg) (\<lambda>_. ok_or (connect cfg) (client_error_new InvalidConfig))"

definition client_new ::
  "library \<Rightarrow> (session_config \<Rightarrow> nat option) \<Rightarrow> session_config \<Rightarrow>
     (session_config \<Rightarrow> credentials option outcome) option \<Rightarrow> client_options \<Rightarrow> generation \<Rightarrow> nat \<Rightarrow>
     client outcome" where
  "client_new lib connect cfg provider opts g now =
     and_then (grpc_transport_new lib connect cfg) (\<lambda>t. with_transport lib cfg provider opts t g now)"

text \<open>Cancel the current session object and put a new one in its place, under the write lock.\<close>

definition install :: "session \<Rightarrow> client \<Rightarrow> client" where
  "install s c =
     c\<lparr>sessions := (sessions c)(current c := (current_session c)\<lparr>s_cancelled := True\<rparr>,
                               s_generation s := s),
       issued := s_generation s # issued c,
       current := s_generation s\<rparr>"

definition replace_session ::
  "library \<Rightarrow> (session_config \<Rightarrow> nat option) \<Rightarrow> session_config \<Rightarrow>
     (session_config \<Rightarrow> credentials option outcome) option \<Rightarrow> generation \<Rightarrow> client \<Rightarrow>
     unit outcome \<times> client" where
  "replace_session lib connect cfg provider g c =
     (case and_then (grpc_transport_new lib connect cfg) (\<lambda>t. make_session lib cfg provider t g) of
        Inl e \<Rightarrow> (Inl e, c)
      | Inr s \<Rightarrow> (Inr (), install s c))"

definition import_credentials ::
  "library \<Rightarrow> generation \<Rightarrow> (session_config \<Rightarrow> credentials option outcome) \<Rightarrow> generation \<Rightarrow> client \<Rightarrow>
     unit outcome \<times> client" where
  "import_credentials lib gen provider g c =
     (let cur = current_session c in
      if s_generation cur \<noteq> gen then (fail SessionChanged, c)
      else (case make_session lib (s_config cur) (Some provider) (s_transport cur) g of
              Inl e \<Rightarrow> (Inl e, c)
            | Inr s \<Rightarrow> (Inr (), install s c)))"

definition session_status_of :: "client \<Rightarrow> session_status" where
  "session_status_of c =
     (let s = current_session c in
      case s_blocked s of
        Some Authentication \<Rightarrow> AuthenticationRejected
      | Some Version \<Rightarrow> VersionBlocked
      | Some DeviceConflict \<Rightarrow> DeviceConflictStatus
      | _ \<Rightarrow> (if s_credentials s \<noteq> None then CredentialsUnverified else Anonymous))"

definition session_for :: "generation \<Rightarrow> client \<Rightarrow> session outcome" where
  "session_for gen c =
     (if s_generation (current_session c) \<noteq> gen then fail SessionChanged
      else Inr (current_session c))"

definition matches_identity ::
  "generation \<Rightarrow> (session_config \<Rightarrow> credentials option outcome) \<Rightarrow> client \<Rightarrow> bool outcome" where
  "matches_identity gen provider c =
     and_then (session_for gen c) (\<lambda>s.
     and_then (provider (s_config s)) (\<lambda>supplied.
       Inr (case (s_credentials s, supplied) of
              (Some a, Some b) \<Rightarrow> player_id a = player_id b \<and> bid a = bid b
            | _ \<Rightarrow> False)))"

text \<open>\<open>save_session\<close>: the checks before the credential file is written by \<open>write\<close>.\<close>

definition save_session ::
  "(session_config \<Rightarrow> credentials \<Rightarrow> unit outcome) \<Rightarrow> generation \<Rightarrow> client \<Rightarrow> unit outcome" where
  "save_session write gen c =
     (let s = current_session c in
      if s_generation s \<noteq> gen then fail SessionChanged
      else (case s_blocked s of
              Some k \<Rightarrow> fail k
            | None \<Rightarrow> and_then (ok_or (s_credentials s) (client_error_new AuthenticationRequired))
                        (write (s_config s))))"

definition session_config_of :: "client \<Rightarrow> session_config" where
  "session_config_of c = s_config (current_session c)"

definition client_generation :: "client \<Rightarrow> generation" where
  "client_generation c = s_generation (current_session c)"

definition client_query_error :: "bool \<Rightarrow> client \<Rightarrow> client_error option" where
  "client_query_error anonymous c =
     (if anonymous then None
      else (let s = current_session c in
            case s_blocked s of
              Some k \<Rightarrow> Some (client_error_new k)
            | None \<Rightarrow> if s_credentials s = None then Some (client_error_new AuthenticationRequired)
                      else None))"

section \<open>One upstream operation\<close>

definition REGISTER :: api_method where
  "REGISTER =
     \<lparr>m_name = ''jp-register'', m_path = ''/app.player.PlayerService/Register'',
      m_input = ''app.player.RegisterRequest'', m_output = ''app.player.RegisterResponse'',
      m_anonymous = True, m_http = False\<rparr>"

record 'm transport_response =
  tr_message :: 'm
  tr_full_name :: string
  tr_asset_version :: "string option"

record version_response =
  vr_version :: string
  vr_resource_version :: string

record login_response =
  lg_credential :: "(string \<times> string) option"
  lg_is_new_user :: u32

text \<open>
  The decoders of the generated message types, and the asset header's JSON deserialisation.
  \<open>dec_register\<close> is the credential submessage's id, credential and device id.
\<close>

record 'm codec =
  dec_version :: "'m \<Rightarrow> version_response option"
  dec_pre_login :: "'m \<Rightarrow> bool option"
  dec_login :: "'m \<Rightarrow> login_response option"
  dec_register :: "'m \<Rightarrow> (string \<times> string \<times> string) option"
  parse_asset :: "string \<Rightarrow> asset_payload option"

text \<open>What the \<open>finish\<close> closure of an operation does with a checked response.\<close>

datatype finish_kind =
    FinishQuery
  | FinishVersions session_config
  | FinishPreLogin
  | FinishLogin string
  | FinishRegister

record operation =
  op_session :: generation
  op_method :: api_method
  op_metadata :: metadata_map
  op_finish :: finish_kind

datatype 'm reply =
    QueryReply 'm generation
  | VersionsChanged bool
  | AccountCreated bool
  | LoginReceipt generation u32
  | Registered

text \<open>The check made on holding the serial lock, before waiting for the slot.\<close>

definition blocked_error :: "client \<Rightarrow> operation \<Rightarrow> client_error option" where
  "blocked_error c op =
     (case s_blocked (sessions c (op_session op)) of
        None \<Rightarrow> None
      | Some k \<Rightarrow>
          if \<not> m_anonymous (op_method op)
             \<or> (is_login_method (op_method op) \<or> op_method op = REGISTER)
                \<and> (k = Version \<or> k = DeviceConflict)
          then Some (client_error_new k) else None)"

definition override_sent :: "client \<Rightarrow> operation \<Rightarrow> bool" where
  "override_sent c op =
     (let s = sessions c (op_session op) in
      region (s_config s) = ''jp'' \<and> \<not> m_anonymous (op_method op) \<and> s_jp_override_pending s)"

definition sent_metadata :: "client \<Rightarrow> operation \<Rightarrow> metadata_map" where
  "sent_metadata c op =
     (if override_sent c op
      then alist_put ''x-override-device-id'' \<lparr>visible_text = Some ''1'', sensitive = False\<rparr> (op_metadata op)
      else op_metadata op)"

text \<open>Recording a refusal on the operation's own session; a version or device block stays.\<close>

definition note_failure :: "operation \<Rightarrow> client_error \<Rightarrow> session \<Rightarrow> session" where
  "note_failure op e s =
     (if (\<not> m_anonymous (op_method op) \<or> is_login_method (op_method op))
         \<and> (kind e = Authentication \<or> kind e = Version \<or> kind e = DeviceConflict)
         \<and> \<not> (s_blocked s = Some Version \<or> s_blocked s = Some DeviceConflict)
      then s\<lparr>s_master_mismatch := (effective_code (business_codes e) = Some ''MASTER_VERSION_MISMATCH''),
             s_blocked := Some (kind e)\<rparr>
      else s)"

text \<open>From the transport's result to the point where \<open>finish\<close> is called.\<close>

definition absorb_result ::
  "operation \<Rightarrow> bool \<Rightarrow> bool \<Rightarrow> 'm transport_response outcome \<Rightarrow> client \<Rightarrow>
     'm transport_response outcome \<times> client" where
  "absorb_result op override cancelled result c =
     (case result of
        Inl e \<Rightarrow> (Inl e, update_session (op_session op) (note_failure op e) c)
      | Inr response \<Rightarrow>
          (let c' = (if override
                     then update_session (op_session op) (\<lambda>s. s\<lparr>s_jp_override_pending := False\<rparr>) c
                     else c)
           in (if cancelled then fail Cancelled
               else if client_generation c' \<noteq> s_generation (sessions c' (op_session op)) then fail SessionChanged
               else if tr_full_name response \<noteq> m_output (op_method op) then fail Protocol
               else Inr response, c')))"

definition versions_session ::
  "session_config \<Rightarrow> string \<Rightarrow> string option \<Rightarrow> generation \<Rightarrow> session \<Rightarrow> session" where
  "versions_session presented master resource g cur =
     (let cfg = (s_config cur)\<lparr>master_version := Some master, resource_version := resource,
                               client_version := client_version presented\<rparr>;
          client_changed = client_version (s_config cur) \<noteq> client_version presented;
          blocked = (if s_blocked cur = Some Version \<and> (client_changed \<or> s_master_mismatch cur)
                     then None else s_blocked cur)
      in \<lparr>s_generation = g, s_config = cfg, s_credentials = s_credentials cur,
          s_transport = s_transport cur, s_cancelled = False, s_blocked = blocked,
          s_master_mismatch = False, s_jp_override_pending = s_jp_override_pending cur\<rparr>)"

definition finish_versions ::
  "'m codec \<Rightarrow> session_config \<Rightarrow> operation \<Rightarrow> bool \<Rightarrow> generation \<Rightarrow> 'm transport_response \<Rightarrow> client \<Rightarrow>
     'm reply outcome \<times> client" where
  "finish_versions codec presented op cancelled g r c =
     (case dec_version codec (tr_message r) of
        None \<Rightarrow> (fail Protocol, c)
      | Some response \<Rightarrow>
          (let jp = region (s_config (sessions c (op_session op))) = ''jp'';
               resource = (if jp
                 then asset_version (parse_asset codec) (tr_asset_version r) (client_version presented)
                 else Some (vr_resource_version response));
               cur = current_session c in
           if \<not> (if jp then valid_master (vr_version response) else valid_revision (vr_version response))
              \<or> \<not> jp \<and> \<not> valid_revision (vr_resource_version response)
           then (fail Protocol, c)
           else if s_generation cur \<noteq> op_session op then (fail SessionChanged, c)
           else if cancelled then (fail Cancelled, c)
           else if master_version (s_config cur) = Some (vr_version response)
                   \<and> resource_version (s_config cur) = resource
                   \<and> client_version (s_config cur) = client_version presented
           then (Inr (VersionsChanged False), c)
           else (Inr (VersionsChanged True),
                 install (versions_session presented (vr_version response) resource g cur) c)))"

definition finish_pre_login ::
  "'m codec \<Rightarrow> 'm transport_response \<Rightarrow> client \<Rightarrow> 'm reply outcome \<times> client" where
  "finish_pre_login codec r c =
     (case dec_pre_login codec (tr_message r) of
        None \<Rightarrow> (fail Protocol, c)
      | Some b \<Rightarrow> (Inr (AccountCreated b), c))"

definition authenticated_session :: "session \<Rightarrow> credentials \<Rightarrow> bool \<Rightarrow> generation \<Rightarrow> session" where
  "authenticated_session s cr override g =
     \<lparr>s_generation = g, s_config = s_config s, s_credentials = Some cr,
      s_transport = s_transport s, s_cancelled = False, s_blocked = None,
      s_master_mismatch = False, s_jp_override_pending = override\<rparr>"

definition finish_login ::
  "library \<Rightarrow> 'm codec \<Rightarrow> string \<Rightarrow> operation \<Rightarrow> bool \<Rightarrow> generation \<Rightarrow> 'm transport_response \<Rightarrow> client \<Rightarrow>
     'm reply outcome \<times> client" where
  "finish_login lib codec uid op cancelled g r c =
     (case dec_login codec (tr_message r) of
        None \<Rightarrow> (fail Protocol, c)
      | Some response \<Rightarrow>
          (case lg_credential response of
             None \<Rightarrow> (fail Protocol, c)
           | Some (pid, secret) \<Rightarrow>
               (let s = sessions c (op_session op);
                    cr = \<lparr>player_id = pid, credential = secret, device_id = None, bid = Some uid\<rparr> in
                if result_ok (metadata lib (s_config s) (Some cr) ''validation'' False) = None
                then (fail Protocol, c)
                else if s_generation (current_session c) \<noteq> op_session op then (fail SessionChanged, c)
                else if cancelled then (fail Cancelled, c)
                else (Inr (LoginReceipt g (lg_is_new_user response)),
                      install (authenticated_session s cr False g) c))))"

text \<open>
  \<open>register_jp\<close>'s closure.  \<open>store_response\<close> and \<open>store_credentials\<close> are the outcomes of
  the two private file creations, in their order.
\<close>

definition finish_register ::
  "library \<Rightarrow> 'm codec \<Rightarrow> unit outcome \<Rightarrow> (credentials \<Rightarrow> unit outcome) \<Rightarrow> operation \<Rightarrow> generation \<Rightarrow>
     'm transport_response \<Rightarrow> client \<Rightarrow> 'm reply outcome \<times> client" where
  "finish_register lib codec store_response store_credentials op g r c =
     (let s = sessions c (op_session op) in
      case and_then store_response (\<lambda>_.
             and_then (ok_or (dec_register codec (tr_message r)) (client_error_new Protocol)) (\<lambda>(pid, secret, dev).
             (let cr = \<lparr>player_id = pid, credential = secret,
                        device_id = (if dev = [] then None else Some dev), bid = None\<rparr> in
              and_then (metadata lib (s_config s) (Some cr) ''validation'' False) (\<lambda>_.
              and_then (store_credentials cr) (\<lambda>_. Inr cr))))) of
        Inl e \<Rightarrow> (Inl e, c)
      | Inr cr \<Rightarrow>
          if s_generation (current_session c) \<noteq> op_session op then (fail SessionChanged, c)
          else (Inr Registered, install (authenticated_session s cr True g) c))"

section \<open>Building the operations\<close>

text \<open>
  \<open>execute\<close> before it runs: \<open>request_known region input\<close> says that the descriptor pool of the
  region has the input message and decodes the encoded request into it.
\<close>

definition query_operation ::
  "library \<Rightarrow> (string \<Rightarrow> string \<Rightarrow> query \<Rightarrow> bool) \<Rightarrow> generation \<Rightarrow> query \<Rightarrow> string \<Rightarrow> client \<Rightarrow> operation outcome" where
  "query_operation lib request_known gen q rid c =
     and_then (query_validate q) (\<lambda>_.
     and_then (session_for gen c) (\<lambda>s.
     if \<not> m_anonymous (query_method q) \<and> s_credentials s = None then fail AuthenticationRequired
     else and_then (method_for_region q (region (s_config s))) (\<lambda>m.
     if \<not> request_known (region (s_config s)) (m_input m) q then fail Protocol
     else and_then (metadata lib (s_config s) (s_credentials s) rid (m_anonymous m)) (\<lambda>md.
       Inr \<lparr>op_session = gen, op_method = m, op_metadata = md, op_finish = FinishQuery\<rparr>))))"

definition version_operation ::
  "library \<Rightarrow> generation \<Rightarrow> string option \<Rightarrow> string \<Rightarrow> client \<Rightarrow> operation outcome" where
  "version_operation lib gen candidate rid c =
     and_then (session_for gen c) (\<lambda>s.
       (let presented = (case candidate of
              None \<Rightarrow> s_config s
            | Some v \<Rightarrow> (s_config s)\<lparr>client_version := v\<rparr>) in
        and_then (method_for_region VersionQuery (region presented)) (\<lambda>m.
        and_then (metadata lib presented None rid True) (\<lambda>md.
          Inr \<lparr>op_session = gen, op_method = m, op_metadata = md,
               op_finish = FinishVersions presented\<rparr>))))"

definition adopt_operation ::
  "library \<Rightarrow> generation \<Rightarrow> string \<Rightarrow> string \<Rightarrow> client \<Rightarrow> operation outcome" where
  "adopt_operation lib gen candidate rid c =
     (if patch_version candidate = None then fail InvalidRequest
      else version_operation lib gen (Some candidate) rid c)"

definition sdk_operation ::
  "library \<Rightarrow> generation \<Rightarrow> sdk_authorization \<Rightarrow> login_context \<Rightarrow> api_method \<Rightarrow> string \<Rightarrow> client \<Rightarrow> operation outcome" where
  "sdk_operation lib gen sdk ctx method rid c =
     and_then (session_for gen c) (\<lambda>s.
     and_then (build_request lib (s_config s) sdk ctx method rid) (\<lambda>(_, md).
       Inr \<lparr>op_session = gen, op_method = method, op_metadata = md,
            op_finish = (if method = LOGIN then FinishLogin (cb_uid (sdk_callback sdk)) else FinishPreLogin)\<rparr>))"

text \<open>\<open>fresh_output\<close> and \<open>fresh_response\<close> are the outcomes of the two \<open>check_new\<close> calls.\<close>

definition register_operation ::
  "library \<Rightarrow> generation \<Rightarrow> unit outcome \<Rightarrow> unit outcome \<Rightarrow> string \<Rightarrow> client \<Rightarrow> operation outcome" where
  "register_operation lib gen fresh_output fresh_response rid c =
     and_then (session_for gen c) (\<lambda>s.
     if region (s_config s) \<noteq> ''jp'' \<or> s_credentials s \<noteq> None then fail InvalidConfig
     else and_then fresh_output (\<lambda>_.
     and_then fresh_response (\<lambda>_.
     and_then (metadata lib (s_config s) None rid True) (\<lambda>md.
       Inr \<lparr>op_session = gen, op_method = REGISTER, op_metadata = md, op_finish = FinishRegister\<rparr>))))"

definition self_data_operation :: "library \<Rightarrow> string \<Rightarrow> client \<Rightarrow> operation outcome" where
  "self_data_operation lib rid c =
     and_then (session_for (client_generation c) c) (\<lambda>s.
     if region (s_config s) \<noteq> ''jp'' \<or> s_credentials s = None then fail AuthenticationRequired
     else and_then (metadata lib (s_config s) (s_credentials s) rid False) (\<lambda>md.
       Inr \<lparr>op_session = client_generation c,
            op_method = \<lparr>m_name = ''jp-self-data'', m_path = ''/app.player.PlayerService/GetPlayerData'',
              m_input = ''app.player.GetPlayerDataRequest'',
              m_output = ''app.player.GetPlayerDataResponse'', m_anonymous = False, m_http = False\<rparr>,
            op_metadata = md, op_finish = FinishQuery\<rparr>))"

section \<open>Facts about the session store\<close>

definition client_wf :: "client \<Rightarrow> bool" where
  "client_wf c \<longleftrightarrow> current c \<in> set (issued c) \<and> (\<forall>g\<in>set (issued c). s_generation (sessions c g) = g)"

lemma client_wf_generation: "client_wf c \<Longrightarrow> client_generation c = current c"
  by (simp add: client_wf_def client_generation_def current_session_def)

lemma make_session_Inr:
  "make_session lib cfg p t g = Inr s \<Longrightarrow>
     s_generation s = g \<and> s_config s = cfg \<and> s_transport s = t \<and> \<not> s_cancelled s
     \<and> s_blocked s = None \<and> \<not> s_jp_override_pending s \<and> \<not> s_master_mismatch s
     \<and> (case p of None \<Rightarrow> s_credentials s = None | Some f \<Rightarrow> f cfg = Inr (s_credentials s))
     \<and> config_validate lib cfg = Inr ()"
  by (auto simp: make_session_def result_simps split: option.splits)

lemma with_transport_wf: "with_transport lib cfg p opts t g now = Inr c \<Longrightarrow> client_wf c"
  by (auto simp: with_transport_def client_wf_def result_simps dest!: make_session_Inr split: if_splits)

lemma update_session_simps [simp]:
  "current (update_session g f c) = current c"
  "issued (update_session g f c) = issued c"
  "permits (update_session g f c) = permits c"
  "serial_next (update_session g f c) = serial_next c"
  "options (update_session g f c) = options c"
  "sessions (update_session g f c) = (sessions c)(g := f (sessions c g))"
  by (simp_all add: update_session_def)

lemma install_simps [simp]:
  "current (install s c) = s_generation s"
  "issued (install s c) = s_generation s # issued c"
  "permits (install s c) = permits c"
  "serial_next (install s c) = serial_next c"
  "options (install s c) = options c"
  "sessions (install s c) (s_generation s) = s"
  "current_session (install s c) = s"
  by (simp_all add: install_def current_session_def)

lemma install_other_session:
  "g \<noteq> s_generation s \<Longrightarrow> sessions (install s c) g =
     (if g = current c then (sessions c g)\<lparr>s_cancelled := True\<rparr> else sessions c g)"
  by (simp add: install_def current_session_def)

lemma client_wf_update:
  "client_wf c \<Longrightarrow> (\<And>s. s_generation (f s) = s_generation s) \<Longrightarrow> client_wf (update_session g f c)"
  by (simp add: client_wf_def)

lemma client_wf_install: "client_wf c \<Longrightarrow> client_wf (install s c)"
  by (auto simp: client_wf_def install_def current_session_def)

lemma note_failure_frame [simp]:
  "s_generation (note_failure op e s) = s_generation s"
  "s_config (note_failure op e s) = s_config s"
  "s_credentials (note_failure op e s) = s_credentials s"
  "s_transport (note_failure op e s) = s_transport s"
  "s_cancelled (note_failure op e s) = s_cancelled s"
  "s_jp_override_pending (note_failure op e s) = s_jp_override_pending s"
  by (simp_all add: note_failure_def)

lemma note_failure_keeps_block:
  "s_blocked s = Some Version \<or> s_blocked s = Some DeviceConflict \<Longrightarrow> note_failure op e s = s"
  by (auto simp: note_failure_def)

lemma session_for_Inr:
  "session_for gen c = Inr s \<longleftrightarrow> s = current_session c \<and> s_generation s = gen"
  by (auto simp: session_for_def)

lemma absorb_result_Inr:
  "absorb_result op ov can r c = (Inr resp, c') \<Longrightarrow>
     r = Inr resp \<and> \<not> can \<and> tr_full_name resp = m_output (op_method op)
     \<and> client_generation c' = s_generation (sessions c' (op_session op))"
  by (auto simp: absorb_result_def Let_def split: sum.splits if_split_asm)

lemma absorb_result_wf: "client_wf c \<Longrightarrow> client_wf (snd (absorb_result op ov can r c))"
  by (auto simp: absorb_result_def Let_def intro!: client_wf_update split: sum.splits)

lemma absorb_result_frame [simp]:
  "current (snd (absorb_result op ov can r c)) = current c"
  "issued (snd (absorb_result op ov can r c)) = issued c"
  "permits (snd (absorb_result op ov can r c)) = permits c"
  "serial_next (snd (absorb_result op ov can r c)) = serial_next c"
  "options (snd (absorb_result op ov can r c)) = options c"
  by (auto simp: absorb_result_def Let_def split: sum.splits)

end
