(* ===== verification/Client_Steps.thy ===== *)
theory Client_Steps
  imports Game_Client
begin

text \<open>
  The interleavings of the client's operations (\<open>run_operation_response\<close> of
  \<open>client/src/lib.rs\<close>).  Each operation is admitted by a semaphore, waits for the serial
  lock, waits for the slot's start time, is sent, and its response is checked and finished
  while the lock is still held; until it is answered the surrounding \<open>select\<close> can end it.
  Every code region between two suspension points, or between two lock operations other
  threads can interleave with, is one step.
\<close>

datatype 'm op_status =
    Absent
  | Built operation
  | Waiting operation
  | Sleeping operation
  | InFlight operation bool
  | Checked operation "'m transport_response"
  | Finished "'m reply outcome"

record sent_call =
  sent_at :: nat
  sent_session :: generation
  sent_method :: api_method
  sent_headers :: metadata_map

record 'm world =
  w_client :: client
  w_ops :: "nat \<Rightarrow> 'm op_status"
  w_lock :: "nat option"
  w_now :: nat
  w_sent :: "sent_call list"

definition admitted :: "'m op_status \<Rightarrow> bool" where
  "admitted st =
     (case st of Absent \<Rightarrow> False | Built _ \<Rightarrow> False | Finished _ \<Rightarrow> False | _ \<Rightarrow> True)"

definition holds_lock :: "'m op_status \<Rightarrow> bool" where
  "holds_lock st =
     (case st of Sleeping _ \<Rightarrow> True | InFlight _ _ \<Rightarrow> True | Checked _ _ \<Rightarrow> True | _ \<Rightarrow> False)"

text \<open>An operation ends: its guards for the permit and (if it holds it) the lock are dropped.\<close>

definition end_op :: "nat \<Rightarrow> 'm reply outcome \<Rightarrow> 'm world \<Rightarrow> 'm world" where
  "end_op i res w =
     w\<lparr>w_client := (w_client w)\<lparr>permits := permits (w_client w) + 1\<rparr>,
       w_ops := (w_ops w)(i := Finished res),
       w_lock := (if w_lock w = Some i then None else w_lock w)\<rparr>"

definition admit_op :: "nat \<Rightarrow> operation \<Rightarrow> 'm world \<Rightarrow> 'm world" where
  "admit_op i op w =
     (if permits (w_client w) = 0
      then w\<lparr>w_ops := (w_ops w)(i := Finished (fail QueueFull))\<rparr>
      else w\<lparr>w_client := (w_client w)\<lparr>permits := permits (w_client w) - 1\<rparr>,
             w_ops := (w_ops w)(i := Waiting op)\<rparr>)"

definition acquire_op :: "nat \<Rightarrow> operation \<Rightarrow> 'm world \<Rightarrow> 'm world" where
  "acquire_op i op w =
     (case blocked_error (w_client w) op of
        Some e \<Rightarrow> end_op i (Inl e) w
      | None \<Rightarrow> w\<lparr>w_ops := (w_ops w)(i := Sleeping op), w_lock := Some i\<rparr>)"

definition send_op :: "nat \<Rightarrow> operation \<Rightarrow> 'm world \<Rightarrow> 'm world" where
  "send_op i op w =
     w\<lparr>w_client := (w_client w)\<lparr>serial_next := w_now w + minimum_interval (options (w_client w))\<rparr>,
       w_ops := (w_ops w)(i := InFlight op (override_sent (w_client w) op)),
       w_sent := \<lparr>sent_at = w_now w, sent_session = op_session op, sent_method = op_method op,
                  sent_headers = sent_metadata (w_client w) op\<rparr> # w_sent w\<rparr>"

definition respond_op ::
  "nat \<Rightarrow> operation \<Rightarrow> bool \<Rightarrow> bool \<Rightarrow> 'm transport_response outcome \<Rightarrow> 'm world \<Rightarrow> 'm world" where
  "respond_op i op override cancelled result w =
     (case absorb_result op override cancelled result (w_client w) of
        (Inl e, c) \<Rightarrow> end_op i (Inl e) (w\<lparr>w_client := c\<rparr>)
      | (Inr response, c) \<Rightarrow>
          w\<lparr>w_client := c, w_ops := (w_ops w)(i := Checked op response)\<rparr>)"

text \<open>
  The closure of each operation.  \<open>g\<close> is the generation it draws, \<open>files\<close> the outcomes of
  the two file creations of a registration.
\<close>

definition run_finish ::
  "library \<Rightarrow> 'm codec \<Rightarrow> bool \<Rightarrow> generation \<Rightarrow> unit outcome \<Rightarrow> (credentials \<Rightarrow> unit outcome) \<Rightarrow>
     operation \<Rightarrow> 'm transport_response \<Rightarrow> client \<Rightarrow> 'm reply outcome \<times> client" where
  "run_finish lib codec cancelled g f1 f2 op response c =
     (case op_finish op of
        FinishQuery \<Rightarrow> (Inr (QueryReply (tr_message response) (op_session op)), c)
      | FinishVersions presented \<Rightarrow> finish_versions codec presented op cancelled g response c
      | FinishPreLogin \<Rightarrow> finish_pre_login codec response c
      | FinishLogin uid \<Rightarrow> finish_login lib codec uid op cancelled g response c
      | FinishRegister \<Rightarrow> finish_register lib codec f1 f2 op g response c)"

definition finish_op ::
  "library \<Rightarrow> 'm codec \<Rightarrow> bool \<Rightarrow> generation \<Rightarrow> unit outcome \<Rightarrow> (credentials \<Rightarrow> unit outcome) \<Rightarrow>
     nat \<Rightarrow> operation \<Rightarrow> 'm transport_response \<Rightarrow> 'm world \<Rightarrow> 'm world" where
  "finish_op lib codec cancelled g f1 f2 i op response w =
     (case run_finish lib codec cancelled g f1 f2 op response (w_client w) of
        (res, c) \<Rightarrow> end_op i res (w\<lparr>w_client := c\<rparr>))"

text \<open>The biased \<open>select\<close>: which branch ends an unanswered operation, if one is ready.\<close>

definition select_end :: "bool \<Rightarrow> bool \<Rightarrow> bool \<Rightarrow> error_kind option" where
  "select_end cancelled session_cancelled timed_out =
     (if cancelled then Some Cancelled
      else if session_cancelled then Some SessionChanged
      else if timed_out then Some Timeout else None)"

text \<open>The operations the client builds (no other request reaches the transport).\<close>

definition built_operation :: "library \<Rightarrow> client \<Rightarrow> operation \<Rightarrow> bool" where
  "built_operation lib c op \<longleftrightarrow>
     (\<exists>rk gen q rid. query_operation lib rk gen q rid c = Inr op)
     \<or> (\<exists>gen cand rid. version_operation lib gen cand rid c = Inr op)
     \<or> (\<exists>gen sdk ctx m rid. is_login_method m \<and> sdk_operation lib gen sdk ctx m rid c = Inr op)
     \<or> (\<exists>gen f1 f2 rid. register_operation lib gen f1 f2 rid c = Inr op)
     \<or> (\<exists>rid. self_data_operation lib rid c = Inr op)"

text \<open>
  Building an operation reads the session object; another thread may replace the session
  before the operation is admitted, so the two are separate steps.
\<close>

inductive world_step :: "library \<Rightarrow> 'm codec \<Rightarrow> 'm world \<Rightarrow> 'm world \<Rightarrow> bool"
  for lib :: library and codec :: "'m codec" where
  build: "w_ops w i = Absent \<Longrightarrow> built_operation lib (w_client w) op \<Longrightarrow>
    world_step lib codec w (w\<lparr>w_ops := (w_ops w)(i := Built op)\<rparr>)"
| admit: "w_ops w i = Built op \<Longrightarrow> world_step lib codec w (admit_op i op w)"
| acquire: "w_ops w i = Waiting op \<Longrightarrow> w_lock w = None \<Longrightarrow>
    world_step lib codec w (acquire_op i op w)"
| send: "w_ops w i = Sleeping op \<Longrightarrow> serial_next (w_client w) \<le> w_now w \<Longrightarrow>
    world_step lib codec w (send_op i op w)"
| respond: "w_ops w i = InFlight op override \<Longrightarrow>
    world_step lib codec w (respond_op i op override cancelled result w)"
| finish: "w_ops w i = Checked op response \<Longrightarrow> g \<notin> set (issued (w_client w)) \<Longrightarrow>
    world_step lib codec w (finish_op lib codec cancelled g f1 f2 i op response w)"
| abort: "w_ops w i = Waiting op \<or> w_ops w i = Sleeping op \<or> w_ops w i = InFlight op override \<Longrightarrow>
    select_end cancelled (s_cancelled (sessions (w_client w) (op_session op))) timed_out = Some k \<Longrightarrow>
    world_step lib codec w (end_op i (fail k) w)"
| replace: "g \<notin> set (issued (w_client w)) \<Longrightarrow>
    replace_session lib connect cfg provider g (w_client w) = (res, c) \<Longrightarrow>
    world_step lib codec w (w\<lparr>w_client := c\<rparr>)"
| import_creds: "g \<notin> set (issued (w_client w)) \<Longrightarrow>
    import_credentials lib gen provider' g (w_client w) = (res, c) \<Longrightarrow>
    world_step lib codec w (w\<lparr>w_client := c\<rparr>)"
| tick: "w_now w \<le> t \<Longrightarrow> world_step lib codec w (w\<lparr>w_now := t\<rparr>)"

definition start_world :: "client \<Rightarrow> nat \<Rightarrow> 'm world" where
  "start_world c now =
     \<lparr>w_client = c, w_ops = (\<lambda>_. Absent), w_lock = None, w_now = now, w_sent = []\<rparr>"

inductive reachable :: "library \<Rightarrow> 'm codec \<Rightarrow> client \<Rightarrow> 'm world \<Rightarrow> bool"
  for lib :: library and codec :: "'m codec" and c0 :: client where
  start: "reachable lib codec c0 (start_world c0 now)"
| step: "reachable lib codec c0 w \<Longrightarrow> world_step lib codec w w' \<Longrightarrow> reachable lib codec c0 w'"

inductive_cases world_stepE: "world_step lib codec w w'"

section \<open>Frames: what a step does to the client\<close>

lemma run_finish_cases:
  assumes "run_finish lib codec can g f1 f2 op resp c = (res, c')"
  shows "c' = c \<or> (\<exists>s. c' = install s c \<and> s_generation s = g
     \<and> s_generation (current_session c) = op_session op)"
proof (cases "op_finish op")
  case FinishQuery
  with assms show ?thesis by (simp add: run_finish_def)
next
  case (FinishVersions presented)
  with assms show ?thesis
    by (auto simp: run_finish_def finish_versions_def versions_session_def Let_def
        split: option.splits if_split_asm)
next
  case FinishPreLogin
  with assms show ?thesis by (auto simp: run_finish_def finish_pre_login_def split: option.splits)
next
  case (FinishLogin uid)
  with assms show ?thesis
    by (auto simp: run_finish_def finish_login_def authenticated_session_def Let_def
        split: option.splits if_split_asm prod.splits)
next
  case FinishRegister
  with assms show ?thesis
    by (auto simp: run_finish_def finish_register_def authenticated_session_def Let_def
        split: sum.splits if_split_asm)
qed

lemma replace_session_cases:
  "replace_session lib connect cfg p g c = (res, c') \<Longrightarrow>
     c' = c \<or> (\<exists>s. c' = install s c \<and> s_generation s = g)"
  by (auto simp: replace_session_def result_simps dest!: make_session_Inr split: sum.splits)

lemma import_credentials_cases:
  "import_credentials lib gen p g c = (res, c') \<Longrightarrow>
     c' = c \<or> (\<exists>s. c' = install s c \<and> s_generation s = g)"
  by (auto simp: import_credentials_def Let_def dest!: make_session_Inr split: sum.splits if_split_asm)

section \<open>Invariants\<close>

definition op_of :: "'m op_status \<Rightarrow> operation option" where
  "op_of st = (case st of Built op \<Rightarrow> Some op | Waiting op \<Rightarrow> Some op | Sleeping op \<Rightarrow> Some op
     | InFlight op _ \<Rightarrow> Some op | Checked op _ \<Rightarrow> Some op | _ \<Rightarrow> None)"

definition discreet :: "api_method \<Rightarrow> metadata_map \<Rightarrow> bool" where
  "discreet m md \<longleftrightarrow> (m_anonymous m \<longrightarrow>
     (\<forall>k v. (k, v) \<in> set md \<longrightarrow> secret_header k \<longrightarrow> is_login_method m \<and> k = ''x-player-bid''))"

definition lock_inv :: "'m world \<Rightarrow> bool" where
  "lock_inv w \<longleftrightarrow> (\<forall>i. holds_lock (w_ops w i) \<longleftrightarrow> w_lock w = Some i)"

definition permit_inv :: "'m world \<Rightarrow> bool" where
  "permit_inv w \<longleftrightarrow> finite {i. admitted (w_ops w i)}
     \<and> permits (w_client w) + card {i. admitted (w_ops w i)} = queue_capacity (options (w_client w)) + 1"

definition slot_inv :: "'m world \<Rightarrow> bool" where
  "slot_inv w \<longleftrightarrow>
     sorted_wrt (\<lambda>a b. sent_at b + minimum_interval (options (w_client w)) \<le> sent_at a) (w_sent w)
     \<and> (\<forall>s\<in>set (w_sent w). sent_at s + minimum_interval (options (w_client w)) \<le> serial_next (w_client w))"

definition ops_inv :: "'m world \<Rightarrow> bool" where
  "ops_inv w \<longleftrightarrow> (\<forall>i op. op_of (w_ops w i) = Some op \<longrightarrow>
       op_session op \<in> set (issued (w_client w)) \<and> discreet (op_method op) (op_metadata op))
     \<and> (\<forall>s\<in>set (w_sent w). discreet (sent_method s) (sent_headers s))"

definition sleep_inv :: "'m world \<Rightarrow> bool" where
  "sleep_inv w \<longleftrightarrow> (\<forall>i op. w_ops w i = Sleeping op \<longrightarrow> blocked_error (w_client w) op = None)"

definition world_inv :: "'m world \<Rightarrow> bool" where
  "world_inv w \<longleftrightarrow> client_wf (w_client w) \<and> lock_inv w \<and> permit_inv w \<and> slot_inv w
     \<and> ops_inv w \<and> sleep_inv w"

lemmas world_inv_defs = lock_inv_def permit_inv_def slot_inv_def ops_inv_def sleep_inv_def

lemma status_simps [simp]:
  "\<not> admitted Absent" "\<not> admitted (Built op)" "admitted (Waiting op)" "admitted (Sleeping op)"
  "admitted (InFlight op b)" "admitted (Checked op r)" "\<not> admitted (Finished x)"
  "\<not> holds_lock Absent" "\<not> holds_lock (Built op)" "\<not> holds_lock (Waiting op)"
  "holds_lock (Sleeping op)" "holds_lock (InFlight op b)" "holds_lock (Checked op r)"
  "\<not> holds_lock (Finished x)"
  "op_of Absent = None" "op_of (Built op) = Some op" "op_of (Waiting op) = Some op"
  "op_of (Sleeping op) = Some op" "op_of (InFlight op b) = Some op" "op_of (Checked op r) = Some op"
  "op_of (Finished x) = None"
  by (simp_all add: admitted_def holds_lock_def op_of_def)

lemma admitted_insert:
  "{j. admitted ((f(i := st)) j)} =
     (if admitted st then insert i {j. admitted (f j)} else {j. admitted (f j)} - {i})"
  by auto

subsection \<open>A change of the client only\<close>

text \<open>
  What every session operation preserves of the client: the permits, the slot, the options,
  well-formedness, the issued generations, and the blocks of the sessions already issued.
\<close>

definition client_step_ok :: "client \<Rightarrow> client \<Rightarrow> bool" where
  "client_step_ok c c' \<longleftrightarrow>
     (client_wf c \<longrightarrow> client_wf c') \<and> permits c' = permits c \<and> serial_next c' = serial_next c
     \<and> options c' = options c \<and> set (issued c) \<subseteq> set (issued c')
     \<and> (\<forall>g\<in>set (issued c). s_blocked (sessions c' g) = s_blocked (sessions c g))"

lemma client_step_ok_refl [simp]: "client_step_ok c c"
  by (simp add: client_step_ok_def)

lemma install_keeps_block:
  assumes "g \<in> set (issued c)" "s_generation s \<notin> set (issued c)"
  shows "s_blocked (sessions (install s c) g) = s_blocked (sessions c g)"
proof -
  have "g \<noteq> s_generation s" using assms by auto
  then show ?thesis by (simp add: install_other_session)
qed

lemma client_step_ok_install:
  "client_wf c \<Longrightarrow> s_generation s \<notin> set (issued c) \<Longrightarrow> client_step_ok c (install s c)"
  unfolding client_step_ok_def by (auto simp: client_wf_install install_keeps_block)

lemma world_inv_client_step:
  assumes "world_inv w" "client_step_ok (w_client w) c"
  shows "world_inv (w\<lparr>w_client := c\<rparr>)"
proof -
  have wf: "client_wf (w_client w)" "lock_inv w" "permit_inv w" "slot_inv w" "ops_inv w" "sleep_inv w"
    using assms(1) by (simp_all add: world_inv_def)
  note ok = assms(2) [unfolded client_step_ok_def]
  have ops: "ops_inv (w\<lparr>w_client := c\<rparr>)"
    using wf(5) ok by (auto simp: ops_inv_def)
  have sleep: "sleep_inv (w\<lparr>w_client := c\<rparr>)"
    unfolding sleep_inv_def
  proof (intro allI impI)
    fix i op
    assume s: "w_ops (w\<lparr>w_client := c\<rparr>) i = Sleeping op"
    then have "op_of (w_ops w i) = Some op" "blocked_error (w_client w) op = None"
      using wf(6) by (simp_all add: sleep_inv_def)
    moreover from this(1) have "op_session op \<in> set (issued (w_client w))"
      using wf(5) by (auto simp: ops_inv_def)
    ultimately show "blocked_error (w_client (w\<lparr>w_client := c\<rparr>)) op = None"
      using ok by (simp add: blocked_error_def)
  qed
  from wf ok ops sleep show ?thesis
    by (simp add: world_inv_def lock_inv_def permit_inv_def slot_inv_def)
qed

subsection \<open>Steps of one operation\<close>

lemma card_admitted_remove:
  "finite {j. admitted (f j)} \<Longrightarrow> admitted (f i) \<Longrightarrow>
     Suc (card ({j. admitted (f j)} - {i})) = card {j. admitted (f j)}"
  by (rule card_Suc_Diff1) simp_all

lemma blocked_error_permits [simp]:
  "blocked_error (c\<lparr>permits := n\<rparr>) op = blocked_error c op"
  "blocked_error (c\<lparr>serial_next := n\<rparr>) op = blocked_error c op"
  by (simp_all add: blocked_error_def)

lemma client_wf_permits [simp]:
  "client_wf (c\<lparr>permits := n\<rparr>) = client_wf c"
  "client_wf (c\<lparr>serial_next := n\<rparr>) = client_wf c"
  by (simp_all add: client_wf_def)

lemma permit_inv_end_op:
  assumes "permit_inv w" "admitted (w_ops w i)"
  shows "permit_inv (end_op i res w)"
proof -
  have "{j. admitted (w_ops (end_op i res w) j)} = {j. admitted (w_ops w j)} - {i}"
    by (auto simp: end_op_def)
  then show ?thesis
    using assms card_admitted_remove [of "w_ops w" i]
    by (simp add: permit_inv_def) (simp add: end_op_def)
qed

lemma world_inv_end_op:
  assumes "world_inv w" "admitted (w_ops w i)"
  shows "world_inv (end_op i res w)"
proof -
  have wf: "client_wf (w_client w)" "lock_inv w" "permit_inv w" "slot_inv w" "ops_inv w" "sleep_inv w"
    using assms(1) by (simp_all add: world_inv_def)
  have "lock_inv (end_op i res w)"
    using wf(2) by (auto simp: lock_inv_def end_op_def)
  moreover have "permit_inv (end_op i res w)"
    using permit_inv_end_op [OF wf(3) assms(2)] by simp
  moreover have "slot_inv (end_op i res w)" using wf(4) by (simp add: slot_inv_def end_op_def)
  moreover have "ops_inv (end_op i res w)" using wf(5) by (auto simp: ops_inv_def end_op_def)
  moreover have "sleep_inv (end_op i res w)" using wf(6) by (auto simp: sleep_inv_def end_op_def)
  ultimately show ?thesis using wf(1) by (simp add: world_inv_def end_op_def)
qed

lemma world_inv_set_status:
  assumes "world_inv w" "admitted st = admitted (w_ops w i)" "holds_lock st = holds_lock (w_ops w i)"
    and "op_of st = op_of (w_ops w i)" "\<And>op. st \<noteq> Sleeping op"
  shows "world_inv (w\<lparr>w_ops := (w_ops w)(i := st)\<rparr>)"
proof -
  have "{j. admitted (((w_ops w)(i := st)) j)} = {j. admitted (w_ops w j)}"
    using assms(2) by auto
  then show ?thesis
    using assms by (auto simp: world_inv_def world_inv_defs)
qed

lemma world_inv_parts:
  assumes "world_inv w"
  shows "client_wf (w_client w)" "lock_inv w" "permit_inv w" "slot_inv w" "ops_inv w" "sleep_inv w"
  using assms by (simp_all add: world_inv_def)

lemma world_inv_admit:
  assumes "world_inv w" "w_ops w i = Built op"
  shows "world_inv (admit_op i op w)"
proof (cases "permits (w_client w) = 0")
  case True
  then have e: "admit_op i op w = w\<lparr>w_ops := (w_ops w)(i := Finished (fail QueueFull))\<rparr>"
    by (simp add: admit_op_def)
  have "{j. admitted (w_ops (admit_op i op w) j)} = {j. admitted (w_ops w j)}"
    using assms(2) e by auto
  moreover have "\<not> holds_lock (w_ops w i)" using assms(2) by simp
  ultimately show ?thesis
    using world_inv_parts [OF assms(1)] unfolding e
    by (auto simp: world_inv_def world_inv_defs)
next
  case False
  have unlocked: "\<not> holds_lock (w_ops w i)" using assms(2) by simp
  let ?A = "{j. admitted (w_ops w j)}"
  have new: "{j. admitted (w_ops (admit_op i op w) j)} = insert i ?A"
    using False assms(2) by (auto simp: admit_op_def)
  have "i \<notin> ?A" using assms(2) by simp
  with world_inv_parts(3) [OF assms(1)] False have "permit_inv (admit_op i op w)"
    unfolding permit_inv_def new by (simp add: admit_op_def)
  moreover have "lock_inv (admit_op i op w)" "slot_inv (admit_op i op w)"
    "sleep_inv (admit_op i op w)"
    using world_inv_parts [OF assms(1)] unlocked False
    by (auto simp: admit_op_def lock_inv_def slot_inv_def sleep_inv_def)
  moreover have "ops_inv (admit_op i op w)"
  proof -
    have "op_of (w_ops w i) = Some op" using assms(2) by simp
    with world_inv_parts(5) [OF assms(1)] False show ?thesis
      by (auto simp: admit_op_def ops_inv_def)
  qed
  ultimately show ?thesis
    using world_inv_parts(1) [OF assms(1)] False by (simp add: world_inv_def admit_op_def)
qed

text \<open>A status change that keeps the permit and the operation.\<close>

lemma permit_inv_status:
  assumes "permit_inv w" "admitted st = admitted (w_ops w i)"
    and "permits c = permits (w_client w)" "options c = options (w_client w)"
  shows "permit_inv (w\<lparr>w_client := c, w_ops := (w_ops w)(i := st), w_lock := l, w_sent := t\<rparr>)"
proof -
  have "{j. admitted (((w_ops w)(i := st)) j)} = {j. admitted (w_ops w j)}"
    using assms(2) by auto
  then show ?thesis using assms by (simp add: permit_inv_def)
qed

lemma world_inv_acquire:
  assumes "world_inv w" "w_ops w i = Waiting op" "w_lock w = None"
  shows "world_inv (acquire_op i op w)"
proof (cases "blocked_error (w_client w) op")
  case (Some e)
  then show ?thesis using world_inv_end_op [OF assms(1)] assms(2) by (simp add: acquire_op_def)
next
  case None
  then have e: "acquire_op i op w = w\<lparr>w_ops := (w_ops w)(i := Sleeping op), w_lock := Some i\<rparr>"
    by (simp add: acquire_op_def)
  note inv = world_inv_parts [OF assms(1)]
  have "permit_inv (acquire_op i op w)"
    using permit_inv_status [OF inv(3), where st = "Sleeping op" and i = i and c = "w_client w" and l = "Some i" and t = "w_sent w"] assms(2)
    by (simp add: e)
  moreover have "lock_inv (acquire_op i op w)" using inv(2) assms(3) by (auto simp: e lock_inv_def)
  moreover have "ops_inv (acquire_op i op w)"
  proof -
    have "op_of (w_ops w i) = Some op" using assms(2) by simp
    with inv(5) show ?thesis by (auto simp: e ops_inv_def)
  qed
  moreover have "slot_inv (acquire_op i op w)" "sleep_inv (acquire_op i op w)"
    using inv(4,6) None by (auto simp: e slot_inv_def sleep_inv_def)
  ultimately show ?thesis using inv(1) by (simp add: world_inv_def e)
qed

lemma lock_inv_sole:
  "lock_inv w \<Longrightarrow> holds_lock (w_ops w i) \<Longrightarrow> holds_lock (w_ops w j) \<Longrightarrow> j = i"
  by (auto simp: lock_inv_def)

lemma alist_put_has: "(k, v) \<in> set (alist_put k v l)"
  by (induction l) auto

lemma alist_put_member: "(k, v) \<in> set (alist_put k' v' l) \<Longrightarrow> k = k' \<or> (k, v) \<in> set l"
  by (induction l) (auto split: if_splits)

lemma discreet_sent_metadata:
  assumes "discreet (op_method op) (op_metadata op)"
  shows "discreet (op_method op) (sent_metadata c op)"
proof -
  have "(k, v) \<in> set (op_metadata op)" if "(k, v) \<in> set (sent_metadata c op)" "secret_header k" for k v
  proof -
    have "k \<noteq> ''x-override-device-id''" using that(2) by (auto simp: secret_header_def)
    with that(1) show ?thesis
      by (auto simp: sent_metadata_def dest: alist_put_member split: if_split_asm)
  qed
  with assms show ?thesis unfolding discreet_def by blast
qed

lemma world_inv_send:
  assumes "world_inv w" "w_ops w i = Sleeping op" "serial_next (w_client w) \<le> w_now w"
  shows "world_inv (send_op i op w)"
proof -
  note inv = world_inv_parts [OF assms(1)]
  have op: "op_of (w_ops w i) = Some op" using assms(2) by simp
  have "permit_inv (send_op i op w)"
    using permit_inv_status [OF inv(3), where st = "InFlight op (override_sent (w_client w) op)" and i = i
        and c = "(w_client w)\<lparr>serial_next := w_now w + minimum_interval (options (w_client w))\<rparr>"
        and l = "w_lock w"] assms(2)
    by (simp add: send_op_def permit_inv_def)
  moreover have "lock_inv (send_op i op w)"
  proof -
    have "holds_lock (w_ops w i)" using assms(2) by simp
    with inv(2) show ?thesis by (simp add: send_op_def lock_inv_def)
  qed
  moreover have "ops_inv (send_op i op w)"
    using inv(5) op discreet_sent_metadata by (auto simp: send_op_def ops_inv_def)
  moreover have "slot_inv (send_op i op w)"
    using inv(4) assms(3) by (force simp: send_op_def slot_inv_def)
  moreover have "sleep_inv (send_op i op w)"
    using inv(6) by (auto simp: send_op_def sleep_inv_def)
  ultimately show ?thesis using inv(1) by (simp add: world_inv_def send_op_def)
qed

text \<open>While an answer is being absorbed nobody sleeps, so a new block invalidates no check.\<close>

lemma world_inv_lone_client_step:
  assumes "world_inv w" "\<And>j op. w_ops w j \<noteq> Sleeping op"
    and "client_wf c" "permits c = permits (w_client w)" "serial_next c = serial_next (w_client w)"
    and "options c = options (w_client w)" "issued c = issued (w_client w)"
  shows "world_inv (w\<lparr>w_client := c\<rparr>)"
  using assms unfolding world_inv_def world_inv_defs by simp

lemma world_inv_respond:
  assumes "world_inv w" "w_ops w i = InFlight op ov"
  shows "world_inv (respond_op i op ov can result w)"
proof -
  note inv = world_inv_parts [OF assms(1)]
  obtain r c where r: "absorb_result op ov can result (w_client w) = (r, c)" by fastforce
  then have c: "c = snd (absorb_result op ov can result (w_client w))" by simp
  have lone: "w_ops w j \<noteq> Sleeping op'" for j op'
  proof
    assume s: "w_ops w j = Sleeping op'"
    then have "j = i" using lock_inv_sole [OF inv(2), of i j] assms(2) by simp
    with s assms(2) show False by simp
  qed
  have w': "world_inv (w\<lparr>w_client := c\<rparr>)"
    by (rule world_inv_lone_client_step [OF assms(1) lone]) (simp_all add: c absorb_result_wf inv(1))
  show ?thesis
  proof (cases r)
    case (Inl e)
    have "admitted (w_ops (w\<lparr>w_client := c\<rparr>) i)" using assms(2) by simp
    from world_inv_end_op [OF w' this] Inl r show ?thesis by (simp add: respond_op_def)
  next
    case (Inr response)
    have "world_inv ((w\<lparr>w_client := c\<rparr>)\<lparr>w_ops := (w_ops (w\<lparr>w_client := c\<rparr>))(i := Checked op response)\<rparr>)"
      using assms(2) by (intro world_inv_set_status [OF w']) simp_all
    with Inr r show ?thesis by (simp add: respond_op_def)
  qed
qed

lemma world_inv_finish:
  assumes "world_inv w" "w_ops w i = Checked op resp" "g \<notin> set (issued (w_client w))"
  shows "world_inv (finish_op lib codec can g f1 f2 i op resp w)"
proof -
  obtain r c where r: "run_finish lib codec can g f1 f2 op resp (w_client w) = (r, c)" by fastforce
  have "client_step_ok (w_client w) c"
    using run_finish_cases [OF r] client_step_ok_install assms(3) world_inv_parts(1) [OF assms(1)]
    by auto
  then have w': "world_inv (w\<lparr>w_client := c\<rparr>)" by (rule world_inv_client_step [OF assms(1)])
  have "admitted (w_ops (w\<lparr>w_client := c\<rparr>) i)" using assms(2) by simp
  from world_inv_end_op [OF w' this] r show ?thesis by (simp add: finish_op_def)
qed

text \<open>Every operation the client builds belongs to its current session and is discreet.\<close>

lemma metadata_discreet:
  assumes "metadata lib cfg cr rid anon = Inr md" "m_anonymous m \<longrightarrow> anon \<or> cr = None"
  shows "discreet m md"
  unfolding discreet_def
proof (intro impI allI)
  fix k v
  assume a: "m_anonymous m" "(k, v) \<in> set md" "secret_header k"
  with assms(2) have "anon \<or> cr = None" by simp
  with assms(1) have "fst ` set md = {''x-request-id'', ''x-platform'', ''x-client-version''}"
    by (metis metadata_None_keys metadata_anonymous_keys)
  moreover have "k \<in> fst ` set md" using a(2) by force
  ultimately show "is_login_method m \<and> k = ''x-player-bid''"
    using a(3) by (auto simp: secret_header_def)
qed

lemma query_operation_Inr:
  assumes "query_operation lib rk gen q rid c = Inr op"
  shows "client_generation c = gen \<and> op_session op = gen \<and> op_finish op = FinishQuery
    \<and> m_name (op_method op) = variant_name q
    \<and> m_anonymous (op_method op) = m_anonymous (query_method q)
    \<and> metadata lib (session_config_of c) (s_credentials (current_session c)) rid
        (m_anonymous (op_method op)) = Inr (op_metadata op)"
  using assms
  by (auto simp: query_operation_def result_simps session_for_Inr client_generation_def session_config_of_def
      dest: method_for_region_name split: if_split_asm)

lemma version_operation_Inr:
  assumes "version_operation lib gen cand rid c = Inr op"
  shows "client_generation c = gen \<and> op_session op = gen
    \<and> (\<exists>presented. op_finish op = FinishVersions presented
         \<and> metadata lib presented None rid True = Inr (op_metadata op)
         \<and> presented = (case cand of None \<Rightarrow> session_config_of c
             | Some v \<Rightarrow> (session_config_of c)\<lparr>client_version := v\<rparr>))"
  using assms unfolding session_config_of_def
  by (auto simp: version_operation_def result_simps session_for_Inr client_generation_def Let_def)

lemma sdk_operation_Inr:
  assumes "sdk_operation lib gen sdk ctx m rid c = Inr op"
  shows "client_generation c = gen \<and> op_session op = gen \<and> op_method op = m
    \<and> (\<exists>req. build_request lib (session_config_of c) sdk ctx m rid = Inr (req, op_metadata op))"
  using assms
  by (auto simp: sdk_operation_def result_simps session_for_Inr client_generation_def session_config_of_def)

lemma register_operation_Inr:
  assumes "register_operation lib gen f1 f2 rid c = Inr op"
  shows "client_generation c = gen \<and> op_session op = gen \<and> op_method op = REGISTER
    \<and> op_finish op = FinishRegister \<and> region (session_config_of c) = ''jp''
    \<and> s_credentials (current_session c) = None
    \<and> metadata lib (session_config_of c) None rid True = Inr (op_metadata op)"
  using assms
  by (auto simp: register_operation_def result_simps session_for_Inr client_generation_def
      session_config_of_def split: if_split_asm)

lemma self_data_operation_Inr:
  assumes "self_data_operation lib rid c = Inr op"
  shows "op_session op = client_generation c \<and> \<not> m_anonymous (op_method op) \<and> op_finish op = FinishQuery"
  using assms
  by (auto simp: self_data_operation_def result_simps session_for_Inr split: if_split_asm)

lemma built_operation_session:
  "built_operation lib c op \<Longrightarrow> op_session op = client_generation c"
  unfolding built_operation_def
  by (auto dest!: query_operation_Inr version_operation_Inr sdk_operation_Inr register_operation_Inr
      self_data_operation_Inr)

lemma sdk_metadata_discreet:
  assumes "build_request lib cfg sdk ctx m rid = Inr (req, md)" "is_login_method m"
  shows "discreet m md"
  unfolding discreet_def
proof (intro impI allI)
  fix k v
  assume a: "(k, v) \<in> set md" "secret_header k"
  then have "k \<in> fst ` set md" by force
  then have "k \<in> {''x-request-id'', ''x-platform'', ''x-player-bid'', ''x-client-version''}"
    using build_request_headers [OF assms(1)] by auto
  with a(2) assms(2) show "is_login_method m \<and> k = ''x-player-bid''"
    by (auto simp: secret_header_def)
qed

lemma discreet_authenticated: "\<not> m_anonymous m \<Longrightarrow> discreet m md"
  by (simp add: discreet_def)

lemma built_operation_discreet:
  assumes "built_operation lib c op"
  shows "discreet (op_method op) (op_metadata op)"
  using assms unfolding built_operation_def
  by (auto dest!: query_operation_Inr version_operation_Inr sdk_operation_Inr register_operation_Inr
      self_data_operation_Inr intro: metadata_discreet sdk_metadata_discreet discreet_authenticated)

lemma world_inv_build:
  assumes "world_inv w" "w_ops w i = Absent" "built_operation lib (w_client w) op"
  shows "world_inv (w\<lparr>w_ops := (w_ops w)(i := Built op)\<rparr>)"
proof -
  note inv = world_inv_parts [OF assms(1)]
  have unlocked: "\<not> holds_lock (w_ops w i)" using assms(2) by simp
  have "op_session op \<in> set (issued (w_client w))"
    using built_operation_session [OF assms(3)] client_wf_generation [OF inv(1)] inv(1)
    by (simp add: client_wf_def)
  then have "ops_inv (w\<lparr>w_ops := (w_ops w)(i := Built op)\<rparr>)"
    using inv(5) built_operation_discreet [OF assms(3)] by (auto simp: ops_inv_def)
  moreover have "permit_inv (w\<lparr>w_ops := (w_ops w)(i := Built op)\<rparr>)"
    using permit_inv_status [OF inv(3), where st = "Built op" and i = i and c = "w_client w"
        and l = "w_lock w" and t = "w_sent w"] assms(2) by (simp add: permit_inv_def)
  moreover have "lock_inv (w\<lparr>w_ops := (w_ops w)(i := Built op)\<rparr>)"
    using inv(2) unlocked by (auto simp: lock_inv_def)
  ultimately show ?thesis
    using inv(1,4,6) by (auto simp: world_inv_def slot_inv_def sleep_inv_def)
qed

lemma world_inv_step:
  assumes "world_step lib codec w w'" "world_inv w"
  shows "world_inv w'"
  using assms(1)
proof cases
  case (build i op)
  then show ?thesis using world_inv_build [OF assms(2)] by simp
next
  case (admit i op)
  then show ?thesis using world_inv_admit [OF assms(2)] by simp
next
  case (acquire i op)
  then show ?thesis using world_inv_acquire [OF assms(2)] by simp
next
  case (send i op)
  then show ?thesis using world_inv_send [OF assms(2)] by simp
next
  case (respond i op override cancelled result)
  then show ?thesis using world_inv_respond [OF assms(2)] by simp
next
  case (finish i op response g cancelled f1 f2)
  then show ?thesis using world_inv_finish [OF assms(2)] by simp
next
  case (abort i op override cancelled timed_out k)
  then have "admitted (w_ops w i)" by auto
  with abort show ?thesis using world_inv_end_op [OF assms(2)] by simp
next
  case (replace g connect cfg provider res c)
  then have "client_step_ok (w_client w) c"
    using replace_session_cases client_step_ok_install world_inv_parts(1) [OF assms(2)]
    by (metis client_step_ok_refl)
  with replace show ?thesis using world_inv_client_step [OF assms(2)] by simp
next
  case (import_creds g gen provider' res c)
  then have "client_step_ok (w_client w) c"
    using import_credentials_cases client_step_ok_install world_inv_parts(1) [OF assms(2)]
    by (metis client_step_ok_refl)
  with import_creds show ?thesis using world_inv_client_step [OF assms(2)] by simp
next
  case (tick t)
  then show ?thesis using assms(2) by (simp add: world_inv_def world_inv_defs)
qed

definition fresh_client :: "client \<Rightarrow> bool" where
  "fresh_client c \<longleftrightarrow> client_wf c \<and> permits c = queue_capacity (options c) + 1"

lemma with_transport_fresh: "with_transport lib cfg p opts t g now = Inr c \<Longrightarrow> fresh_client c"
  by (auto simp: with_transport_def fresh_client_def client_wf_def result_simps dest!: make_session_Inr
      split: if_split_asm)

lemma client_new_fresh: "client_new lib connect cfg p opts g now = Inr c \<Longrightarrow> fresh_client c"
  by (auto simp: client_new_def result_simps dest: with_transport_fresh)

lemma world_inv_start: "fresh_client c \<Longrightarrow> world_inv (start_world c now)"
  by (simp add: fresh_client_def world_inv_def world_inv_defs start_world_def)

theorem reachable_inv: "reachable lib codec c w \<Longrightarrow> fresh_client c \<Longrightarrow> world_inv w"
  by (induction rule: reachable.induct) (auto intro: world_inv_start world_inv_step)

lemma world_step_options: "world_step lib codec w w' \<Longrightarrow> options (w_client w') = options (w_client w)"
proof (induction rule: world_step.induct)
  case (acquire w i op)
  then show ?case by (simp add: acquire_op_def end_op_def split: option.splits)
next
  case (respond w i op ov can res)
  obtain r c where r: "absorb_result op ov can res (w_client w) = (r, c)" by fastforce
  then have "options c = options (w_client w)"
    by (metis absorb_result_frame(5) snd_conv)
  with r show ?case by (simp add: respond_op_def end_op_def split: sum.splits)
next
  case (finish w i op resp g can f1 f2)
  obtain r c where r: "run_finish lib codec can g f1 f2 op resp (w_client w) = (r, c)" by fastforce
  with run_finish_cases [OF r] show ?case by (auto simp: finish_op_def end_op_def)
next
  case (replace g w connect cfg provider res c)
  then show ?case by (auto dest!: replace_session_cases)
next
  case (import_creds g w gen provider res c)
  then show ?case by (auto dest!: import_credentials_cases)
qed (simp_all add: admit_op_def send_op_def end_op_def)

lemma reachable_options: "reachable lib codec c w \<Longrightarrow> options (w_client w) = options c"
  by (induction rule: reachable.induct) (simp_all add: start_world_def world_step_options)

section \<open>What one step may change of an issued session\<close>

text \<open>Everything but the cancellation flag, the block and the override marker is immutable.\<close>

definition session_kept :: "session \<Rightarrow> session \<Rightarrow> bool" where
  "session_kept s s' \<longleftrightarrow>
     s_generation s' = s_generation s \<and> s_config s' = s_config s \<and> s_credentials s' = s_credentials s
     \<and> s_transport s' = s_transport s \<and> (s_cancelled s \<longrightarrow> s_cancelled s')
     \<and> (s_blocked s = Some Version \<or> s_blocked s = Some DeviceConflict \<longrightarrow> s_blocked s' = s_blocked s)
     \<and> (s_jp_override_pending s' \<longrightarrow> s_jp_override_pending s)"

definition client_kept :: "client \<Rightarrow> client \<Rightarrow> bool" where
  "client_kept c c' \<longleftrightarrow>
     (\<forall>g\<in>set (issued c). session_kept (sessions c g) (sessions c' g))
     \<and> (current c' \<noteq> current c \<longrightarrow>
          current c' \<notin> set (issued c) \<and> s_cancelled (sessions c' (current c)))"

lemma session_kept_refl [simp]: "session_kept s s"
  by (simp add: session_kept_def)

lemma session_kept_simps [simp]:
  "session_kept s (s\<lparr>s_cancelled := True\<rparr>)"
  "session_kept s (s\<lparr>s_jp_override_pending := False\<rparr>)"
  "session_kept s (note_failure op e s)"
  by (auto simp: session_kept_def note_failure_keeps_block)

lemma client_kept_refl [simp]: "client_kept c c"
  by (simp add: client_kept_def)

lemma client_kept_frame [simp]:
  "client_kept c (c\<lparr>permits := n\<rparr>)" "client_kept c (c\<lparr>serial_next := n\<rparr>)"
  "client_kept c (c'\<lparr>permits := n\<rparr>) = client_kept c c'"
  by (simp_all add: client_kept_def)

lemma client_kept_update:
  "(\<And>s. session_kept s (f s)) \<Longrightarrow> client_kept c (update_session g f c)"
  by (simp add: client_kept_def)

lemma client_kept_install:
  assumes "client_wf c" "s_generation s \<notin> set (issued c)"
  shows "client_kept c (install s c)"
proof -
  have other: "g \<noteq> s_generation s" if "g \<in> set (issued c)" for g using that assms(2) by auto
  have "current c \<in> set (issued c)" using assms(1) by (simp add: client_wf_def)
  then show ?thesis
    using other assms(2) by (auto simp: client_kept_def install_other_session)
qed

lemma absorb_result_kept: "client_kept c (snd (absorb_result op ov can r c))"
  by (auto simp: absorb_result_def Let_def intro!: client_kept_update split: sum.splits)

lemma world_step_kept:
  assumes "world_step lib codec w w'" "client_wf (w_client w)"
  shows "client_kept (w_client w) (w_client w')"
  using assms
proof (induction rule: world_step.induct)
  case (acquire w i op)
  then show ?case by (simp add: acquire_op_def end_op_def split: option.splits)
next
  case (respond w i op ov can res)
  obtain r c where r: "absorb_result op ov can res (w_client w) = (r, c)" by fastforce
  then have "client_kept (w_client w) c" using absorb_result_kept by (metis snd_conv)
  with r show ?case by (simp add: respond_op_def end_op_def split: sum.splits)
next
  case (finish w i op resp g can f1 f2)
  obtain r c where r: "run_finish lib codec can g f1 f2 op resp (w_client w) = (r, c)" by fastforce
  have "client_kept (w_client w) c"
    using run_finish_cases [OF r] client_kept_install finish by auto
  with r show ?case by (simp add: finish_op_def end_op_def)
next
  case (replace g w connect cfg provider res c)
  then show ?case using replace_session_cases client_kept_install by fastforce
next
  case (import_creds g w gen provider res c)
  then show ?case using import_credentials_cases client_kept_install by fastforce
qed (simp_all add: admit_op_def send_op_def end_op_def)

section \<open>A sample run\<close>

definition sample_session :: session where
  "sample_session =
     \<lparr>s_generation = 0, s_config = sample_config, s_credentials = Some sample_credentials,
      s_transport = 0, s_cancelled = False, s_blocked = None, s_master_mismatch = False,
      s_jp_override_pending = False\<rparr>"

definition sample_client :: client where
  "sample_client =
     \<lparr>sessions = (\<lambda>_. sample_session), issued = [0], current = 0, serial_next = 0, permits = 33,
      options = default_client_options\<rparr>"

definition sample_codec :: "unit codec" where
  "sample_codec =
     \<lparr>dec_version = (\<lambda>_. Some \<lparr>vr_version = ''m2'', vr_resource_version = ''r2''\<rparr>),
      dec_pre_login = (\<lambda>_. Some True), dec_login = (\<lambda>_. None), dec_register = (\<lambda>_. None),
      parse_asset = (\<lambda>_. None)\<rparr>"

lemmas sample_client_defs = sample_client_def sample_session_def default_client_options_def

lemma sample_client_fresh: "fresh_client sample_client"
  by (simp add: fresh_client_def client_wf_def sample_client_defs)

lemma sample_metadata: "\<exists>m. metadata sample_library sample_config (Some sample_credentials) ''id'' False = Inr m"
  by (simp add: metadata_def sample_session_defs meta_insert_def optional_pair_def byte_def)

lemma sample_operation:
  "\<exists>op. query_operation sample_library (\<lambda>_ _ _. True) 0 Whoami ''id'' sample_client = Inr op"
proof -
  have r: "region sample_config = ''en''" by (simp add: sample_config_def)
  have a: "\<not> m_anonymous (query_method Whoami)" by (simp add: query_method_anonymous)
  with sample_metadata r show ?thesis
    by (auto simp: query_operation_def session_for_def current_session_def sample_client_def
        sample_session_def method_for_region_def query_validate_def)
qed

text \<open>Any operation the sample client builds can be admitted and put on the wire.\<close>

lemma sample_run:
  assumes "built_operation sample_library sample_client op" "blocked_error sample_client op = None"
  obtains w :: "'m world" where "reachable sample_library codec sample_client w"
    "w_client w = sample_client\<lparr>permits := 32\<rparr>" "w_sent w = []"
    "world_step sample_library codec w (send_op 0 op w)"
    "reachable sample_library codec sample_client (send_op 0 op w)"
proof -
  let ?w0 = "start_world sample_client 0 :: 'm world"
  let ?w1 = "?w0\<lparr>w_ops := (\<lambda>_. Absent)(0 := Built op)\<rparr>"
  let ?w2 = "admit_op 0 op ?w1"
  let ?w3 = "acquire_op 0 op ?w2"
  have "reachable sample_library codec sample_client ?w0" by (rule reachable.start)
  moreover have "world_step sample_library codec ?w0 ?w1"
    using world_step.build [of ?w0 0 sample_library op codec] assms(1) by (simp add: start_world_def)
  ultimately have "reachable sample_library codec sample_client ?w1" by (rule reachable.step)
  moreover have "world_step sample_library codec ?w1 ?w2" by (rule world_step.admit) simp
  ultimately have "reachable sample_library codec sample_client ?w2" by (rule reachable.step)
  moreover have "world_step sample_library codec ?w2 ?w3"
    by (rule world_step.acquire) (simp_all add: admit_op_def start_world_def sample_client_def)
  ultimately have r: "reachable sample_library codec sample_client ?w3" by (rule reachable.step)
  have w3: "?w3 = \<lparr>w_client = sample_client\<lparr>permits := 32\<rparr>, w_ops = (\<lambda>_. Absent)(0 := Sleeping op),
      w_lock = Some 0, w_now = 0, w_sent = []\<rparr>"
    using assms(2) by (simp add: acquire_op_def admit_op_def start_world_def sample_client_def blocked_error_def)
  have s: "world_step sample_library codec ?w3 (send_op 0 op ?w3)"
    unfolding w3 by (rule world_step.send) (simp_all add: sample_client_def)
  show ?thesis
    by (rule that [OF r _ _ s reachable.step [OF r s]]) (simp_all add: w3)
qed

lemma sample_query_built:
  obtains op where "built_operation sample_library sample_client op" "blocked_error sample_client op = None"
    "\<not> m_anonymous (op_method op)"
proof -
  obtain op where q: "query_operation sample_library (\<lambda>_ _ _. True) 0 Whoami ''id'' sample_client = Inr op"
    using sample_operation by blast
  show ?thesis
  proof
    show "built_operation sample_library sample_client op" unfolding built_operation_def using q by blast
    show "blocked_error sample_client op = None" by (simp add: blocked_error_def sample_client_defs)
    show "\<not> m_anonymous (op_method op)"
      using query_operation_Inr [OF q] by (simp add: query_method_anonymous)
  qed
qed

lemma sample_probe_built:
  obtains op v where "built_operation sample_library sample_client op" "blocked_error sample_client op = None"
    "op_method op = PRE_LOGIN" "(''x-player-bid'', v) \<in> set (op_metadata op)"
proof -
  have "\<exists>req m. build_request sample_library sample_config sample_sdk sample_context PRE_LOGIN ''id''
      = Inr (req, m)"
    by (simp add: build_request_def check_binding_def origin_def metadata_def meta_insert_def
        sample_sdk_def sample_context_def sample_session_defs byte_def starts_with_def Let_def)
  then obtain req m where m: "build_request sample_library sample_config sample_sdk sample_context PRE_LOGIN ''id''
      = Inr (req, m)" by blast
  let ?op = "\<lparr>op_session = 0, op_method = PRE_LOGIN, op_metadata = m, op_finish = FinishPreLogin\<rparr>"
  have "sdk_operation sample_library 0 sample_sdk sample_context PRE_LOGIN ''id'' sample_client = Inr ?op"
    using m by (simp add: sdk_operation_def session_for_def current_session_def sample_client_def sample_session_def)
  then have b: "built_operation sample_library sample_client ?op"
    unfolding built_operation_def is_login_method_def by blast
  have v: "\<exists>v. (''x-player-bid'', v) \<in> set m"
    using build_request_Inr [OF m] by (metis alist_put_has)
  then show ?thesis using that [OF b] by (auto simp: blocked_error_def sample_client_defs)
qed

lemma sent_cons_absurd [simp]: "xs \<noteq> x # xs" "x # xs \<noteq> xs"
  by (induction xs) auto

lemma end_op_sent [simp]: "w_sent (end_op i r w) = w_sent w"
  by (simp add: end_op_def)

lemma send_only_from_sleep:
  assumes "world_step lib codec w w'" "w_sent w' = s # w_sent w"
  shows "\<exists>i op. w_ops w i = Sleeping op \<and> sent_session s = op_session op \<and> sent_method s = op_method op"
  using assms
proof cases
  case (send i op)
  with assms(2) show ?thesis by (intro exI [of _ i] exI [of _ op]) (auto simp: send_op_def)
qed (use assms(2) in \<open>auto simp: admit_op_def acquire_op_def respond_op_def finish_op_def
       split: if_split_asm option.splits sum.splits prod.splits\<close>)

section \<open>Properties\<close>

text \<open>
  C1: upstream calls are serialised and spaced.  In every reachable interleaving at
  most one operation is past the serial lock, and any two calls put on the wire are at least
  the minimum interval apart, also across session replacements and failures.
\<close>

theorem upstream_calls_are_serial_and_spaced:
  assumes "reachable lib codec c w" "fresh_client c"
  shows "(\<forall>i j. holds_lock (w_ops w i) \<longrightarrow> holds_lock (w_ops w j) \<longrightarrow> i = j)
    \<and> sorted_wrt (\<lambda>a b. sent_at b + minimum_interval (options c) \<le> sent_at a) (w_sent w)"
proof -
  have inv: "world_inv w" using assms by (rule reachable_inv)
  from world_inv_parts(4) [OF inv] reachable_options [OF assms(1)] lock_inv_sole [OF world_inv_parts(2) [OF inv]]
  show ?thesis by (auto simp: slot_inv_def)
qed

theorem upstream_calls_are_serial_and_spaced_witness:
  "\<exists>w :: unit world. reachable sample_library sample_codec sample_client w \<and> w_sent w \<noteq> []
     \<and> sorted_wrt (\<lambda>a b. sent_at b + 1000 \<le> sent_at a) (w_sent w)"
proof -
  obtain op where op: "built_operation sample_library sample_client op" "blocked_error sample_client op = None"
    using sample_query_built by blast
  obtain w :: "unit world" where r: "reachable sample_library sample_codec sample_client (send_op 0 op w)"
    (is "reachable _ _ _ ?w") using sample_run [OF op, of sample_codec] by blast
  have "sorted_wrt (\<lambda>a b. sent_at b + 1000 \<le> sent_at a) (w_sent ?w)"
    using upstream_calls_are_serial_and_spaced [OF r sample_client_fresh]
    by (simp add: sample_client_def default_client_options_def)
  moreover have "w_sent ?w \<noteq> []" by (simp add: send_op_def)
  ultimately show ?thesis using r by blast
qed

text \<open>
  C12: admission is bounded.  At most \<open>queue_capacity + 1\<close> operations are admitted at
  once, free permits and admitted operations always add up to that number, and a further
  operation is refused at once with \<open>QueueFull\<close>, changing nothing else.
\<close>

theorem admission_is_bounded:
  assumes "reachable lib codec c w" "fresh_client c"
  shows "card {i. admitted (w_ops w i)} \<le> queue_capacity (options c) + 1
    \<and> permits (w_client w) + card {i. admitted (w_ops w i)} = queue_capacity (options c) + 1
    \<and> (card {i. admitted (w_ops w i)} = queue_capacity (options c) + 1 \<longrightarrow>
        admit_op i op w = w\<lparr>w_ops := (w_ops w)(i := Finished (fail QueueFull))\<rparr>)"
proof -
  have "permit_inv w" using reachable_inv [OF assms] by (rule world_inv_parts(3))
  then have "permits (w_client w) + card {i. admitted (w_ops w i)} = queue_capacity (options c) + 1"
    using reachable_options [OF assms(1)] by (simp add: permit_inv_def)
  then show ?thesis by (simp add: admit_op_def)
qed

theorem admission_is_bounded_witness:
  "\<exists>w :: unit world. reachable sample_library sample_codec sample_client w
     \<and> permits (w_client w) + card {i. admitted (w_ops w i)} = 33"
proof -
  obtain op where op: "built_operation sample_library sample_client op" "blocked_error sample_client op = None"
    using sample_query_built by blast
  obtain w :: "unit world" where r: "reachable sample_library sample_codec sample_client (send_op 0 op w)"
    (is "reachable _ _ _ ?w") using sample_run [OF op, of sample_codec] by blast
  from admission_is_bounded [OF r sample_client_fresh] r show ?thesis
    by (auto simp: sample_client_def default_client_options_def)
qed

text \<open>
  C2: anonymous calls carry no account secret.  Of everything ever put on the wire,
  only non-anonymous methods have a player id, credential or device header; an anonymous
  call has at most the BID, and only if it is one of the two SDK login methods.
\<close>

theorem anonymous_calls_carry_no_account_secret:
  assumes "reachable lib codec c w" "fresh_client c" "s \<in> set (w_sent w)"
    and "m_anonymous (sent_method s)" "(k, v) \<in> set (sent_headers s)" "secret_header k"
  shows "is_login_method (sent_method s) \<and> k = ''x-player-bid''"
proof -
  have "ops_inv w" using reachable_inv [OF assms(1,2)] by (rule world_inv_parts(5))
  with assms(3) have "discreet (sent_method s) (sent_headers s)" by (simp add: ops_inv_def)
  with assms(4-6) show ?thesis unfolding discreet_def by blast
qed

theorem anonymous_calls_carry_no_account_secret_witness:
  "\<exists>(w :: unit world) s v. reachable sample_library sample_codec sample_client w \<and> s \<in> set (w_sent w)
     \<and> m_anonymous (sent_method s) \<and> (''x-player-bid'', v) \<in> set (sent_headers s)
     \<and> is_login_method (sent_method s)"
proof -
  obtain op v where op: "built_operation sample_library sample_client op" "blocked_error sample_client op = None"
    and m: "op_method op = PRE_LOGIN" and v: "(''x-player-bid'', v) \<in> set (op_metadata op)"
    using sample_probe_built by blast
  obtain w :: "unit world" where r: "reachable sample_library sample_codec sample_client (send_op 0 op w)"
    using sample_run [OF op, of sample_codec] by blast
  let ?s = "hd (w_sent (send_op 0 op w))"
  have s: "?s \<in> set (w_sent (send_op 0 op w))" "m_anonymous (sent_method ?s)"
    "(''x-player-bid'', v) \<in> set (sent_headers ?s)" "secret_header ''x-player-bid''"
    using m v by (simp_all add: send_op_def sent_metadata_def override_sent_def Let_def secret_header_def)
  from anonymous_calls_carry_no_account_secret [OF r sample_client_fresh s] r s show ?thesis by blast
qed

text \<open>
  C3: a blocked session sends nothing it must not.  Whenever a step puts a call on
  the wire, the call's session is not blocked, or the method is anonymous; a login or
  registration is not sent while a version or device-conflict block stands.
\<close>

theorem blocked_session_sends_nothing_authenticated:
  assumes "reachable lib codec c w" "fresh_client c" "world_step lib codec w w'"
    and "w_sent w' = s # w_sent w"
  shows "s_blocked (sessions (w_client w) (sent_session s)) = None
    \<or> m_anonymous (sent_method s)
      \<and> (is_login_method (sent_method s) \<or> sent_method s = REGISTER \<longrightarrow>
           s_blocked (sessions (w_client w) (sent_session s)) \<noteq> Some Version
           \<and> s_blocked (sessions (w_client w) (sent_session s)) \<noteq> Some DeviceConflict)"
proof -
  obtain i op where op: "w_ops w i = Sleeping op" "sent_session s = op_session op" "sent_method s = op_method op"
    using send_only_from_sleep [OF assms(3,4)] by blast
  have "sleep_inv w" using reachable_inv [OF assms(1,2)] by (rule world_inv_parts(6))
  with op(1) have "blocked_error (w_client w) op = None" by (simp add: sleep_inv_def)
  then show ?thesis by (auto simp: blocked_error_def op split: option.splits if_split_asm)
qed

theorem blocked_session_sends_nothing_authenticated_witness:
  "\<exists>(w :: unit world) w' s. world_step sample_library sample_codec w w' \<and> w_sent w' = s # w_sent w
     \<and> \<not> m_anonymous (sent_method s) \<and> s_blocked (sessions (w_client w) (sent_session s)) = None"
proof -
  obtain op where op: "built_operation sample_library sample_client op" "blocked_error sample_client op = None"
    and a: "\<not> m_anonymous (op_method op)"
    using sample_query_built by blast
  obtain w :: "unit world" where r: "reachable sample_library sample_codec sample_client w"
    and st: "world_step sample_library sample_codec w (send_op 0 op w)" using sample_run [OF op, of sample_codec] by blast
  let ?s = "hd (w_sent (send_op 0 op w))"
  have s: "w_sent (send_op 0 op w) = ?s # w_sent w" "\<not> m_anonymous (sent_method ?s)"
    using a by (simp_all add: send_op_def)
  from blocked_session_sends_nothing_authenticated [OF r sample_client_fresh st s(1)] st s show ?thesis
    by blast
qed

text \<open>
  C4: a session object never changes identity.  For every issued generation, a step
  keeps its configuration, credentials and transport, never revives a cancelled session, never
  weakens a version or device-conflict block and never re-arms the device override.  The
  current generation changes only to one never issued before, and the old one is cancelled.
\<close>

theorem issued_sessions_are_immutable:
  assumes "reachable lib codec c w" "fresh_client c" "world_step lib codec w w'"
    and "g \<in> set (issued (w_client w))"
  shows "session_kept (sessions (w_client w) g) (sessions (w_client w') g)
    \<and> (current (w_client w') \<noteq> current (w_client w) \<longrightarrow>
         current (w_client w') \<notin> set (issued (w_client w))
         \<and> s_cancelled (sessions (w_client w') (current (w_client w))))"
proof -
  have "client_kept (w_client w) (w_client w')"
    using world_step_kept [OF assms(3)] world_inv_parts(1) [OF reachable_inv [OF assms(1,2)]] by simp
  with assms(4) show ?thesis by (simp add: client_kept_def)
qed

theorem issued_sessions_are_immutable_witness:
  "\<exists>w w' :: unit world. world_step sample_library sample_codec w w' \<and> current (w_client w') = 1
     \<and> current (w_client w) = 0
     \<and> session_kept (sessions (w_client w) 0) (sessions (w_client w') 0)
     \<and> s_cancelled (sessions (w_client w') 0)"
proof -
  let ?w = "start_world sample_client 0 :: unit world"
  let ?c = "snd (replace_session sample_library (\<lambda>_. Some 1) sample_config None 1 sample_client)"
  let ?w' = "?w\<lparr>w_client := ?c\<rparr>"
  have f: "1 \<notin> set (issued (w_client ?w))" by (simp add: start_world_def sample_client_def)
  have c: "current ?c = 1"
    by (simp add: replace_session_def grpc_transport_new_def make_session_def config_validate_def
        config_rejected_def origin_def metadata_def meta_insert_def sample_session_defs byte_def
        starts_with_def Let_def)
  have st: "world_step sample_library sample_codec ?w ?w'"
    by (rule world_step.replace [OF f]) (simp add: start_world_def prod_eq_iff)
  have r: "reachable sample_library sample_codec sample_client ?w" by (rule reachable.start)
  have g: "0 \<in> set (issued (w_client ?w))" by (simp add: start_world_def sample_client_def)
  from issued_sessions_are_immutable [OF r sample_client_fresh st g] st c show ?thesis
    by (intro exI [of _ ?w] exI [of _ ?w']) (simp add: start_world_def sample_client_def)
qed

text \<open>
  an answer that outlived its session has no effect.  If the client's generation
  is no longer the operation's when its closure runs, the client is unchanged, and unless the
  closure failed on the response itself the result is \<open>SessionChanged\<close>; only plain queries and
  the SDK probe, which install nothing, still return their message.
\<close>

theorem stale_answer_installs_nothing:
  assumes "run_finish lib codec cancelled g f1 f2 op resp c = (res, c')"
    and "client_generation c \<noteq> op_session op"
  shows "c' = c \<and> ((\<exists>x. res = Inr x) \<longrightarrow> op_finish op = FinishQuery \<or> op_finish op = FinishPreLogin)"
proof
  from run_finish_cases [OF assms(1)] assms(2) show "c' = c" by (auto simp: client_generation_def)
  show "(\<exists>x. res = Inr x) \<longrightarrow> op_finish op = FinishQuery \<or> op_finish op = FinishPreLogin"
    using assms
    by (cases "op_finish op")
      (auto simp: run_finish_def finish_versions_def finish_login_def finish_register_def Let_def
        client_generation_def split: option.splits if_split_asm prod.splits sum.splits)
qed

theorem stale_answer_installs_nothing_witness:
  "\<exists>res. run_finish sample_library sample_codec False 1 (Inr ()) (\<lambda>_. Inr ())
      \<lparr>op_session = 7, op_method = query_method VersionQuery, op_metadata = [],
       op_finish = FinishVersions sample_config\<rparr>
      \<lparr>tr_message = (), tr_full_name = [], tr_asset_version = None\<rparr> sample_client = (res, sample_client)
    \<and> (\<nexists>x. res = Inr x)"
proof -
  let ?op = "\<lparr>op_session = 7, op_method = query_method VersionQuery, op_metadata = [],
       op_finish = FinishVersions sample_config\<rparr>"
  let ?r = "\<lparr>tr_message = (), tr_full_name = [], tr_asset_version = None\<rparr>"
  obtain res c' where r: "run_finish sample_library sample_codec False 1 (Inr ()) (\<lambda>_. Inr ()) ?op ?r sample_client
      = (res, c')" by fastforce
  have g: "client_generation sample_client \<noteq> op_session ?op"
    by (simp add: client_generation_def current_session_def sample_client_defs)
  from stale_answer_installs_nothing [OF r g] r show ?thesis by auto
qed

text \<open>
  a version check never changes who the session is.  When it installs a session,
  the credentials, the transport, the region and the origin are those of the session it
  replaced, the client version is the one presented, and a block survives except a version
  block that the check has answered: the client version changed, or the block was a master
  version mismatch.
\<close>

theorem version_check_keeps_identity:
  assumes "finish_versions codec presented op cancelled g r c = (Inr (VersionsChanged True), c')"
  shows "let s = current_session c; s' = current_session c' in
    s_generation s = op_session op \<and> s_generation s' = g \<and> c' = install s' c
    \<and> s_credentials s' = s_credentials s \<and> s_transport s' = s_transport s
    \<and> region (s_config s') = region (s_config s) \<and> config_origin (s_config s') = config_origin (s_config s)
    \<and> allowed_origins (s_config s') = allowed_origins (s_config s)
    \<and> client_version (s_config s') = client_version presented
    \<and> s_jp_override_pending s' = s_jp_override_pending s
    \<and> (s_blocked s' = s_blocked s
        \<or> s_blocked s = Some Version \<and> s_blocked s' = None
          \<and> (client_version (s_config s) \<noteq> client_version presented \<or> s_master_mismatch s))"
proof -
  from assms obtain master resource where
    "c' = install (versions_session presented master resource g (current_session c)) c"
    and "s_generation (current_session c) = op_session op"
    by (auto simp: finish_versions_def Let_def split: option.splits if_split_asm)
  then show ?thesis by (auto simp: Let_def versions_session_def)
qed

theorem version_check_keeps_identity_witness:
  "\<exists>c'. finish_versions sample_codec sample_config
      \<lparr>op_session = 0, op_method = query_method VersionQuery, op_metadata = [],
       op_finish = FinishVersions sample_config\<rparr> False 1
      \<lparr>tr_message = (), tr_full_name = [], tr_asset_version = None\<rparr> sample_client
      = (Inr (VersionsChanged True), c')
    \<and> s_credentials (current_session c') = Some sample_credentials"
proof -
  let ?op = "\<lparr>op_session = 0, op_method = query_method VersionQuery, op_metadata = [],
       op_finish = FinishVersions sample_config\<rparr>"
  let ?r = "\<lparr>tr_message = (), tr_full_name = [], tr_asset_version = None\<rparr>"
  have "\<exists>c'. finish_versions sample_codec sample_config ?op False 1 ?r sample_client
      = (Inr (VersionsChanged True), c')"
    by (simp add: finish_versions_def sample_codec_def sample_client_defs sample_config_def Let_def
        current_session_def valid_revision_def version_char_def text_eval)
  then obtain c' where c: "finish_versions sample_codec sample_config ?op False 1 ?r sample_client
      = (Inr (VersionsChanged True), c')" by blast
  from version_check_keeps_identity [OF c] c show ?thesis
    by (auto simp: Let_def current_session_def sample_client_defs)
qed

end
