(* ===== verification/Grpc_Transport.thy ===== *)
theory Grpc_Transport
  imports Game_Client
begin

text \<open>
  The production transport (\<open>GrpcTransport\<close> of \<open>client/src/transport.rs\<close>): one unary call
  over a server stream, with the initial and the trailing metadata kept apart.  What the
  gRPC library reports at each suspension point is an argument, in the order of the calls.
\<close>

record 'm exchange =
  ex_ready :: bool
  ex_output_known :: bool
  ex_start :: "grpc_status + metadata_map"
  ex_first :: "grpc_status + 'm option"
  ex_second :: "grpc_status + 'm option"
  ex_trailers :: "grpc_status + metadata_map option"

definition from_status :: "metadata_map \<Rightarrow> grpc_status + 'a \<Rightarrow> 'a outcome" where
  "from_status initial r = (case r of Inl s \<Rightarrow> Inl (status_error s initial) | Inr x \<Rightarrow> Inr x)"

definition next_back :: "'a list \<Rightarrow> 'a option" where
  "next_back xs = (if xs = [] then None else Some (last xs))"

definition asset_header :: "metadata_map \<Rightarrow> metadata_map \<Rightarrow> string option" where
  "asset_header initial trailing =
     (case (case next_back (get_all ''x-asset-version'' trailing) of
              Some v \<Rightarrow> Some v
            | None \<Rightarrow> next_back (get_all ''x-asset-version'' initial)) of
        None \<Rightarrow> None
      | Some v \<Rightarrow>
          (case visible_text v of
             None \<Rightarrow> None
           | Some s \<Rightarrow> if length s \<le> 64 * 1024 then Some s else None))"

definition unwrap_or_default :: "metadata_map option \<Rightarrow> metadata_map" where
  "unwrap_or_default t = (case t of Some m \<Rightarrow> m | None \<Rightarrow> [])"

definition call_with_metadata :: "('m \<Rightarrow> string) \<Rightarrow> 'm exchange \<Rightarrow> 'm transport_response outcome" where
  "call_with_metadata full_name ex =
     (if \<not> ex_ready ex then fail Transport
      else if \<not> ex_output_known ex then fail Protocol
      else and_then (from_status [] (ex_start ex)) (\<lambda>initial.
        and_then (from_status initial (ex_first ex)) (\<lambda>message.
        and_then (from_status initial (ex_second ex)) (\<lambda>extra.
        if extra \<noteq> None then fail Protocol
        else and_then (from_status initial (ex_trailers ex)) (\<lambda>t.
          (let trailing = unwrap_or_default t in
           case from_metadata CodeOk initial trailing of
             Some e \<Rightarrow> Inl e
           | None \<Rightarrow>
               and_then (ok_or message (client_error_new Protocol)) (\<lambda>m.
                 Inr \<lparr>tr_message = m, tr_full_name = full_name m,
                      tr_asset_version = asset_header initial trailing\<rparr>)))))))"

text \<open>\<open>call\<close>: the message alone.\<close>

definition transport_call :: "('m \<Rightarrow> string) \<Rightarrow> 'm exchange \<Rightarrow> 'm outcome" where
  "transport_call full_name ex = and_then (call_with_metadata full_name ex) (\<lambda>r. Inr (tr_message r))"

section \<open>Facts\<close>

lemma from_status_Inr [simp]: "from_status i r = Inr x \<longleftrightarrow> r = Inr x"
  by (cases r) (simp_all add: from_status_def)

lemma from_status_error:
  "from_status i (Inl s) = Inl (status_error s i)"
  by (simp add: from_status_def)

lemma asset_header_bound: "asset_header i t = Some s \<Longrightarrow> length s \<le> 65536"
  by (auto simp: asset_header_def split: option.splits if_split_asm)

text \<open>
  an answer is accepted only when it is complete and clean.  A call succeeds
  exactly when the stream starts, yields one message and no second one, ends with trailers,
  and neither metadata map carries a visible business code, whatever the gRPC code said; the
  accepted response is that one message.
\<close>

theorem accepted_answer_is_complete_and_clean:
  "(call_with_metadata full_name ex = Inr r) \<longleftrightarrow>
     ex_ready ex \<and> ex_output_known ex \<and>
     (\<exists>initial m t. ex_start ex = Inr initial \<and> ex_first ex = Inr (Some m) \<and> ex_second ex = Inr None
        \<and> ex_trailers ex = Inr t \<and> error_codes initial = []
        \<and> error_codes (unwrap_or_default t) = []
        \<and> r = \<lparr>tr_message = m, tr_full_name = full_name m,
               tr_asset_version = asset_header initial (unwrap_or_default t)\<rparr>)"
  by (auto simp: call_with_metadata_def Let_def result_simps from_metadata_None split: option.splits)



end
