(* ===== verification/Query_Interface.thy ===== *)
theory Query_Interface
  imports Game_Client
begin

text \<open>
  The interface between the server's caches and pools and the clients they run on (the trait
  \<open>QueryClient\<close> of \<open>client/src/lib.rs\<close>): reading the generation and the local admission
  check.  The check may change the provider's own bookkeeping, hence the state it returns.
\<close>

locale query_client =
  fixes gen :: "'s \<Rightarrow> generation"
    and qerr :: "bool \<Rightarrow> 's \<Rightarrow> client_error option \<times> 's"
  assumes anonymous_admitted: "fst (qerr True s) = None"
    and check_keeps_generation: "gen (snd (qerr a s)) = gen s"
    and admission_is_silent: "fst (qerr a s) = None \<Longrightarrow> snd (qerr a s) = s"
    and refusal_persists: "fst (qerr a s) \<noteq> None \<Longrightarrow> fst (qerr a (snd (qerr a s))) \<noteq> None"
begin

lemma anonymous_silent: "snd (qerr True s) = s"
  by (rule admission_is_silent [OF anonymous_admitted])

lemma check_anonymous: "qerr True s = (None, s)"
  by (simp add: prod_eq_iff anonymous_admitted anonymous_silent)

lemma admitted_twice:
  "fst (qerr a s) = None \<Longrightarrow> qerr a (snd (qerr a s)) = qerr a s"
  by (simp add: admission_is_silent)

lemma admission_decided:
  "fst (qerr a (snd (qerr a s))) = None \<longleftrightarrow> fst (qerr a s) = None"
  using refusal_persists admission_is_silent by metis

end

text \<open>The game client keeps its contract; its check changes nothing at all.\<close>

definition client_check :: "bool \<Rightarrow> client \<Rightarrow> client_error option \<times> client" where
  "client_check anonymous c = (client_query_error anonymous c, c)"

interpretation game_client: query_client client_generation client_check
  by unfold_locales (auto simp: client_check_def client_query_error_def)

end
