(* ===== verification/Managed_Session.thy ===== *)
theory Managed_Session
  imports Query_Interface Version_Text
begin

text \<open>
  The managed client (\<open>server/src/managed.rs\<close> and \<open>managed/versions.rs\<close>): its lifecycle
  state, the observation of every protected result, the recovery worker, the version
  synchronisation and the reload.  Everything between two suspension points under the state's
  mutex is one function of the state; what the inner client, the clock and the loaders say at
  that moment is an argument.
\<close>

datatype phase =
    Unverified | Ready | Recovering | Recovered | ReauthenticationRequired
  | VersionBlockedPhase | DeviceConflictPhase | PersistenceFailed

record data_versions =
  dv_master :: string
  dv_resource :: string

record version_sync_status =
  vs_interval_seconds :: u64
  vs_current :: "data_versions option"
  vs_client_version :: string
  vs_follow :: bool
  vs_checks :: u64
  vs_updates :: u64
  vs_client_updates :: u64
  vs_last_checked_at :: "nat option"
  vs_last_error :: "error_kind option"

record managed_state =
  version_updating :: bool
  version_sync :: "version_sync_status option"
  phase :: phase
  attempts :: u64
  successes :: u64
  attempted :: "generation option"
  initial_attempted :: "(generation \<times> string option) option"
  version_rejected_attempt :: "generation option"
  last_attempt :: "nat option"
  last_error :: "error_kind option"

definition managed_new :: managed_state where
  "managed_new =
     \<lparr>version_updating = False, version_sync = None, phase = Unverified, attempts = 0,
      successes = 0, attempted = None, initial_attempted = None,
      version_rejected_attempt = None, last_attempt = None, last_error = None\<rparr>"

definition managed_ready :: "client_error option \<Rightarrow> managed_state \<Rightarrow> bool" where
  "managed_ready inner_error s \<longleftrightarrow> (phase s = Ready \<or> phase s = Recovered) \<and> inner_error = None"

text \<open>\<open>reload\<close>: \<open>replaced\<close> is the outcome of the caller's replacement, run under the lock.\<close>

definition reload :: "unit outcome \<Rightarrow> managed_state \<Rightarrow> unit outcome \<times> managed_state" where
  "reload replaced s =
     (if phase s = Recovering \<or> version_updating s then (fail QueueFull, s)
      else (case replaced of
              Inl e \<Rightarrow> (Inl e, s)
            | Inr _ \<Rightarrow>
                (Inr (), s\<lparr>phase := Unverified, attempted := None, initial_attempted := None,
                           version_rejected_attempt := None, last_attempt := None,
                           last_error := None\<rparr>)))"

text \<open>
  What the managed client is built with, as far as observing reads it: whether a recovery is
  configured, and whether there is an initial loader.
\<close>

record managed_options =
  has_recovery :: bool
  has_loader :: bool
  mo_cooldown :: nat

text \<open>The phase an error leads to, and whether the observation goes on to a recovery.\<close>

definition error_phase :: "error_kind \<Rightarrow> phase" where
  "error_phase k =
     (case k of
        Version \<Rightarrow> VersionBlockedPhase
      | DeviceConflict \<Rightarrow> DeviceConflictPhase
      | Authentication \<Rightarrow> ReauthenticationRequired
      | AuthenticationRequired \<Rightarrow> ReauthenticationRequired
      | _ \<Rightarrow> Unverified)"

text \<open>From the decision to recover to the spawned worker; \<open>Some initial\<close> is a spawn.\<close>

definition start_recovery ::
  "managed_options \<Rightarrow> generation \<Rightarrow> bool \<Rightarrow> (generation \<times> string option) option \<Rightarrow> nat \<Rightarrow>
     managed_state \<Rightarrow> managed_state \<times> bool option" where
  "start_recovery opts gen initial initial_revision now s =
     (if version_updating s then (s, None)
      else if \<not> (if initial then has_loader opts else has_recovery opts) then (s, None)
      else if \<not> initial \<and>
              (attempted s = Some gen
               \<or> (case last_attempt s of None \<Rightarrow> False | Some t \<Rightarrow> now - t < mo_cooldown opts))
      then (s, None)
      else
        (let s = (if initial then s\<lparr>initial_attempted := initial_revision\<rparr>
                  else s\<lparr>attempted := Some gen, last_attempt := Some now\<rparr>) in
         (s\<lparr>phase := Recovering, version_rejected_attempt := None, attempts := attempts s + 1\<rparr>,
          Some initial)))"

text \<open>
  \<open>observed\<close>: \<open>inner1\<close> and \<open>inner2\<close> are the inner generation before and after taking the
  lock, \<open>revision\<close> is what the initial loader's input revision is.
\<close>

definition observed ::
  "managed_options \<Rightarrow> generation \<Rightarrow> generation \<Rightarrow> bool \<Rightarrow> string option \<Rightarrow> nat \<Rightarrow>
     generation \<Rightarrow> bool \<Rightarrow> client_error option \<Rightarrow> managed_state \<Rightarrow> managed_state \<times> bool option" where
  "observed opts inner1 inner2 stopped revision now gen anonymous error s =
     (if anonymous \<or> inner1 \<noteq> gen \<or> stopped then (s, None)
      else if inner2 \<noteq> gen then (s, None)
      else if phase s = Recovering \<or> phase s = PersistenceFailed then (s, None)
      else
        (let initial = (case error of Some e \<Rightarrow> kind e = AuthenticationRequired | None \<Rightarrow> False);
             initial_revision = (if initial \<and> has_loader opts then Some (gen, revision) else None) in
         if initial_revision \<noteq> None \<and> initial_revision = initial_attempted s then (s, None)
         else (case error of
                 None \<Rightarrow> (s\<lparr>phase := Ready, last_error := None\<rparr>, None)
               | Some e \<Rightarrow>
                   (let s = s\<lparr>last_error := Some (kind e), phase := error_phase (kind e)\<rparr> in
                    if kind e \<noteq> Authentication \<and> kind e \<noteq> AuthenticationRequired then (s, None)
                    else start_recovery opts gen initial initial_revision now s))))"

definition client_update_required :: "client_error \<Rightarrow> bool" where
  "client_update_required e \<longleftrightarrow>
     kind e = Version \<and> effective_code (business_codes e) = Some ''CLIENT_UPDATE_REQUIRED''"

text \<open>The worker's result: stopping wins over the recovery, which must end in time.\<close>

definition worker_result :: "bool \<Rightarrow> bool \<Rightarrow> unit outcome \<Rightarrow> unit outcome" where
  "worker_result stopped timed_out recovered =
     (if stopped then fail Cancelled else if timed_out then fail Timeout else recovered)"

definition finish_worker ::
  "bool \<Rightarrow> generation \<Rightarrow> generation \<Rightarrow> unit outcome \<Rightarrow> managed_state \<Rightarrow> managed_state" where
  "finish_worker initial gen inner result s =
     (case result of
        Inr _ \<Rightarrow>
          s\<lparr>phase := (if initial then Unverified else Recovered), successes := successes s + 1,
            last_error := None\<rparr>
      | Inl e \<Rightarrow>
          s\<lparr>version_rejected_attempt :=
              (if inner = gen \<and> client_update_required e then Some gen else version_rejected_attempt s),
            phase :=
              (if inner \<noteq> gen then PersistenceFailed
               else (case kind e of
                       Version \<Rightarrow> VersionBlockedPhase
                     | DeviceConflict \<Rightarrow> DeviceConflictPhase
                     | InvalidConfig \<Rightarrow> if initial then ReauthenticationRequired else PersistenceFailed
                     | _ \<Rightarrow> ReauthenticationRequired)),
            last_error := Some (kind e)\<rparr>)"

text \<open>The two operations of the trait, over a state that pairs the inner client with ours.\<close>

record 's managed =
  inner_client :: 's
  managed_options_of :: managed_options
  managed_stopped :: bool
  managed_clock :: nat
  input_revision :: "string option"
  managed_state :: managed_state
  spawned :: "(generation \<times> bool) list"

definition note_spawn :: "generation \<Rightarrow> managed_state \<times> bool option \<Rightarrow> 's managed \<Rightarrow> 's managed" where
  "note_spawn gen r m =
     m\<lparr>managed_state := fst r,
       spawned := (case snd r of None \<Rightarrow> spawned m | Some i \<Rightarrow> (gen, i) # spawned m)\<rparr>"

definition managed_observe ::
  "('s \<Rightarrow> generation) \<Rightarrow> generation \<Rightarrow> bool \<Rightarrow> client_error option \<Rightarrow> 's managed \<Rightarrow> 's managed" where
  "managed_observe inner_gen gen anonymous error m =
     note_spawn gen
       (observed (managed_options_of m) (inner_gen (inner_client m)) (inner_gen (inner_client m))
          (managed_stopped m) (input_revision m) (managed_clock m) gen anonymous error (managed_state m)) m"

definition managed_generation :: "('s \<Rightarrow> generation) \<Rightarrow> 's managed \<Rightarrow> generation" where
  "managed_generation inner_gen m = inner_gen (inner_client m)"

definition managed_query_error ::
  "('s \<Rightarrow> generation) \<Rightarrow> (bool \<Rightarrow> 's \<Rightarrow> client_error option \<times> 's) \<Rightarrow> bool \<Rightarrow> 's managed \<Rightarrow>
     client_error option \<times> 's managed" where
  "managed_query_error inner_gen inner_error anonymous m =
     (if \<not> anonymous \<and> (phase (managed_state m) = Recovering \<or> phase (managed_state m) = PersistenceFailed)
      then (Some (client_error_new Authentication), m)
      else (case inner_error anonymous (inner_client m) of
              (None, c) \<Rightarrow> (None, m\<lparr>inner_client := c\<rparr>)
            | (Some e, c) \<Rightarrow>
                (Some e, managed_observe inner_gen (inner_gen c) anonymous (Some e) (m\<lparr>inner_client := c\<rparr>))))"

text \<open>\<open>execute\<close>: the guard, and the observation of what the inner client answered.\<close>

definition execute_guard :: "bool \<Rightarrow> managed_state \<Rightarrow> client_error option" where
  "execute_guard anonymous s =
     (if \<not> anonymous \<and> (phase s = Recovering \<or> phase s = PersistenceFailed)
      then Some (client_error_new Authentication) else None)"

definition managed_execute ::
  "('s \<Rightarrow> generation) \<Rightarrow> generation \<Rightarrow> query \<Rightarrow> ('s \<Rightarrow> 'r outcome \<times> 's) \<Rightarrow> 's managed \<Rightarrow>
     'r outcome \<times> 's managed" where
  "managed_execute inner_gen gen q run m =
     (case execute_guard (m_anonymous (query_method q)) (managed_state m) of
        Some e \<Rightarrow> (Inl e, m)
      | None \<Rightarrow>
          (case run (inner_client m) of
             (result, c) \<Rightarrow>
               (result, managed_observe inner_gen gen (m_anonymous (query_method q)) (result_err result)
                          (m\<lparr>inner_client := c\<rparr>))))"

section \<open>Version synchronisation\<close>

definition CLIENT_CANDIDATES :: nat where
  "CLIENT_CANDIDATES = 3"

definition start_version_sync :: "u64 \<Rightarrow> bool \<Rightarrow> string \<Rightarrow> managed_state \<Rightarrow> managed_state" where
  "start_version_sync interval follow presented s =
     s\<lparr>version_sync := Some
         \<lparr>vs_interval_seconds = interval, vs_current = None, vs_client_version = presented,
          vs_follow = follow, vs_checks = 0, vs_updates = 0, vs_client_updates = 0,
          vs_last_checked_at = None, vs_last_error = None\<rparr>\<rparr>"

definition begin_sync :: "managed_state \<Rightarrow> managed_state option" where
  "begin_sync s =
     (if version_updating s \<or> phase s = Recovering \<or> phase s = PersistenceFailed then None
      else Some (s\<lparr>version_updating := True\<rparr>))"

text \<open>
  The candidates in order, each one RPC on the client \<open>c\<close>: one that is refused as well moves on,
  anything else decides.
\<close>

fun try_candidates ::
  "(string \<Rightarrow> 'c \<Rightarrow> bool outcome \<times> 'c) \<Rightarrow> string list \<Rightarrow> bool outcome \<Rightarrow> 'c \<Rightarrow>
     bool outcome \<times> string option \<times> 'c" where
  "try_candidates adopt [] result c = (result, None, c)"
| "try_candidates adopt (v # vs) result c =
     (case adopt v c of
        (Inl e, c') \<Rightarrow>
          if client_update_required e then try_candidates adopt vs result c' else (Inl e, None, c')
      | (Inr changed, c') \<Rightarrow> (Inr changed, Some v, c'))"

text \<open>The RPCs of one check; \<open>previous\<close> reads the presented client version.\<close>

definition sync_calls ::
  "('c \<Rightarrow> bool outcome \<times> 'c) \<Rightarrow> (string \<Rightarrow> 'c \<Rightarrow> bool outcome \<times> 'c) \<Rightarrow> ('c \<Rightarrow> string) \<Rightarrow> bool \<Rightarrow> 'c \<Rightarrow>
     bool outcome \<times> (string \<times> string) option \<times> 'c" where
  "sync_calls refresh adopt presented follow c =
     (case refresh c of
        (Inl e, c1) \<Rightarrow>
          if follow \<and> client_update_required e
          then (case try_candidates adopt (patch_successors (presented c1) CLIENT_CANDIDATES) (Inl e) c1 of
                  (result, followed, c2) \<Rightarrow>
                    (result, map_option (\<lambda>v. (presented c1, v)) followed, c2))
          else (Inl e, None, c1)
      | (Inr changed, c1) \<Rightarrow> (Inr changed, None, c1))"

definition rebase :: "generation \<Rightarrow> generation \<Rightarrow> bool \<Rightarrow> generation option \<Rightarrow> generation option" where
  "rebase old new rearm g = (if g = Some old then (if rearm then None else Some new) else g)"

text \<open>The bookkeeping after the check: retry budgets follow the session to its new generation.\<close>

definition rebase_attempts :: "generation \<Rightarrow> generation \<Rightarrow> bool \<Rightarrow> managed_state \<Rightarrow> managed_state" where
  "rebase_attempts old new rearm s =
     s\<lparr>attempted := rebase old new rearm (attempted s),
       initial_attempted :=
         (case initial_attempted s of
            Some (g, revision) \<Rightarrow>
              if g = old then (if rearm then None else Some (new, revision)) else Some (g, revision)
          | None \<Rightarrow> None),
       version_rejected_attempt := rebase old new rearm (version_rejected_attempt s)\<rparr>"

definition sync_status ::
  "bool outcome \<Rightarrow> bool \<Rightarrow> session_config \<Rightarrow> nat \<Rightarrow> version_sync_status \<Rightarrow> version_sync_status" where
  "sync_status result followed cfg now_seconds v =
     v\<lparr>vs_checks := vs_checks v + 1,
       vs_last_checked_at := Some now_seconds,
       vs_last_error := map_option kind (result_err result),
       vs_client_version := client_version cfg,
       vs_client_updates := vs_client_updates v + (if followed then 1 else 0),
       vs_current :=
         (case result of
            Inl _ \<Rightarrow> vs_current v
          | Inr _ \<Rightarrow>
              (case master_version cfg of
                 None \<Rightarrow> None
               | Some m \<Rightarrow> Some \<lparr>dv_master = m,
                   dv_resource = (case resource_version cfg of None \<Rightarrow> [] | Some r \<Rightarrow> r)\<rparr>)),
       vs_updates := vs_updates v + (if result = Inr True then 1 else 0)\<rparr>"

definition finish_sync ::
  "generation \<Rightarrow> generation \<Rightarrow> client_error option \<Rightarrow> bool outcome \<Rightarrow> bool \<Rightarrow> session_config \<Rightarrow> nat \<Rightarrow>
     managed_state \<Rightarrow> managed_state" where
  "finish_sync old new inner_error result followed cfg now_seconds s =
     (let s = s\<lparr>version_updating := False\<rparr>;
          changed = (result = Inr True);
          rearm = (followed \<and> version_rejected_attempt s = Some old);
          s = (if changed then rebase_attempts old new rearm s else s);
          s = (if changed \<and> (rearm \<or> inner_error = None) then s\<lparr>phase := Unverified, last_error := None\<rparr> else s)
      in s\<lparr>version_sync := map_option (sync_status result followed cfg now_seconds) (version_sync s)\<rparr>)"

section \<open>The contract of the trait\<close>

lemma managed_observe_client [simp]: "inner_client (managed_observe ig g a e m) = inner_client m"
  by (simp add: managed_observe_def note_spawn_def)

lemma note_spawn_None [simp]: "note_spawn g (managed_state m, None) m = m"
  by (simp add: note_spawn_def)

context query_client begin

lemma managed_generation_keeps:
  "managed_generation gen (snd (managed_query_error gen qerr a m)) = managed_generation gen m"
  using check_keeps_generation [of a "inner_client m"]
  by (auto simp: managed_query_error_def managed_generation_def split: prod.splits option.splits)

lemma managed_refusal_persists:
  assumes "fst (managed_query_error gen qerr a m) \<noteq> None"
  shows "fst (managed_query_error gen qerr a (snd (managed_query_error gen qerr a m))) \<noteq> None"
proof (cases "\<not> a \<and> (phase (managed_state m) = Recovering \<or> phase (managed_state m) = PersistenceFailed)")
  case True
  then show ?thesis by (simp add: managed_query_error_def)
next
  case False
  then obtain e c where c: "qerr a (inner_client m) = (Some e, c)"
    using assms by (auto simp: managed_query_error_def split: prod.splits option.splits)
  then have "fst (qerr a c) \<noteq> None" using refusal_persists [of a "inner_client m"] by simp
  with False c show ?thesis
    by (auto simp: managed_query_error_def split: prod.splits option.splits)
qed

lemma managed_contract: "query_client (managed_generation gen) (managed_query_error gen qerr)"
proof
  show "fst (managed_query_error gen qerr True s) = None" for s
    by (simp add: managed_query_error_def check_anonymous)
  show "managed_generation gen (snd (managed_query_error gen qerr a s)) = managed_generation gen s" for a s
    by (rule managed_generation_keeps)
  show "fst (managed_query_error gen qerr a s) = None \<Longrightarrow> snd (managed_query_error gen qerr a s) = s" for a s
    using admission_is_silent [of a "inner_client s"]
    by (auto simp: managed_query_error_def split: if_split_asm prod.splits option.splits)
  show "fst (managed_query_error gen qerr a s) \<noteq> None \<Longrightarrow>
      fst (managed_query_error gen qerr a (snd (managed_query_error gen qerr a s))) \<noteq> None" for a s
    by (rule managed_refusal_persists)
qed

end

interpretation managed_client: query_client "managed_generation client_generation"
    "managed_query_error client_generation client_check"
  by (rule game_client.managed_contract)

end
