(* ===== verification/Managed_Steps.thy ===== *)
theory Managed_Steps
  imports Managed_Session Client_Steps
begin

text \<open>
  The interleavings of the managed client: observations by any number of requests, recovery
  workers, version checks, reloads and changes of the inner session.  The lists of running
  workers and checks are not part of the program's state; that they never hold more than one
  element is proved, not assumed.
\<close>

record managed_world =
  mw_state :: managed_state
  mw_gen :: generation
  mw_seen :: "generation set"
  mw_now :: nat
  mw_workers :: "(generation \<times> bool) list"
  mw_syncs :: "generation list"
  mw_log :: "(generation \<times> nat) list"

definition record_spawn :: "generation \<Rightarrow> managed_state \<times> bool option \<Rightarrow> managed_world \<Rightarrow> managed_world" where
  "record_spawn g r w =
     (case r of
        (s, None) \<Rightarrow> w\<lparr>mw_state := s\<rparr>
      | (s, Some initial) \<Rightarrow>
          w\<lparr>mw_state := s, mw_workers := (g, initial) # mw_workers w,
            mw_log := (if initial then mw_log w else (g, mw_now w) # mw_log w)\<rparr>)"

inductive managed_step :: "managed_options \<Rightarrow> managed_world \<Rightarrow> managed_world \<Rightarrow> bool"
  for opts :: managed_options where
  observe: "managed_step opts w
    (record_spawn g (observed opts inner1 (mw_gen w) stopped revision (mw_now w) g anonymous error (mw_state w)) w)"
| worker_done: "(g, initial) \<in> set (mw_workers w) \<Longrightarrow>
    managed_step opts w (w\<lparr>mw_state := finish_worker initial g (mw_gen w) result (mw_state w),
                           mw_workers := remove1 (g, initial) (mw_workers w)\<rparr>)"
| sync_start: "begin_sync (mw_state w) = Some s \<Longrightarrow> g \<in> mw_seen w \<Longrightarrow>
    managed_step opts w (w\<lparr>mw_state := s, mw_syncs := g # mw_syncs w\<rparr>)"
| sync_done: "g \<in> set (mw_syncs w) \<Longrightarrow> (result = Inr True \<Longrightarrow> mw_gen w \<noteq> g) \<Longrightarrow>
    managed_step opts w (w\<lparr>mw_state := finish_sync g (mw_gen w) inner_error result followed cfg secs (mw_state w),
                           mw_syncs := remove1 g (mw_syncs w)\<rparr>)"
| reload: "reload replaced (mw_state w) = (Inr (), s) \<Longrightarrow> g = mw_gen w \<or> g \<notin> mw_seen w \<Longrightarrow>
    managed_step opts w (w\<lparr>mw_state := s, mw_gen := g, mw_seen := insert g (mw_seen w), mw_log := []\<rparr>)"
| new_generation: "g \<notin> mw_seen w \<Longrightarrow>
    managed_step opts w (w\<lparr>mw_gen := g, mw_seen := insert g (mw_seen w)\<rparr>)"
| clock: "mw_now w \<le> t \<Longrightarrow> managed_step opts w (w\<lparr>mw_now := t\<rparr>)"

inductive managed_reachable :: "managed_options \<Rightarrow> managed_world \<Rightarrow> bool"
  for opts :: managed_options where
  start: "managed_reachable opts
    \<lparr>mw_state = managed_new, mw_gen = g, mw_seen = {g}, mw_now = t, mw_workers = [], mw_syncs = [], mw_log = []\<rparr>"
| step: "managed_reachable opts w \<Longrightarrow> managed_step opts w w' \<Longrightarrow> managed_reachable opts w'"

inductive_cases managed_stepE: "managed_step opts w w'"

section \<open>Invariants\<close>

text \<open>Who may run: workers exactly in the recovering phase, checks exactly while updating.\<close>

definition exclusive :: "managed_world \<Rightarrow> bool" where
  "exclusive w \<longleftrightarrow>
     length (mw_workers w) = (if phase (mw_state w) = Recovering then 1 else 0)
     \<and> length (mw_syncs w) = (if version_updating (mw_state w) then 1 else 0)
     \<and> (version_updating (mw_state w) \<longrightarrow>
          phase (mw_state w) \<noteq> Recovering \<and> phase (mw_state w) \<noteq> PersistenceFailed)"

text \<open>The retry budget since the last reload.\<close>

definition budget :: "managed_options \<Rightarrow> managed_world \<Rightarrow> bool" where
  "budget opts w \<longleftrightarrow>
     mw_gen w \<in> mw_seen w \<and> fst ` set (mw_log w) \<subseteq> mw_seen w
     \<and> distinct (map fst (mw_log w))
     \<and> (mw_gen w \<in> fst ` set (mw_log w) \<longrightarrow> attempted (mw_state w) = Some (mw_gen w))
     \<and> (\<forall>g t l. mw_log w = (g, t) # l \<longrightarrow> last_attempt (mw_state w) = Some t \<and> t \<le> mw_now w)
     \<and> sorted_wrt (\<lambda>a b. snd b + mo_cooldown opts \<le> snd a) (mw_log w)"

lemma start_recovery_cases:
  assumes "start_recovery opts g initial rvn now s = (s', sp)"
  shows "s' = s \<and> sp = None
    \<or> sp = Some initial \<and> \<not> version_updating s \<and> \<not> version_updating s' \<and> phase s' = Recovering
      \<and> (initial \<longrightarrow> attempted s' = attempted s \<and> last_attempt s' = last_attempt s)
      \<and> (\<not> initial \<longrightarrow> attempted s \<noteq> Some g \<and> attempted s' = Some g \<and> last_attempt s' = Some now
           \<and> (\<forall>t. last_attempt s = Some t \<longrightarrow> mo_cooldown opts \<le> now - t))"
  using assms
  by (cases initial) (auto simp: start_recovery_def Let_def split: if_split_asm option.splits)

text \<open>The three outcomes of an observation: nothing, a new phase, or a worker.\<close>

definition rephased :: "managed_state \<Rightarrow> managed_state \<Rightarrow> bool" where
  "rephased s s' \<longleftrightarrow>
     phase s' \<noteq> Recovering \<and> phase s' \<noteq> PersistenceFailed
     \<and> phase s \<noteq> Recovering \<and> phase s \<noteq> PersistenceFailed
     \<and> version_updating s' = version_updating s \<and> attempted s' = attempted s
     \<and> last_attempt s' = last_attempt s"

definition recovering :: "managed_options \<Rightarrow> generation \<Rightarrow> nat \<Rightarrow> bool \<Rightarrow> managed_state \<Rightarrow> managed_state \<Rightarrow> bool" where
  "recovering opts g now initial s s' \<longleftrightarrow>
     \<not> version_updating s \<and> \<not> version_updating s' \<and> phase s' = Recovering
     \<and> phase s \<noteq> Recovering \<and> phase s \<noteq> PersistenceFailed
     \<and> (initial \<longrightarrow> attempted s' = attempted s \<and> last_attempt s' = last_attempt s)
     \<and> (\<not> initial \<longrightarrow> attempted s \<noteq> Some g \<and> attempted s' = Some g \<and> last_attempt s' = Some now
          \<and> (\<forall>t. last_attempt s = Some t \<longrightarrow> mo_cooldown opts \<le> now - t))"

lemma error_phase_safe [simp]: "error_phase k \<noteq> Recovering" "error_phase k \<noteq> PersistenceFailed"
  by (simp_all add: error_phase_def split: error_kind.splits)

lemma observed_error_cases:
  assumes "start_recovery opts g initial rvn now (s\<lparr>last_error := Some k, phase := error_phase k\<rparr>) = (s', sp)"
    and "phase s \<noteq> Recovering" "phase s \<noteq> PersistenceFailed"
  shows "sp = None \<and> rephased s s' \<or> sp = Some initial \<and> recovering opts g now initial s s'"
  using start_recovery_cases [OF assms(1)] assms(2,3) by (auto simp: rephased_def recovering_def)

lemma observed_cases:
  assumes "observed opts i1 i2 stopped rvn now g anon err s = (s', sp)"
  shows "s' = s \<and> sp = None
    \<or> \<not> anon \<and> i2 = g \<and> sp = None \<and> rephased s s'
    \<or> \<not> anon \<and> i2 = g \<and> (\<exists>e initial. sp = Some initial \<and> err = Some e
          \<and> kind e = (if initial then AuthenticationRequired else Authentication)
          \<and> recovering opts g now initial s s')"
proof (cases "anon \<or> i1 \<noteq> g \<or> stopped \<or> i2 \<noteq> g \<or> phase s = Recovering \<or> phase s = PersistenceFailed")
  case True
  with assms show ?thesis by (auto simp: observed_def split: if_split_asm)
next
  case False
  show ?thesis
  proof (cases err)
    case None
    with assms False show ?thesis by (auto simp: observed_def rephased_def)
  next
    case (Some e)
    let ?initial = "kind e = AuthenticationRequired"
    let ?rvn = "if ?initial \<and> has_loader opts then Some (g, rvn) else None"
    let ?s = "s\<lparr>last_error := Some (kind e), phase := error_phase (kind e)\<rparr>"
    have o: "observed opts i1 i2 stopped rvn now g anon err s =
       (if ?rvn \<noteq> None \<and> ?rvn = initial_attempted s then (s, None)
        else if kind e \<noteq> Authentication \<and> kind e \<noteq> AuthenticationRequired then (?s, None)
        else start_recovery opts g ?initial ?rvn now ?s)"
      using False Some by (cases "initial_attempted s") (auto simp: observed_def Let_def)
    have p: "phase s \<noteq> Recovering" "phase s \<noteq> PersistenceFailed" using False by simp_all
    show ?thesis
    proof (cases "?rvn \<noteq> None \<and> ?rvn = initial_attempted s")
      case True
      have "(s, None) = (s', sp)" using assms unfolding o if_P [OF True] .
      then show ?thesis by simp
    next
      case fresh: False
      show ?thesis
      proof (cases "kind e \<noteq> Authentication \<and> kind e \<noteq> AuthenticationRequired")
        case True
        with assms fresh False p show ?thesis by (auto simp: o rephased_def simp del: not_None_eq)
      next
        case auth: False
        with assms fresh have "start_recovery opts g ?initial ?rvn now ?s = (s', sp)"
          by (simp add: o del: not_None_eq split del: if_split)
        note started = observed_error_cases [OF this p]
        have "kind e = (if ?initial then AuthenticationRequired else Authentication)" using auth by auto
        moreover have "\<not> anon" "i2 = g" using False by simp_all
        ultimately show ?thesis using started Some by blast
      qed
    qed
  qed
qed

lemma record_spawn_simps [simp]:
  "record_spawn g (s, None) w = w\<lparr>mw_state := s\<rparr>"
  "record_spawn g (s, Some i) w = w\<lparr>mw_state := s, mw_workers := (g, i) # mw_workers w,
     mw_log := (if i then mw_log w else (g, mw_now w) # mw_log w)\<rparr>"
  by (simp_all add: record_spawn_def)

lemma finish_worker_frame [simp]:
  "version_updating (finish_worker i g c r s) = version_updating s"
  "attempted (finish_worker i g c r s) = attempted s"
  "last_attempt (finish_worker i g c r s) = last_attempt s"
  "phase (finish_worker i g c r s) \<noteq> Recovering"
  by (simp_all add: finish_worker_def split: sum.splits error_kind.splits)

lemma finish_sync_frame [simp]:
  "\<not> version_updating (finish_sync g n e r f cfg t s)"
  "last_attempt (finish_sync g n e r f cfg t s) = last_attempt s"
  by (simp_all add: finish_sync_def Let_def rebase_attempts_def)

lemma finish_sync_phase:
  "phase (finish_sync g n e r f cfg t s) = phase s \<or> phase (finish_sync g n e r f cfg t s) = Unverified"
  by (simp add: finish_sync_def Let_def rebase_attempts_def)

lemma finish_sync_attempted:
  "attempted s \<noteq> Some g \<or> r \<noteq> Inr True \<Longrightarrow> attempted (finish_sync g n e r f cfg t s) = attempted s"
  by (auto simp: finish_sync_def Let_def rebase_attempts_def rebase_def)

lemma begin_sync_Some:
  "begin_sync s = Some s' \<longleftrightarrow> s' = s\<lparr>version_updating := True\<rparr> \<and> \<not> version_updating s
     \<and> phase s \<noteq> Recovering \<and> phase s \<noteq> PersistenceFailed"
  by (auto simp: begin_sync_def)

lemma reload_Inr:
  "reload r s = (Inr u, s') \<Longrightarrow> phase s \<noteq> Recovering \<and> \<not> version_updating s
     \<and> phase s' = Unverified \<and> \<not> version_updating s'"
  by (auto simp: reload_def split: if_split_asm sum.splits)

lemma exclusive_observe:
  assumes "exclusive w" "observed opts i1 (mw_gen w) st rvn (mw_now w) g anon err (mw_state w) = (s', sp)"
  shows "exclusive (record_spawn g (s', sp) w)"
  using observed_cases [OF assms(2)] assms(1)
proof (elim disjE)
  assume "\<not> anon \<and> mw_gen w = g \<and> (\<exists>e initial. sp = Some initial \<and> err = Some e
          \<and> kind e = (if initial then AuthenticationRequired else Authentication)
          \<and> recovering opts g (mw_now w) initial (mw_state w) s')"
  then obtain initial where "sp = Some initial" "recovering opts g (mw_now w) initial (mw_state w) s'" by blast
  with assms(1) show ?thesis by (simp add: exclusive_def recovering_def)
qed (auto simp: exclusive_def rephased_def)

lemma exclusive_step:
  assumes "managed_step opts w w'" "exclusive w"
  shows "exclusive w'"
  using assms(1)
proof cases
  case (observe g inner1 stopped revision anonymous error)
  with exclusive_observe [OF assms(2)] show ?thesis by (metis surj_pair)
next
  case (worker_done g initial result)
  then have "mw_workers w \<noteq> []" by auto
  with assms(2) have one: "length (mw_workers w) = 1" "\<not> version_updating (mw_state w)"
    by (auto simp: exclusive_def split: if_split_asm)
  then have "remove1 (g, initial) (mw_workers w) = []"
    using worker_done(2) by (cases "mw_workers w") auto
  with assms(2) one worker_done(1) show ?thesis by (simp add: exclusive_def)
next
  case (sync_start s g)
  with assms(2) show ?thesis by (auto simp: exclusive_def begin_sync_Some)
next
  case (sync_done g result inner_error followed cfg secs)
  then have "mw_syncs w \<noteq> []" by auto
  with assms(2) have one: "length (mw_syncs w) = 1" "version_updating (mw_state w)"
    by (auto simp: exclusive_def split: if_split_asm)
  then have "remove1 g (mw_syncs w) = []" using sync_done(2) by (cases "mw_syncs w") auto
  moreover have "phase (finish_sync g (mw_gen w) inner_error result followed cfg secs (mw_state w)) \<noteq> Recovering"
    using finish_sync_phase assms(2) one(2) by (metis exclusive_def phase.distinct(3))
  moreover have "mw_workers w = []" using assms(2) one(2) by (auto simp: exclusive_def)
  ultimately show ?thesis using sync_done(1) by (simp add: exclusive_def)
next
  case (reload replaced s g)
  with assms(2) show ?thesis by (auto simp: exclusive_def dest!: reload_Inr)
qed (use assms(2) in \<open>simp_all add: exclusive_def\<close>)

lemma budget_observe:
  assumes "budget opts w" "observed opts i1 (mw_gen w) st rvn (mw_now w) g anon err (mw_state w) = (s', sp)"
  shows "budget opts (record_spawn g (s', sp) w)"
  using observed_cases [OF assms(2)] assms(1)
proof (elim disjE)
  assume "\<not> anon \<and> mw_gen w = g \<and> (\<exists>e initial. sp = Some initial \<and> err = Some e
          \<and> kind e = (if initial then AuthenticationRequired else Authentication)
          \<and> recovering opts g (mw_now w) initial (mw_state w) s')"
  then obtain initial where i: "sp = Some initial" "recovering opts g (mw_now w) initial (mw_state w) s'"
    and g: "mw_gen w = g" by blast
  show ?thesis
  proof (cases initial)
    case True
    with i assms(1) show ?thesis by (simp add: budget_def recovering_def)
  next
    case False
    with i have r: "attempted (mw_state w) \<noteq> Some g" "attempted s' = Some g" "last_attempt s' = Some (mw_now w)"
      "\<forall>t. last_attempt (mw_state w) = Some t \<longrightarrow> mo_cooldown opts \<le> mw_now w - t"
      by (auto simp: recovering_def)
    have new: "g \<notin> fst ` set (mw_log w)" using assms(1) r(1) g by (auto simp: budget_def)
    have space: "\<forall>b\<in>set (mw_log w). snd b + mo_cooldown opts \<le> mw_now w"
    proof (cases "mw_log w")
      case (Cons x l)
      obtain g0 t0 where x: "x = (g0, t0)" by (cases x)
      have "last_attempt (mw_state w) = Some t0" "t0 \<le> mw_now w"
        using assms(1) Cons x by (auto simp: budget_def)
      with r(4) have "t0 + mo_cooldown opts \<le> mw_now w" by auto
      moreover have "\<forall>b\<in>set l. snd b \<le> t0"
        using assms(1) Cons x by (auto simp: budget_def)
      ultimately show ?thesis using Cons x by auto
    qed simp
    with i False new r(2,3) g assms(1) show ?thesis by (auto simp: budget_def)
  qed
qed (auto simp: budget_def rephased_def)

lemma budget_step:
  assumes "managed_step opts w w'" "budget opts w"
  shows "budget opts w'"
  using assms(1)
proof cases
  case (observe g inner1 stopped revision anonymous error)
  with budget_observe [OF assms(2)] show ?thesis by (metis surj_pair)
next
  case (sync_start s g)
  with assms(2) show ?thesis by (auto simp: budget_def begin_sync_Some)
next
  case (sync_done g result inner_error followed cfg secs)
  show ?thesis
  proof (cases "mw_gen w \<in> fst ` set (mw_log w)")
    case True
    with assms(2) have "attempted (mw_state w) = Some (mw_gen w)" by (simp add: budget_def)
    then have "attempted (mw_state w) \<noteq> Some g \<or> result \<noteq> Inr True" using sync_done(3) by auto
    then have "attempted (finish_sync g (mw_gen w) inner_error result followed cfg secs (mw_state w))
        = attempted (mw_state w)" by (rule finish_sync_attempted)
    with assms(2) sync_done(1) show ?thesis by (simp add: budget_def)
  next
    case False
    with assms(2) sync_done(1) show ?thesis by (simp add: budget_def)
  qed
next
  case (new_generation g)
  with assms(2) show ?thesis by (auto simp: budget_def)
next
  case (clock t)
  with assms(2) show ?thesis by (fastforce simp: budget_def)
qed (use assms(2) in \<open>auto simp: budget_def\<close>)

lemma managed_reachable_inv: "managed_reachable opts w \<Longrightarrow> exclusive w \<and> budget opts w"
proof (induction rule: managed_reachable.induct)
  case (start g t)
  then show ?case by (simp add: exclusive_def budget_def managed_new_def)
next
  case (step w w')
  then show ?case using exclusive_step budget_step by blast
qed

section \<open>A sample run\<close>

definition sample_options :: managed_options where
  "sample_options = \<lparr>has_recovery = True, has_loader = False, mo_cooldown = 300\<rparr>"

definition sample_recovering :: managed_world where
  "sample_recovering =
     \<lparr>mw_state = managed_new\<lparr>phase := Recovering, attempts := 1, attempted := Some 0,
        last_attempt := Some 0, last_error := Some Authentication\<rparr>,
      mw_gen = 0, mw_seen = {0}, mw_now = 0, mw_workers = [(0, False)], mw_syncs = [], mw_log = [(0, 0)]\<rparr>"

lemma sample_recovering_reachable: "managed_reachable sample_options sample_recovering"
proof -
  let ?w = "\<lparr>mw_state = managed_new, mw_gen = 0, mw_seen = {0}, mw_now = 0, mw_workers = [], mw_syncs = [],
      mw_log = []\<rparr> :: managed_world"
  have "managed_reachable sample_options ?w" by (rule managed_reachable.start)
  moreover have "managed_step sample_options ?w sample_recovering"
    using managed_step.observe [where opts = sample_options and w = ?w and ?inner1.0 = 0 and stopped = False
        and revision = None and g = 0 and anonymous = False and error = "Some (client_error_new Authentication)"]
    by (simp add: observed_def start_recovery_def managed_new_def sample_options_def sample_recovering_def
        error_phase_def Let_def)
  ultimately show ?thesis by (rule managed_reachable.step)
qed

definition sample_failed :: managed_world where
  "sample_failed = sample_recovering\<lparr>mw_state := finish_worker False 0 0 (fail InvalidConfig) (mw_state sample_recovering),
     mw_workers := []\<rparr>"

lemma sample_failed_reachable:
  "managed_reachable sample_options sample_failed" "phase (mw_state sample_failed) = PersistenceFailed"
proof -
  have "managed_step sample_options sample_recovering sample_failed"
    using managed_step.worker_done [of 0 False sample_recovering sample_options "fail InvalidConfig"]
    by (simp add: sample_failed_def sample_recovering_def)
  with sample_recovering_reachable show "managed_reachable sample_options sample_failed"
    by (rule managed_reachable.step)
  show "phase (mw_state sample_failed) = PersistenceFailed"
    by (simp add: sample_failed_def finish_worker_def)
qed

section \<open>Properties\<close>

text \<open>
  C5: recovery and version checks exclude each other.  In every reachable
  interleaving at most one recovery worker and at most one version check run, never both; a
  worker runs exactly while the phase is \<open>Recovering\<close>, a check exactly while
  \<open>version_updating\<close> is set.
\<close>

theorem recovery_and_version_checks_exclude_each_other:
  assumes "managed_reachable opts w"
  shows "length (mw_workers w) + length (mw_syncs w) \<le> 1
    \<and> (mw_workers w \<noteq> [] \<longleftrightarrow> phase (mw_state w) = Recovering)
    \<and> (mw_syncs w \<noteq> [] \<longleftrightarrow> version_updating (mw_state w))"
proof -
  have "exclusive w" using managed_reachable_inv [OF assms] by simp
  then show ?thesis by (auto simp: exclusive_def split: if_split_asm)
qed

theorem recovery_and_version_checks_exclude_each_other_witness:
  "managed_reachable sample_options sample_recovering \<and> mw_workers sample_recovering \<noteq> []
   \<and> phase (mw_state sample_recovering) = Recovering"
  using recovery_and_version_checks_exclude_each_other [OF sample_recovering_reachable]
    sample_recovering_reachable by (simp add: sample_recovering_def)

text \<open>
  C6: automatic re-login is bounded.  Since the last reload, no generation has had
  more than one recovery attempt, and any two attempts are at least the configured cooldown
  apart, whatever mixture of failures, version updates and session changes happened between.
\<close>

theorem recovery_attempts_are_bounded:
  assumes "managed_reachable opts w"
  shows "distinct (map fst (mw_log w))
    \<and> sorted_wrt (\<lambda>a b. snd b + mo_cooldown opts \<le> snd a) (mw_log w)"
  using managed_reachable_inv [OF assms] by (simp add: budget_def)

theorem recovery_attempts_are_bounded_witness:
  "managed_reachable sample_options sample_recovering \<and> mw_log sample_recovering = [(0, 0)]
   \<and> distinct (map fst (mw_log sample_recovering))"
  using recovery_attempts_are_bounded [OF sample_recovering_reachable] sample_recovering_reachable
  by (simp add: sample_recovering_def)

text \<open>
  a session that could not be persisted stays blocked.  From the phase
  \<open>PersistenceFailed\<close> no step other than a successful reload leaves the phase, starts a worker
  or starts a version check.
\<close>

theorem persistence_failure_is_sticky:
  assumes "managed_reachable opts w" "managed_step opts w w'" "phase (mw_state w) = PersistenceFailed"
  shows "mw_workers w' = [] \<and> mw_syncs w' = []
    \<and> (phase (mw_state w') = PersistenceFailed
        \<or> phase (mw_state w') = Unverified \<and> mw_log w' = []
          \<and> (\<exists>replaced. reload replaced (mw_state w) = (Inr (), mw_state w')))"
proof -
  have "exclusive w" using managed_reachable_inv [OF assms(1)] by simp
  then have idle: "mw_workers w = []" "mw_syncs w = []" using assms(3) by (auto simp: exclusive_def)
  from assms(2) show ?thesis
  proof cases
    case (observe g inner1 stopped revision anonymous error)
    have "observed opts inner1 (mw_gen w) stopped revision (mw_now w) g anonymous error (mw_state w)
        = (mw_state w, None)"
      using assms(3) by (simp add: observed_def)
    with observe idle assms(3) show ?thesis by simp
  next
    case (reload replaced s g)
    with reload_Inr [OF reload(2)] idle show ?thesis by auto
  qed (use idle assms(3) in \<open>auto simp: begin_sync_Some\<close>)
qed

theorem persistence_failure_is_sticky_witness:
  "managed_step sample_options sample_failed (sample_failed\<lparr>mw_now := 1000\<rparr>)
   \<and> phase (mw_state sample_failed) = PersistenceFailed
   \<and> phase (mw_state (sample_failed\<lparr>mw_now := 1000\<rparr>)) = PersistenceFailed"
proof -
  have st: "managed_step sample_options sample_failed (sample_failed\<lparr>mw_now := 1000\<rparr>)"
    by (rule managed_step.clock) (simp add: sample_failed_def sample_recovering_def)
  from persistence_failure_is_sticky [OF sample_failed_reachable(1) st sample_failed_reachable(2)] st
    sample_failed_reachable(2)
  show ?thesis by simp
qed

text \<open>
  only a failed authentication starts a worker.  Whatever is observed, a worker is
  started only for a non-anonymous result of the current generation whose error is
  \<open>Authentication\<close> (the re-login) or \<open>AuthenticationRequired\<close> (the initial load), only when
  no recovery and no version check is running; an anonymous result changes nothing at all.
\<close>

theorem only_failed_authentication_starts_recovery:
  "(snd (observed opts i1 i2 stopped revision now g anonymous error s) = Some initial \<longrightarrow>
      \<not> anonymous \<and> i2 = g \<and> phase s \<noteq> Recovering \<and> phase s \<noteq> PersistenceFailed \<and> \<not> version_updating s
      \<and> (\<exists>e. error = Some e \<and> kind e = (if initial then AuthenticationRequired else Authentication)))
   \<and> observed opts i1 i2 stopped revision now g True error s = (s, None)"
proof -
  obtain s' sp where o: "observed opts i1 i2 stopped revision now g anonymous error s = (s', sp)" by fastforce
  from observed_cases [OF o] show ?thesis
    by (auto simp: o recovering_def observed_def [of opts i1 i2 stopped revision now g True])
qed

theorem only_failed_authentication_starts_recovery_witness:
  "\<exists>s'. observed sample_options 0 0 False None 7 0 False (Some (client_error_new Authentication)) managed_new
      = (s', Some False) \<and> kind (client_error_new Authentication) = Authentication"
proof -
  obtain s' where o: "observed sample_options 0 0 False None 7 0 False (Some (client_error_new Authentication))
      managed_new = (s', Some False)"
    by (simp add: observed_def start_recovery_def managed_new_def sample_options_def Let_def)
  from only_failed_authentication_starts_recovery [of sample_options 0 0 False None 7 0 False
      "Some (client_error_new Authentication)" managed_new False]
  show ?thesis using o by simp
qed

definition update_refused :: "(string \<Rightarrow> bool outcome) \<Rightarrow> string \<Rightarrow> bool" where
  "update_refused f v \<longleftrightarrow> (case f v of Inl e \<Rightarrow> client_update_required e | Inr _ \<Rightarrow> False)"

lemma try_candidates_log:
  "try_candidates (\<lambda>v log. (f v, log @ [v])) vs r log =
     (case dropWhile (update_refused f) vs of
        [] \<Rightarrow> (r, None, log @ vs)
      | v # _ \<Rightarrow> (f v, (if result_ok (f v) = None then None else Some v),
                  log @ takeWhile (update_refused f) vs @ [v]))"
proof (induction vs arbitrary: log)
  case (Cons v vs)
  show ?case
  proof (cases "update_refused f v")
    case True
    then obtain e where "f v = Inl e" "client_update_required e"
      by (auto simp: update_refused_def split: sum.splits)
    with True Cons show ?thesis by (cases "dropWhile (update_refused f) vs") (simp_all del: dropWhile_eq_Nil_conv)
  next
    case False
    then show ?thesis by (auto simp: update_refused_def result_ok_def split: sum.splits)
  qed
qed simp


text \<open>
  while the session is being recovered, or could not be persisted, every
  protected query is refused locally: both the admission check and the execution answer
  \<open>Authentication\<close>, the inner client is not called and nothing changes.  An anonymous query
  is passed through in every phase and leaves the lifecycle state as it is.
\<close>

theorem protected_queries_wait_for_recovery:
  assumes "phase (managed_state m) = Recovering \<or> phase (managed_state m) = PersistenceFailed"
  shows "managed_query_error client_generation client_check False m = (Some (client_error_new Authentication), m)
    \<and> (\<not> m_anonymous (query_method q) \<longrightarrow>
         managed_execute client_generation gen q run m = (fail Authentication, m))
    \<and> (m_anonymous (query_method q) \<longrightarrow>
         managed_execute client_generation gen q run m
           = (fst (run (inner_client m)), m\<lparr>inner_client := snd (run (inner_client m))\<rparr>))"
  using assms
  by (auto simp: managed_query_error_def managed_execute_def execute_guard_def managed_observe_def
      note_spawn_def observed_def split: prod.splits)

theorem protected_queries_wait_for_recovery_witness:
  "\<exists>m :: client managed. phase (managed_state m) = Recovering
     \<and> managed_query_error client_generation client_check False m = (Some (client_error_new Authentication), m)"
proof -
  let ?m = "\<lparr>inner_client = sample_client, managed_options_of = sample_options, managed_stopped = False,
      managed_clock = 0, input_revision = None, managed_state = mw_state sample_recovering, spawned = []\<rparr> :: client managed"
  have "phase (managed_state ?m) = Recovering" by (simp add: sample_recovering_def)
  with protected_queries_wait_for_recovery [of ?m] show ?thesis by blast
qed

end
