(* ===== verification/Response_Cache.thy ===== *)
theory Response_Cache
  imports Game_Client
begin

text \<open>
  The response cache (\<open>server/src/cache.rs\<close>).  The two maps are association lists whose
  order stands for the hash map's iteration order; a flight is the watch channel of one
  running request, known by its number, and its published result is a cell of the store
  \<open>results\<close>.  What the backend's generation and query error are when the code reads them is
  an argument, because the backend changes independently of the cache's lock.
\<close>

record key =
  k_generation :: generation
  k_method :: string
  k_request :: string

record 'j cached_response =
  cr_json :: 'j
  cr_fetched_at :: nat
  cr_size :: nat

record 'j entry =
  e_response :: "'j cached_response"
  e_expires :: nat
  e_touched :: nat

type_synonym 'j shared_result = "'j cached_response outcome"

record 'j cache_state =
  cache :: "(key \<times> 'j entry) list"
  flights :: "(key \<times> nat) list"
  bytes :: nat
  results :: "nat \<Rightarrow> 'j shared_result option"
  next_flight :: nat

record cache_options =
  ttl :: nat
  capacity :: nat
  max_bytes :: nat
  max_inflight :: nat

definition default_cache_options :: cache_options where
  "default_cache_options =
     \<lparr>ttl = 15000, capacity = 1024, max_bytes = 64 * 1024 * 1024, max_inflight = 32\<rparr>"

definition options_validate :: "cache_options \<Rightarrow> unit outcome" where
  "options_validate o' =
     (if 3600000 < ttl o' \<or> 16384 < capacity o' then fail InvalidConfig else Inr ())"

definition cache_new :: "'j cache_state" where
  "cache_new = \<lparr>cache = [], flights = [], bytes = 0, results = (\<lambda>_. None), next_flight = 0\<rparr>"

text \<open>
  The checks \<open>query\<close> makes before it takes the lock, in their order; \<open>encode\<close> is the
  protobuf encoding of the request.
\<close>

definition begin_query ::
  "(query \<Rightarrow> string) \<Rightarrow> cache_options \<Rightarrow> query \<Rightarrow> client_error option \<Rightarrow> bool \<Rightarrow> generation \<Rightarrow> key outcome" where
  "begin_query encode opts q err stopped gen =
     and_then (options_validate opts) (\<lambda>_.
     and_then (query_validate q) (\<lambda>_.
     (case err of
        Some e \<Rightarrow> Inl e
      | None \<Rightarrow>
          if stopped then fail Cancelled
          else Inr \<lparr>k_generation = gen, k_method = m_name (query_method q), k_request = encode q\<rparr>)))"

definition entry_size :: "key \<times> 'j entry \<Rightarrow> nat" where
  "entry_size ke = cr_size (e_response (snd ke))"

definition total_size :: "(key \<times> 'j entry) list \<Rightarrow> nat" where
  "total_size kvs = sum_list (map entry_size kvs)"

definition prune :: "generation \<Rightarrow> nat \<Rightarrow> 'j cache_state \<Rightarrow> 'j cache_state" where
  "prune gen now st =
     (let kept = filter (\<lambda>(k, e). k_generation k = gen \<and> now < e_expires e) (cache st)
      in st\<lparr>cache := kept, bytes := total_size kept\<rparr>)"

text \<open>What a request holding the lock does next: answer, or wait for a flight.\<close>

datatype 'j step_result =
    Answer "('j cached_response \<times> string) outcome"
  | AwaitFlight nat string
  | StartFlight nat string

definition lookup ::
  "cache_options \<Rightarrow> key \<Rightarrow> client_error option \<Rightarrow> generation \<Rightarrow> nat \<Rightarrow> 'j cache_state \<Rightarrow>
     'j step_result \<times> 'j cache_state" where
  "lookup opts k err gen_now now st =
     (let st = prune (k_generation k) now st in
      case map_of (cache st) k of
        Some e \<Rightarrow>
          (case err of
             Some er \<Rightarrow> (Answer (Inl er), st)
           | None \<Rightarrow>
               (let st = st\<lparr>cache := alist_put k (e\<lparr>e_touched := now\<rparr>) (cache st)\<rparr> in
                if gen_now \<noteq> k_generation k then (Answer (fail SessionChanged), st)
                else (Answer (Inr (e_response e, ''HIT'')), st)))
      | None \<Rightarrow>
          (case map_of (flights st) k of
             Some f \<Rightarrow> (AwaitFlight f ''COALESCED'', st)
           | None \<Rightarrow>
               if max_inflight opts \<le> length (flights st) then (Answer (fail QueueFull), st)
               else (StartFlight (next_flight st) ''MISS'',
                     st\<lparr>flights := alist_put k (next_flight st) (flights st),
                        next_flight := next_flight st + 1\<rparr>)))"

text \<open>\<open>min_by_key\<close> on the time of last use: the first of the least entries.\<close>

fun oldest :: "(key \<times> 'j entry) list \<Rightarrow> key option" where
  "oldest [] = None"
| "oldest [(k, e)] = Some k"
| "oldest ((k, e) # (k', e') # rest) =
     (if e_touched e \<le> e_touched e' then oldest ((k, e) # rest) else oldest ((k', e') # rest))"

definition over_limit :: "cache_options \<Rightarrow> nat \<Rightarrow> 'j cache_state \<Rightarrow> bool" where
  "over_limit opts new st \<longleftrightarrow>
     capacity opts \<le> length (cache st) \<or> max_bytes opts < bytes st + new"

definition remove_entry :: "key \<Rightarrow> 'j cache_state \<Rightarrow> 'j cache_state" where
  "remove_entry k st =
     (case map_of (cache st) k of
        None \<Rightarrow> st
      | Some e \<Rightarrow> st\<lparr>cache := alist_remove k (cache st),
                      bytes := bytes st - cr_size (e_response e)\<rparr>)"

lemma oldest_in: "oldest kvs = Some k \<Longrightarrow> \<exists>e. map_of kvs k = Some e"
proof (induction kvs rule: oldest.induct)
  case (3 k1 e1 k2 e2 rest)
  then show ?case by (auto split: if_splits)
qed auto

lemma oldest_None [simp]: "oldest kvs = None \<longleftrightarrow> kvs = []"
  by (induction kvs rule: oldest.induct) auto

lemma remove_oldest_decreases:
  "oldest (cache st) = Some k \<Longrightarrow> length (cache (remove_entry k st)) < length (cache st)"
  by (drule oldest_in) (auto simp: remove_entry_def intro!: length_alist_remove_less dest: map_of_SomeD
      split: option.splits intro: rev_image_eqI)

text \<open>The eviction loop; it ends because every round removes an entry.\<close>

function evict :: "cache_options \<Rightarrow> nat \<Rightarrow> 'j cache_state \<Rightarrow> 'j cache_state" where
  "evict opts new st =
     (case oldest (cache st) of
        None \<Rightarrow> st
      | Some k \<Rightarrow> if over_limit opts new st then evict opts new (remove_entry k st) else st)"
  by pat_completeness auto
termination
  by (relation "measure (\<lambda>(_, _, st). length (cache st))") (auto simp: remove_oldest_decreases)

declare evict.simps [simp del]

text \<open>The flight's task: the upstream result, converted and measured.\<close>

record 'm query_response =
  qr_message :: 'm
  qr_fetched_at :: nat
  qr_generation :: generation

definition flight_result ::
  "('m \<Rightarrow> 'j option) \<Rightarrow> ('j \<Rightarrow> nat option) \<Rightarrow> generation \<Rightarrow> generation \<Rightarrow> 'm query_response outcome \<Rightarrow>
     'j shared_result" where
  "flight_result to_json json_size gen gen_now executed =
     and_then executed (\<lambda>r.
       if qr_generation r \<noteq> gen \<or> gen_now \<noteq> gen then fail SessionChanged
       else and_then (ok_or (to_json (qr_message r)) (client_error_new Protocol)) (\<lambda>json.
         and_then (ok_or (json_size json) (client_error_new Protocol)) (\<lambda>n.
           Inr \<lparr>cr_json = json, cr_fetched_at = qr_fetched_at r, cr_size = n\<rparr>)))"

definition cacheable :: "cache_options \<Rightarrow> client_error option \<Rightarrow> 'j cached_response \<Rightarrow> bool" where
  "cacheable opts err response \<longleftrightarrow>
     err = None \<and> 0 < capacity opts \<and> 0 < ttl opts \<and> cr_size response \<le> max_bytes opts"

definition store :: "cache_options \<Rightarrow> key \<Rightarrow> 'j cached_response \<Rightarrow> nat \<Rightarrow> 'j cache_state \<Rightarrow> 'j cache_state" where
  "store opts k response now st =
     (let st = evict opts (cr_size response) st in
      st\<lparr>bytes := bytes st + cr_size response,
         cache := alist_put k \<lparr>e_response = response, e_expires = now + ttl opts, e_touched = now\<rparr> (cache st)\<rparr>)"

text \<open>The second half of the task, under the lock: cache, publish and end the flight.\<close>

definition complete ::
  "cache_options \<Rightarrow> key \<Rightarrow> nat \<Rightarrow> generation \<Rightarrow> client_error option \<Rightarrow> nat \<Rightarrow> 'j shared_result \<Rightarrow>
     'j cache_state \<Rightarrow> 'j cache_state" where
  "complete opts k f gen_now err now result st =
     (let result = (if gen_now \<noteq> k_generation k then fail SessionChanged else result);
          st = (case result of
                  Inl _ \<Rightarrow> st
                | Inr response \<Rightarrow> if cacheable opts err response then store opts k response now st else st)
      in st\<lparr>results := (results st)(f := Some result), flights := alist_remove k (flights st)\<rparr>)"

text \<open>What ends one wait of the loop: the service stops, or the channel changed or lost its sender.\<close>

datatype wake = Stopped | Changed | SenderGone

text \<open>One round of the waiting loop: \<open>None\<close> means that it goes round again.\<close>

definition receive ::
  "key \<Rightarrow> nat \<Rightarrow> string \<Rightarrow> client_error option \<Rightarrow> generation \<Rightarrow> wake \<Rightarrow> 'j cache_state \<Rightarrow>
     ('j cached_response \<times> string) outcome option" where
  "receive k f status err gen_now wake st =
     (case results st f of
        Some result \<Rightarrow>
          Some (case err of
             Some e \<Rightarrow> Inl e
           | None \<Rightarrow>
               if gen_now \<noteq> k_generation k then fail SessionChanged
               else and_then result (\<lambda>r. Inr (r, status)))
      | None \<Rightarrow>
          (case wake of
             Stopped \<Rightarrow> Some (fail Cancelled)
           | SenderGone \<Rightarrow> Some (fail Protocol)
           | Changed \<Rightarrow> None))"

section \<open>Interleavings\<close>

text \<open>
  The cache with its clock, the backend's current generation and a history of the flights'
  published results.  A generation, once left, does not come back (fresh UUIDs); requests may
  still carry any earlier one, since it is read before the lock is taken.
\<close>

record 'j cache_world =
  c_state :: "'j cache_state"
  c_now :: nat
  c_gen :: generation
  c_seen :: "generation set"
  c_done :: "(key \<times> nat \<times> 'j shared_result) list"
  c_hits :: "(key \<times> 'j cached_response) list"

inductive cache_step :: "cache_options \<Rightarrow> 'j cache_world \<Rightarrow> 'j cache_world \<Rightarrow> bool"
  for opts :: cache_options where
  request: "k_generation k \<in> c_seen w \<Longrightarrow>
    lookup opts k err (c_gen w) (c_now w) (c_state w) = (r, st) \<Longrightarrow>
    cache_step opts w (w\<lparr>c_state := st,
      c_hits := (case r of Answer (Inr (resp, _)) \<Rightarrow> (k, resp) # c_hits w | _ \<Rightarrow> c_hits w)\<rparr>)"
| finish: "map_of (flights (c_state w)) k = Some f \<Longrightarrow>
    cache_step opts w (w\<lparr>c_state := complete opts k f (c_gen w) err (c_now w) result (c_state w),
      c_done := (k, f, if c_gen w \<noteq> k_generation k then fail SessionChanged else result) # c_done w\<rparr>)"
| new_generation: "g \<notin> c_seen w \<Longrightarrow>
    cache_step opts w (w\<lparr>c_gen := g, c_seen := insert g (c_seen w)\<rparr>)"
| clock: "c_now w \<le> t \<Longrightarrow> cache_step opts w (w\<lparr>c_now := t\<rparr>)"

inductive cache_reachable :: "cache_options \<Rightarrow> 'j cache_world \<Rightarrow> bool"
  for opts :: cache_options where
  start: "cache_reachable opts \<lparr>c_state = cache_new, c_now = t, c_gen = g, c_seen = {g}, c_done = [], c_hits = []\<rparr>"
| step: "cache_reachable opts w \<Longrightarrow> cache_step opts w w' \<Longrightarrow> cache_reachable opts w'"

section \<open>The invariant of the state\<close>

definition cache_maps_ok :: "'j cache_state \<Rightarrow> bool" where
  "cache_maps_ok st \<longleftrightarrow>
     distinct (map fst (cache st)) \<and> bytes st = total_size (cache st)"

definition flights_ok :: "cache_options \<Rightarrow> 'j cache_state \<Rightarrow> bool" where
  "flights_ok opts st \<longleftrightarrow>
     distinct (map fst (flights st)) \<and> distinct (map snd (flights st))
     \<and> length (flights st) \<le> max_inflight opts
     \<and> (\<forall>f\<in>snd ` set (flights st). f < next_flight st)
     \<and> (\<forall>f. f \<in> snd ` set (flights st) \<or> next_flight st \<le> f \<longrightarrow> results st f = None)"

definition limits_ok :: "cache_options \<Rightarrow> 'j cache_state \<Rightarrow> bool" where
  "limits_ok opts st \<longleftrightarrow> length (cache st) \<le> capacity opts \<and> bytes st \<le> max_bytes opts"

definition apart :: "'j cache_state \<Rightarrow> bool" where
  "apart st \<longleftrightarrow> fst ` set (cache st) \<inter> fst ` set (flights st) = {}"

definition cache_inv :: "cache_options \<Rightarrow> 'j cache_state \<Rightarrow> bool" where
  "cache_inv opts st \<longleftrightarrow> cache_maps_ok st \<and> flights_ok opts st \<and> limits_ok opts st \<and> apart st"

lemma total_size_simps [simp]:
  "total_size [] = 0" "total_size (x # xs) = entry_size x + total_size xs"
  "total_size (xs @ ys) = total_size xs + total_size ys"
  by (simp_all add: total_size_def)

lemma total_size_filter: "total_size (filter P kvs) \<le> total_size kvs"
  by (induction kvs) auto

lemma total_size_remove:
  "distinct (map fst kvs) \<Longrightarrow> map_of kvs k = Some e \<Longrightarrow>
     total_size (alist_remove k kvs) + cr_size (e_response e) = total_size kvs"
proof (induction kvs)
  case (Cons x kvs)
  show ?case
  proof (cases "fst x = k")
    case True
    with Cons.prems have "alist_remove k (x # kvs) = kvs"
      by (auto simp: alist_remove_def filter_id_conv image_iff)
    with True Cons.prems show ?thesis by (auto simp: entry_size_def)
  next
    case False
    with Cons show ?thesis by (auto simp: alist_remove_def)
  qed
qed simp

lemma total_size_touch:
  "map_of kvs k = Some e \<Longrightarrow> cr_size (e_response e') = cr_size (e_response e) \<Longrightarrow>
     total_size (alist_put k e' kvs) = total_size kvs"
  by (induction kvs) (auto simp: entry_size_def split: if_splits)

lemma total_size_new: "k \<notin> fst ` set kvs \<Longrightarrow> total_size (alist_put k e kvs) = total_size kvs + cr_size (e_response e)"
  by (simp add: alist_put_new entry_size_def)

lemma length_touch: "k \<in> fst ` set kvs \<Longrightarrow> length (alist_put k e kvs) = length kvs"
  using arg_cong [OF keys_alist_put, of length k e kvs] by simp

lemma alist_put_mem:
  "distinct (map fst kvs) \<Longrightarrow> set (alist_put k v kvs) = insert (k, v) {x\<in>set kvs. fst x \<noteq> k}"
  by (induction kvs) (auto simp: image_iff split: if_splits, force)

subsection \<open>Eviction\<close>

lemma remove_entry_frame [simp]:
  "flights (remove_entry k st) = flights st" "results (remove_entry k st) = results st"
  "next_flight (remove_entry k st) = next_flight st"
  by (auto simp: remove_entry_def split: option.splits)

lemma remove_entry_subset: "set (cache (remove_entry k st)) \<subseteq> set (cache st)"
  by (auto simp: remove_entry_def alist_remove_def split: option.splits)

lemma remove_entry_maps_ok:
  "cache_maps_ok st \<Longrightarrow> cache_maps_ok (remove_entry k st)"
  using total_size_remove [of "cache st" k]
  by (force simp: cache_maps_ok_def remove_entry_def split: option.splits)

lemma remove_entry_accounted:
  "cache_maps_ok st \<Longrightarrow> map_of (cache st) k = Some e \<Longrightarrow> cr_size (e_response e) \<le> bytes st"
  using total_size_remove [of "cache st" k e] by (auto simp: cache_maps_ok_def)

lemma evict_frame:
  "flights (evict opts n st) = flights st \<and> results (evict opts n st) = results st
   \<and> next_flight (evict opts n st) = next_flight st \<and> set (cache (evict opts n st)) \<subseteq> set (cache st)
   \<and> (cache_maps_ok st \<longrightarrow> cache_maps_ok (evict opts n st))"
proof (induction opts n st rule: evict.induct)
  case (1 opts n st)
  show ?case
  proof (cases "oldest (cache st)")
    case None
    then show ?thesis by (subst (1 2 3 4 5) evict.simps) (simp add: evict.simps [of opts n st])
  next
    case (Some k)
    show ?thesis
    proof (cases "over_limit opts n st")
      case True
      with Some have "evict opts n st = evict opts n (remove_entry k st)"
        by (subst evict.simps) simp
      with 1 [OF Some True] remove_entry_subset [of k st] remove_entry_maps_ok [of st k]
      show ?thesis by auto
    next
      case False
      with Some have "evict opts n st = st" by (subst evict.simps) simp
      then show ?thesis by simp
    qed
  qed
qed

lemma evict_empty: "cache st = [] \<Longrightarrow> evict opts n st = st"
  by (subst evict.simps) simp

lemma evict_makes_room:
  "cache (evict opts n st) = [] \<or> \<not> over_limit opts n (evict opts n st)"
proof (induction opts n st rule: evict.induct)
  case (1 opts n st)
  show ?case
  proof (cases "oldest (cache st)")
    case None
    then have "evict opts n st = st" by (subst evict.simps) simp
    with None show ?thesis by simp
  next
    case (Some k)
    with 1 show ?thesis
      by (cases "over_limit opts n st") (simp_all add: evict.simps [of opts n st])
  qed
qed

lemma evict_maps_ok: "cache_maps_ok st \<Longrightarrow> cache_maps_ok (evict opts n st)"
  and evict_subset: "set (cache (evict opts n st)) \<subseteq> set (cache st)"
  and evict_simps [simp]: "flights (evict opts n st) = flights st"
    "results (evict opts n st) = results st" "next_flight (evict opts n st) = next_flight st"
  using evict_frame [of opts n st] by blast+

lemma evict_fits:
  assumes "cache_maps_ok st" "n \<le> max_bytes opts" "0 < capacity opts"
  shows "length (cache (evict opts n st)) < capacity opts \<and> bytes (evict opts n st) + n \<le> max_bytes opts"
proof -
  have "cache (evict opts n st) = [] \<Longrightarrow> bytes (evict opts n st) = 0"
    using evict_maps_ok [OF assms(1), of opts n] by (simp add: cache_maps_ok_def)
  with evict_makes_room [of opts n st] assms show ?thesis by (auto simp: over_limit_def)
qed

subsection \<open>The operations\<close>

lemma prune_simps [simp]:
  "flights (prune g t st) = flights st" "results (prune g t st) = results st"
  "next_flight (prune g t st) = next_flight st"
  "cache (prune g t st) = filter (\<lambda>(k, e). k_generation k = g \<and> t < e_expires e) (cache st)"
  "bytes (prune g t st) = total_size (cache (prune g t st))"
  by (simp_all add: prune_def Let_def)

lemma distinct_map_filter_fst: "distinct (map fst kvs) \<Longrightarrow> distinct (map fst (filter P kvs))"
  by (induction kvs) auto

lemma cache_inv_shrink:
  assumes "cache_inv opts st" "cache_maps_ok st'" "set (cache st') \<subseteq> set (cache st)"
    and "length (cache st') \<le> length (cache st)" "bytes st' \<le> bytes st"
    and "flights st' = flights st" "results st' = results st" "next_flight st' = next_flight st"
  shows "cache_inv opts st'"
proof -
  have "fst ` set (cache st') \<subseteq> fst ` set (cache st)" using assms(3) by (rule image_mono)
  then have "apart st'" using assms(1,6) unfolding cache_inv_def apart_def by auto
  with assms show ?thesis by (simp add: cache_inv_def limits_ok_def flights_ok_def)
qed

lemma cache_inv_prune:
  assumes "cache_inv opts st"
  shows "cache_inv opts (prune g t st)"
proof (rule cache_inv_shrink [OF assms])
  show "cache_maps_ok (prune g t st)"
    using assms by (simp add: cache_inv_def cache_maps_ok_def distinct_map_filter_fst)
  show "bytes (prune g t st) \<le> bytes st"
    using assms by (simp add: cache_inv_def cache_maps_ok_def total_size_filter)
qed auto

lemma map_of_mem: "map_of kvs k = Some e \<Longrightarrow> k \<in> fst ` set kvs"
  by (force dest: map_of_SomeD)

lemma cache_inv_touch:
  assumes "cache_inv opts st" "map_of (cache st) k = Some e"
  shows "cache_inv opts (st\<lparr>cache := alist_put k (e\<lparr>e_touched := t\<rparr>) (cache st)\<rparr>)"
proof -
  have "total_size (alist_put k (e\<lparr>e_touched := t\<rparr>) (cache st)) = total_size (cache st)"
    by (rule total_size_touch [OF assms(2)]) simp
  with assms map_of_mem [OF assms(2)] show ?thesis
    by (auto simp: cache_inv_def cache_maps_ok_def limits_ok_def apart_def flights_ok_def length_touch
        insert_absorb)
qed

lemma cache_inv_start_flight:
  assumes "cache_inv opts st" "map_of (cache st) k = None" "map_of (flights st) k = None"
    and "length (flights st) < max_inflight opts"
  shows "cache_inv opts (st\<lparr>flights := alist_put k (next_flight st) (flights st),
     next_flight := next_flight st + 1\<rparr>)"
proof -
  have new: "k \<notin> fst ` set (flights st)" "k \<notin> fst ` set (cache st)"
    using assms(2,3) by (auto simp: map_of_eq_None_iff)
  have "next_flight st \<notin> snd ` set (flights st)"
    using assms(1) by (auto simp: cache_inv_def flights_ok_def)
  with new assms(1,4) show ?thesis
    by (auto simp: cache_inv_def cache_maps_ok_def limits_ok_def apart_def flights_ok_def alist_put_new)
qed

lemma cache_inv_lookup:
  assumes "cache_inv opts st" "lookup opts k err g t st = (r, st')"
  shows "cache_inv opts st'"
proof -
  let ?p = "prune (k_generation k) t st"
  have p: "cache_inv opts ?p" using assms(1) by (rule cache_inv_prune)
  show ?thesis
  proof (cases "map_of (cache ?p) k")
    case (Some e)
    with assms(2) have "st' = ?p \<or> st' = ?p\<lparr>cache := alist_put k (e\<lparr>e_touched := t\<rparr>) (cache ?p)\<rparr>"
      unfolding lookup_def Let_def by (auto simp del: prune_simps split: option.splits if_split_asm)
    with p cache_inv_touch [OF p Some] show ?thesis by auto
  next
    case None
    show ?thesis
    proof (cases "map_of (flights ?p) k = None \<and> length (flights ?p) < max_inflight opts")
      case True
      with assms(2) None have "st' = ?p\<lparr>flights := alist_put k (next_flight ?p) (flights ?p),
          next_flight := next_flight ?p + 1\<rparr>"
        unfolding lookup_def Let_def by (auto simp del: prune_simps)
      with cache_inv_start_flight [OF p None] True show ?thesis by simp
    next
      case False
      with assms(2) None have "st' = ?p"
        unfolding lookup_def Let_def
        by (auto simp del: prune_simps split: option.splits if_split_asm)
      with p show ?thesis by simp
    qed
  qed
qed

lemma cache_inv_store:
  assumes "cache_inv opts st" "cacheable opts err resp" "k \<notin> fst ` set (cache st)"
  shows "cache_maps_ok (store opts k resp t st) \<and> limits_ok opts (store opts k resp t st)
    \<and> fst ` set (cache (store opts k resp t st)) \<subseteq> insert k (fst ` set (cache st))
    \<and> flights (store opts k resp t st) = flights st \<and> results (store opts k resp t st) = results st
    \<and> next_flight (store opts k resp t st) = next_flight st"
proof -
  let ?ev = "evict opts (cr_size resp) st"
  have maps: "cache_maps_ok st" using assms(1) by (simp add: cache_inv_def)
  have "fst ` set (cache ?ev) \<subseteq> fst ` set (cache st)" by (rule image_mono [OF evict_subset])
  with assms(3) have new: "k \<notin> fst ` set (cache ?ev)" by blast
  have fits: "length (cache ?ev) < capacity opts" "bytes ?ev + cr_size resp \<le> max_bytes opts"
    using evict_fits [OF maps, of "cr_size resp" opts] assms(2) by (auto simp: cacheable_def)
  show ?thesis
    using evict_maps_ok [OF maps, of opts "cr_size resp"] fits new evict_subset [of opts "cr_size resp" st]
    by (auto simp: store_def Let_def cache_maps_ok_def limits_ok_def alist_put_new entry_size_def)
qed

lemma snd_alist_remove:
  assumes "distinct (map snd kvs)" "map_of kvs k = Some f"
  shows "snd ` set (alist_remove k kvs) \<subseteq> snd ` set kvs - {f} \<and> distinct (map snd (alist_remove k kvs))"
proof -
  have "(k, f) \<in> set kvs" using assms(2) by (rule map_of_SomeD)
  then have "f \<notin> snd ` set (alist_remove k kvs)"
    using assms(1) by (fastforce simp: alist_remove_def distinct_map inj_on_def)
  moreover have "distinct (map snd (alist_remove k kvs))"
    using assms(1) by (induction kvs) (auto simp: alist_remove_def)
  ultimately show ?thesis by (auto simp: alist_remove_def)
qed

lemma cache_inv_complete:
  assumes inv: "cache_inv opts st" and f: "map_of (flights st) k = Some f"
  shows "cache_inv opts (complete opts k f g err t result st)"
proof -
  have kf: "k \<in> fst ` set (flights st)" using f by (rule map_of_mem)
  then have new: "k \<notin> fst ` set (cache st)" using inv by (auto simp: cache_inv_def apart_def)
  define st1 where "st1 = (case (if g \<noteq> k_generation k then fail SessionChanged else result) of
      Inl _ \<Rightarrow> st | Inr r \<Rightarrow> if cacheable opts err r then store opts k r t st else st)"
  have st1: "cache_maps_ok st1 \<and> limits_ok opts st1 \<and> fst ` set (cache st1) \<subseteq> insert k (fst ` set (cache st))
      \<and> flights st1 = flights st \<and> results st1 = results st \<and> next_flight st1 = next_flight st"
    using cache_inv_store [OF inv _ new] inv
    by (auto simp: st1_def cache_inv_def split: sum.splits)
  obtain r where c: "complete opts k f g err t result st =
      st1\<lparr>results := (results st1)(f := Some r), flights := alist_remove k (flights st1)\<rparr>"
    by (simp add: complete_def st1_def Let_def)
  have fl: "flights_ok opts st" using inv by (simp add: cache_inv_def)
  have rm: "snd ` set (alist_remove k (flights st)) \<subseteq> snd ` set (flights st) - {f}"
    "distinct (map snd (alist_remove k (flights st)))"
    using snd_alist_remove [OF _ f] fl by (auto simp: flights_ok_def)
  have "f < next_flight st" using fl map_of_SomeD [OF f] by (force simp: flights_ok_def)
  have "flights_ok opts (complete opts k f g err t result st)"
  proof -
    let ?F = "snd ` set (flights st)" and ?R = "snd ` set (alist_remove k (flights st))"
    have parts: "distinct (map fst (flights st))" "length (flights st) \<le> max_inflight opts"
      "\<forall>b\<in>?F. b < next_flight st" "\<forall>b. b \<in> ?F \<or> next_flight st \<le> b \<longrightarrow> results st b = None"
      using fl unfolding flights_ok_def by - (elim conjE, assumption)+
    have lt: "\<forall>b\<in>?R. b < next_flight st" using rm(1) parts(3) by (meson DiffD1 subsetD)
    have none: "((results st)(f := Some r)) b = None" if "b \<in> ?R \<or> next_flight st \<le> b" for b
    proof -
      have "b \<noteq> f" using that rm(1) \<open>f < next_flight st\<close> by auto
      moreover have "b \<in> ?F \<or> next_flight st \<le> b" using that rm(1) by blast
      then have "results st b = None" by (rule mp [OF spec [OF parts(4)]])
      ultimately show ?thesis by (simp del: set_map)
    qed
    have eqs: "flights st1 = flights st" "results st1 = results st" "next_flight st1 = next_flight st"
      using st1 by blast+
    have len: "length (alist_remove k (flights st)) \<le> max_inflight opts"
      using length_alist_remove_le [of k "flights st"] parts(2) by simp
    show ?thesis
      unfolding c flights_ok_def
      using lt none len rm(2) parts(1) by (simp add: eqs del: set_map)
  qed
  moreover have "apart (complete opts k f g err t result st)"
    using st1 inv unfolding c by (auto simp: cache_inv_def apart_def)
  ultimately show ?thesis
    using st1 unfolding c by (simp add: cache_inv_def cache_maps_ok_def limits_ok_def)
qed

section \<open>The invariant of the run\<close>

definition history_ok :: "'j cache_world \<Rightarrow> bool" where
  "history_ok w \<longleftrightarrow>
     (\<forall>(k, e)\<in>set (cache (c_state w)). \<exists>f. (k, f, Inr (e_response e)) \<in> set (c_done w))
     \<and> (\<forall>(k, r)\<in>set (c_hits w). \<exists>f. (k, f, Inr r) \<in> set (c_done w))
     \<and> (\<forall>(k, f, r)\<in>set (c_done w). results (c_state w) f = Some r)
     \<and> (\<forall>f r. results (c_state w) f = Some r \<longrightarrow> (\<exists>k. (k, f, r) \<in> set (c_done w)))"

lemma lookup_results [simp]: "results (snd (lookup opts k err g t st)) = results st"
  by (simp add: lookup_def Let_def split: option.splits)

lemma lookup_cache:
  assumes "lookup opts k err g t st = (r, st')" "distinct (map fst (cache st))" "(k', e') \<in> set (cache st')"
  shows "\<exists>e. (k', e) \<in> set (cache st) \<and> e_response e' = e_response e"
proof -
  let ?p = "prune (k_generation k) t st"
  have sub: "set (cache ?p) \<subseteq> set (cache st)" by auto
  have d: "distinct (map fst (cache ?p))" using assms(2) by (simp add: distinct_map_filter_fst)
  have "cache st' = cache ?p \<or> (\<exists>e. map_of (cache ?p) k = Some e
      \<and> cache st' = alist_put k (e\<lparr>e_touched := t\<rparr>) (cache ?p))"
    using assms(1) unfolding lookup_def Let_def
    by (auto simp del: prune_simps(4) split: option.splits if_split_asm)
  then show ?thesis
  proof
    assume "cache st' = cache ?p"
    with assms(3) have "(k', e') \<in> set (cache ?p)" by simp
    with sub have "(k', e') \<in> set (cache st)" by blast
    then show ?thesis by blast
  next
    assume "\<exists>e. map_of (cache ?p) k = Some e \<and> cache st' = alist_put k (e\<lparr>e_touched := t\<rparr>) (cache ?p)"
    then obtain e where e: "map_of (cache ?p) k = Some e"
      "cache st' = alist_put k (e\<lparr>e_touched := t\<rparr>) (cache ?p)" by blast
    have "(k, e) \<in> set (cache ?p)" using e(1) by (rule map_of_SomeD)
    with e(2) assms(3) sub show ?thesis unfolding alist_put_mem [OF d] e(2) by force
  qed
qed

text \<open>A hit is an unexpired entry of the request's own key, and the generation still stands.\<close>

lemma lookup_hit:
  assumes "lookup opts k err g t st = (Answer (Inr (resp, status)), st')"
  shows "status = ''HIT'' \<and> err = None \<and> g = k_generation k
    \<and> (\<exists>e. (k, e) \<in> set (cache st) \<and> e_response e = resp \<and> t < e_expires e)"
proof -
  let ?p = "prune (k_generation k) t st"
  obtain e where e: "map_of (cache ?p) k = Some e" "e_response e = resp" "status = ''HIT''" "err = None"
    "g = k_generation k"
    using assms unfolding lookup_def Let_def
    by (auto simp del: prune_simps(4) split: option.splits if_split_asm)
  then have "(k, e) \<in> set (cache ?p)" by (intro map_of_SomeD)
  with e show ?thesis by auto
qed

definition cache_world_inv :: "cache_options \<Rightarrow> 'j cache_world \<Rightarrow> bool" where
  "cache_world_inv opts w \<longleftrightarrow> cache_inv opts (c_state w) \<and> history_ok w"

lemma cache_world_inv_request:
  assumes "cache_world_inv opts w" "lookup opts k err (c_gen w) (c_now w) (c_state w) = (r, st)"
  shows "cache_world_inv opts (w\<lparr>c_state := st,
      c_hits := (case r of Answer (Inr (resp, _)) \<Rightarrow> (k, resp) # c_hits w | _ \<Rightarrow> c_hits w)\<rparr>)"
proof -
  have inv: "cache_inv opts (c_state w)" "history_ok w" using assms(1) by (simp_all add: cache_world_inv_def)
  have d: "distinct (map fst (cache (c_state w)))" using inv(1) by (simp add: cache_inv_def cache_maps_ok_def)
  have res: "results st = results (c_state w)" using assms(2) lookup_results by (metis snd_conv)
  have entries: "\<exists>f. (k', f, Inr (e_response e')) \<in> set (c_done w)" if "(k', e') \<in> set (cache st)" for k' e'
    using lookup_cache [OF assms(2) d that] inv(2) by (force simp: history_ok_def)
  have hit: "\<exists>f. (k, f, Inr resp) \<in> set (c_done w)" if "r = Answer (Inr (resp, s))" for resp s
  proof -
    obtain e where "(k, e) \<in> set (cache (c_state w))" "e_response e = resp"
      using lookup_hit assms(2) \<open>r = _\<close> by blast
    then show ?thesis using inv(2) by (force simp: history_ok_def)
  qed
  have "history_ok (w\<lparr>c_state := st,
      c_hits := (case r of Answer (Inr (resp, _)) \<Rightarrow> (k, resp) # c_hits w | _ \<Rightarrow> c_hits w)\<rparr>)"
    using inv(2) entries hit res
    by (auto simp: history_ok_def split: step_result.splits sum.splits)
  with cache_inv_lookup [OF inv(1) assms(2)] show ?thesis by (simp add: cache_world_inv_def)
qed

lemma complete_cache:
  assumes "(k', e') \<in> set (cache (complete opts k f g err t result st))" "distinct (map fst (cache st))"
    and "cache_maps_ok st"
  shows "(k', e') \<in> set (cache st) \<or> k' = k \<and> g = k_generation k \<and> result = Inr (e_response e')"
proof -
  have sub: "set (cache (evict opts n st)) \<subseteq> set (cache st)" for n by (rule evict_subset)
  have d: "distinct (map fst (cache (evict opts n st)))" for n
    using evict_maps_ok [OF assms(3)] by (simp add: cache_maps_ok_def)
  from assms(1) show ?thesis
    unfolding complete_def store_def Let_def
    by (auto simp: alist_put_mem [OF d] dest: subsetD [OF sub] split: sum.splits if_split_asm)
qed

lemma complete_results:
  "results (complete opts k f g err t result st) =
     (results st)(f := Some (if g \<noteq> k_generation k then fail SessionChanged else result))"
  by (auto simp: complete_def Let_def store_def split: sum.splits)

lemma cache_world_inv_finish:
  assumes "cache_world_inv opts w" "map_of (flights (c_state w)) k = Some f"
  shows "cache_world_inv opts (w\<lparr>c_state := complete opts k f (c_gen w) err (c_now w) result (c_state w),
      c_done := (k, f, if c_gen w \<noteq> k_generation k then fail SessionChanged else result) # c_done w\<rparr>)"
proof -
  have inv: "cache_inv opts (c_state w)" "history_ok w" using assms(1) by (simp_all add: cache_world_inv_def)
  have m: "cache_maps_ok (c_state w)" using inv(1) by (simp add: cache_inv_def)
  have "f \<in> snd ` set (flights (c_state w))" using map_of_SomeD [OF assms(2)] by force
  then have "results (c_state w) f = None" using inv(1) by (simp add: cache_inv_def flights_ok_def)
  then have fresh: "(k', f, r) \<notin> set (c_done w)" for k' r using inv(2) by (force simp: history_ok_def)
  let ?c = "complete opts k f (c_gen w) err (c_now w) result (c_state w)"
  let ?r = "if c_gen w \<noteq> k_generation k then fail SessionChanged else result"
  have "\<exists>f'. (k', f', Inr (e_response e')) \<in> insert (k, f, ?r) (set (c_done w))"
    if "(k', e') \<in> set (cache ?c)" for k' e'
    using complete_cache [OF that _ m] m inv(2)
    by (force simp: cache_maps_ok_def history_ok_def)
  with inv(2) fresh have "history_ok (w\<lparr>c_state := ?c, c_done := (k, f, ?r) # c_done w\<rparr>)"
    unfolding history_ok_def by (auto simp: complete_results)
  with cache_inv_complete [OF inv(1) assms(2)] show ?thesis by (simp add: cache_world_inv_def)
qed

lemma cache_world_inv_reachable: "cache_reachable opts w \<Longrightarrow> cache_world_inv opts w"
proof (induction rule: cache_reachable.induct)
  case (start t g)
  show ?case
    by (simp add: cache_world_inv_def history_ok_def cache_new_def cache_inv_def cache_maps_ok_def
        flights_ok_def limits_ok_def apart_def)
next
  case (step w w')
  from step.hyps(2) step.IH show ?case
  proof cases
    case (request k err r st)
    with cache_world_inv_request [OF step.IH] show ?thesis by simp
  next
    case (finish k f err result)
    with cache_world_inv_finish [OF step.IH] show ?thesis by simp
  qed (simp_all add: cache_world_inv_def history_ok_def)
qed

section \<open>A sample run\<close>

definition sample_key :: key where
  "sample_key = \<lparr>k_generation = 0, k_method = ''whoami'', k_request = []\<rparr>"

definition sample_response :: "unit cached_response" where
  "sample_response = \<lparr>cr_json = (), cr_fetched_at = 5, cr_size = 2\<rparr>"

definition sample_cached :: "unit cache_world" where
  "sample_cached =
     \<lparr>c_state = \<lparr>cache = [(sample_key, \<lparr>e_response = sample_response, e_expires = 15000, e_touched = 0\<rparr>)],
        flights = [], bytes = 2, results = (\<lambda>_. None)(0 := Some (Inr sample_response)), next_flight = 1\<rparr>,
      c_now = 0, c_gen = 0, c_seen = {0}, c_done = [(sample_key, 0, Inr sample_response)], c_hits = []\<rparr>"

lemma sample_cached_reachable: "cache_reachable default_cache_options sample_cached"
proof -
  let ?w0 = "\<lparr>c_state = cache_new, c_now = 0, c_gen = 0, c_seen = {0}, c_done = [], c_hits = []\<rparr> :: unit cache_world"
  let ?s1 = "\<lparr>cache = [], flights = [(sample_key, 0)], bytes = 0, results = (\<lambda>_. None), next_flight = 1\<rparr> :: unit cache_state"
  have "cache_reachable default_cache_options ?w0" by (rule cache_reachable.start)
  moreover have l: "lookup default_cache_options sample_key None (c_gen ?w0) (c_now ?w0) (c_state ?w0)
      = (StartFlight 0 ''MISS'', ?s1)"
    by (simp add: lookup_def Let_def cache_new_def prune_def default_cache_options_def)
  have "cache_step default_cache_options ?w0 (?w0\<lparr>c_state := ?s1\<rparr>)"
    using cache_step.request [OF _ l] by (simp add: sample_key_def)
  ultimately have r1: "cache_reachable default_cache_options (?w0\<lparr>c_state := ?s1\<rparr>)"
    by (rule cache_reachable.step)
  have g: "k_generation sample_key = 0" "cr_size sample_response = 2"
    by (simp_all add: sample_key_def sample_response_def)
  have c: "complete default_cache_options sample_key 0 0 None 0 (Inr sample_response) ?s1 = c_state sample_cached"
    by (simp add: complete_def Let_def cacheable_def store_def g evict_empty)
      (simp add: default_cache_options_def alist_remove_def sample_cached_def)
  have m: "map_of (flights (c_state (?w0\<lparr>c_state := ?s1\<rparr>))) sample_key = Some 0" by simp
  have "cache_step default_cache_options (?w0\<lparr>c_state := ?s1\<rparr>) sample_cached"
    using cache_step.finish [OF m, where opts = default_cache_options and err = None
      and result = "Inr sample_response"] c
    by (simp add: g) (simp add: sample_cached_def)
  with r1 show ?thesis by (rule cache_reachable.step)
qed

section \<open>Properties\<close>

text \<open>
  C8: the cache stays within its bounds.  In every reachable state there are at most
  \<open>capacity\<close> entries, the byte counter is exactly the sum of the entries' sizes and at most
  \<open>max_bytes\<close>, at most \<open>max_inflight\<close> requests are in flight, no two for the same key, and no
  key is both cached and in flight.
\<close>

theorem cache_stays_within_bounds:
  assumes "cache_reachable opts w"
  shows "length (cache (c_state w)) \<le> capacity opts \<and> bytes (c_state w) = total_size (cache (c_state w))
    \<and> bytes (c_state w) \<le> max_bytes opts \<and> length (flights (c_state w)) \<le> max_inflight opts
    \<and> distinct (map fst (cache (c_state w)) @ map fst (flights (c_state w)))"
  using cache_world_inv_reachable [OF assms]
  by (auto simp: cache_world_inv_def cache_inv_def limits_ok_def cache_maps_ok_def flights_ok_def apart_def)

theorem cache_stays_within_bounds_witness:
  "cache_reachable default_cache_options sample_cached \<and> cache (c_state sample_cached) \<noteq> []
   \<and> bytes (c_state sample_cached) = total_size (cache (c_state sample_cached))"
  using cache_stays_within_bounds [OF sample_cached_reachable] sample_cached_reachable
  by (simp add: sample_cached_def)

text \<open>
  C7: a cache hit is genuine.  An answer given without waiting is marked \<open>HIT\<close>, its
  generation is the backend's at that moment, the backend reports no error, the entry had not
  expired, and the response is one that a request with the very same generation, method and
  request bytes obtained upstream.
\<close>

theorem cache_hit_is_genuine:
  assumes "cache_reachable opts w"
    and "lookup opts k err (c_gen w) (c_now w) (c_state w) = (Answer (Inr (resp, status)), st)"
  shows "status = ''HIT'' \<and> err = None \<and> k_generation k = c_gen w
    \<and> (\<exists>e. (k, e) \<in> set (cache (c_state w)) \<and> e_response e = resp \<and> c_now w < e_expires e)
    \<and> (\<exists>f. (k, f, Inr resp) \<in> set (c_done w))"
proof -
  from lookup_hit [OF assms(2)] obtain e where e: "(k, e) \<in> set (cache (c_state w))" "e_response e = resp"
    "c_now w < e_expires e" "status = ''HIT''" "err = None" "c_gen w = k_generation k" by auto
  have "history_ok w" using cache_world_inv_reachable [OF assms(1)] by (simp add: cache_world_inv_def)
  with e have "\<exists>f. (k, f, Inr resp) \<in> set (c_done w)" by (force simp: history_ok_def)
  with e show ?thesis by auto
qed

theorem cache_hit_is_genuine_witness:
  "\<exists>st f. lookup default_cache_options sample_key None 0 0 (c_state sample_cached)
      = (Answer (Inr (sample_response, ''HIT'')), st)
    \<and> (sample_key, f, Inr sample_response) \<in> set (c_done sample_cached)"
proof -
  have w: "c_gen sample_cached = 0" "c_now sample_cached = 0" by (simp_all add: sample_cached_def)
  obtain st where l: "lookup default_cache_options sample_key None (c_gen sample_cached) (c_now sample_cached)
      (c_state sample_cached) = (Answer (Inr (sample_response, ''HIT'')), st)"
    by (simp add: lookup_def Let_def prune_def sample_cached_def sample_key_def)
  from cache_hit_is_genuine [OF sample_cached_reachable l] l w show ?thesis by auto
qed

text \<open>
  one upstream request per key.  A request starts a flight only when its key is
  neither cached (unexpired) nor in flight, and while that flight runs every other request
  for the key, whatever the clock and the backend say, waits for it.
\<close>

theorem requests_are_coalesced:
  assumes "cache_reachable opts w"
    and "lookup opts k err (c_gen w) (c_now w) (c_state w) = (StartFlight f status, st)"
  shows "map_of (flights (c_state w)) k = None \<and> results st f = None \<and> map_of (flights st) k = Some f
    \<and> fst (lookup opts k err' g' t' st) = AwaitFlight f ''COALESCED''"
proof -
  let ?p = "prune (k_generation k) (c_now w) (c_state w)"
  have f: "map_of (cache ?p) k = None" "map_of (flights (c_state w)) k = None" "f = next_flight (c_state w)"
    "st = ?p\<lparr>flights := alist_put k f (flights ?p), next_flight := f + 1\<rparr>"
    using assms(2) unfolding lookup_def Let_def
    by (auto simp del: prune_simps(4,5) split: option.splits if_split_asm)
  have "flights_ok opts (c_state w)"
    using cache_world_inv_reachable [OF assms(1)] by (simp add: cache_world_inv_def cache_inv_def)
  then have "results (c_state w) f = None" using f(3) by (simp add: flights_ok_def)
  moreover have "map_of (cache (prune (k_generation k) t' st)) k = None"
  proof -
    have "k \<notin> fst ` set (cache st)" using f(1,4) by (simp add: map_of_eq_None_iff del: prune_simps(4,5))
    then have "k \<notin> fst ` set (cache (prune (k_generation k) t' st))" by force
    then show ?thesis by (simp add: map_of_eq_None_iff)
  qed
  ultimately show ?thesis
    using f by (simp add: lookup_def [of opts k err' g' t'] Let_def del: prune_simps(4,5))
qed

theorem requests_are_coalesced_witness:
  "\<exists>st :: unit cache_state. lookup default_cache_options (sample_key\<lparr>k_method := ''circle''\<rparr>) None 0 0
        (c_state sample_cached) = (StartFlight 1 ''MISS'', st)
    \<and> fst (lookup default_cache_options (sample_key\<lparr>k_method := ''circle''\<rparr>) None 0 7 st)
        = AwaitFlight 1 ''COALESCED''"
proof -
  let ?k = "sample_key\<lparr>k_method := ''circle''\<rparr>"
  have w: "c_gen sample_cached = 0" "c_now sample_cached = 0" by (simp_all add: sample_cached_def)
  obtain st where l: "lookup default_cache_options ?k None (c_gen sample_cached) (c_now sample_cached)
      (c_state sample_cached) = (StartFlight 1 ''MISS'', st)"
    by (simp add: lookup_def Let_def prune_def sample_cached_def sample_key_def default_cache_options_def)
  from requests_are_coalesced [OF sample_cached_reachable l, of None 0 7] l w show ?thesis by auto
qed

end
