(* ===== verification/Session_Pool.thy ===== *)
theory Session_Pool
  imports Managed_Steps Response_Cache
begin

text \<open>
  The pool of independent sessions (\<open>server/src/pool.rs\<close>): round robin with per-member
  cooldown.  A member's client is known through the trait \<open>QueryClient\<close> only, so the
  operations take its \<open>generation\<close> and \<open>query_error\<close> as arguments, and what is proved of them
  is proved inside the contract of the trait.
\<close>

definition MAX_SESSIONS :: nat where
  "MAX_SESSIONS = 32"

definition TRANSIENT_COOLDOWN :: nat where
  "TRANSIENT_COOLDOWN = 5000"

record 's member =
  m_client :: 's
  m_requests :: u64
  m_errors :: u64
  m_cooldown :: "(nat \<times> generation \<times> error_kind) option"

record 's pool =
  members :: "'s member list"
  next_member :: nat
  pool_stopped :: bool

definition pool_new :: "cache_options \<Rightarrow> 's list \<Rightarrow> bool \<Rightarrow> 's pool outcome" where
  "pool_new opts clients stopped =
     and_then (options_validate opts) (\<lambda>_.
       if MAX_SESSIONS < length clients then fail InvalidConfig
       else Inr \<lparr>members = map (\<lambda>c. \<lparr>m_client = c, m_requests = 0, m_errors = 0, m_cooldown = None\<rparr>) clients,
                 next_member = 0, pool_stopped = stopped\<rparr>)"

definition cooldown_error :: "('s \<Rightarrow> generation) \<Rightarrow> nat \<Rightarrow> 's member \<Rightarrow> client_error option \<times> 's member" where
  "cooldown_error gen now m =
     (case m_cooldown m of
        Some (until, generation, k) \<Rightarrow>
          if generation = gen (m_client m) \<and> now < until then (Some (client_error_new k), m)
          else (None, m\<lparr>m_cooldown := None\<rparr>)
      | None \<Rightarrow> (None, m))"

text \<open>The admission of one member: the cooldown, then the client's own check.\<close>

definition member_check ::
  "('s \<Rightarrow> generation) \<Rightarrow> (bool \<Rightarrow> 's \<Rightarrow> client_error option \<times> 's) \<Rightarrow> nat \<Rightarrow> bool \<Rightarrow> 's member \<Rightarrow>
     client_error option \<times> 's member" where
  "member_check gen qerr now anonymous m =
     (case cooldown_error gen now m of
        (Some e, m') \<Rightarrow> (Some e, m')
      | (None, m') \<Rightarrow>
          (case qerr anonymous (m_client m') of (e, c) \<Rightarrow> (e, m'\<lparr>m_client := c\<rparr>)))"

text \<open>The selection loop over the offsets, from \<open>next\<close> on.\<close>

fun scan ::
  "('s \<Rightarrow> generation) \<Rightarrow> (bool \<Rightarrow> 's \<Rightarrow> client_error option \<times> 's) \<Rightarrow> nat \<Rightarrow> bool \<Rightarrow> nat list \<Rightarrow>
     client_error option \<Rightarrow> 's pool \<Rightarrow> (client_error option + nat) \<times> 's pool" where
  "scan gen qerr now anonymous [] first p = (Inl first, p)"
| "scan gen qerr now anonymous (offset # offsets) first p =
     (let index = (next_member p + offset) mod length (members p);
          (error, m) = (if 1 < length (members p)
                        then member_check gen qerr now anonymous (members p ! index)
                        else (None, members p ! index));
          p' = p\<lparr>members := (members p)[index := m]\<rparr> in
      case error of
        Some e \<Rightarrow> scan gen qerr now anonymous offsets (case first of None \<Rightarrow> Some e | Some f \<Rightarrow> Some f) p'
      | None \<Rightarrow> (Inr index, p'\<lparr>next_member := (index + 1) mod length (members p)\<rparr>))"

definition choose_member ::
  "('s \<Rightarrow> generation) \<Rightarrow> (bool \<Rightarrow> 's \<Rightarrow> client_error option \<times> 's) \<Rightarrow> nat \<Rightarrow> bool \<Rightarrow> 's pool \<Rightarrow>
     nat outcome \<times> 's pool" where
  "choose_member gen qerr now anonymous p =
     (case scan gen qerr now anonymous [0..<length (members p)] None p of
        (Inr index, p') \<Rightarrow> (Inr index, p')
      | (Inl (Some e), p') \<Rightarrow> (Inl e, p')
      | (Inl None, p') \<Rightarrow> (fail AuthenticationRequired, p'))"

text \<open>\<open>query\<close> up to the member's cache: the index, and the generation read before the call.\<close>

definition pool_begin ::
  "('s \<Rightarrow> generation) \<Rightarrow> (bool \<Rightarrow> 's \<Rightarrow> client_error option \<times> 's) \<Rightarrow> nat \<Rightarrow> query \<Rightarrow> 's pool \<Rightarrow>
     (nat \<times> generation) outcome \<times> 's pool" where
  "pool_begin gen qerr now q p =
     (if \<not> query_valid q then (fail InvalidRequest, p)
      else if pool_stopped p then (fail Cancelled, p)
      else (case choose_member gen qerr now (m_anonymous (query_method q)) p of
              (Inl e, p') \<Rightarrow> (Inl e, p')
            | (Inr index, p') \<Rightarrow>
                (let m = (members p' ! index)\<lparr>m_requests := m_requests (members p' ! index) + 1\<rparr> in
                 (Inr (index, gen (m_client m)), p'\<lparr>members := (members p')[index := m]\<rparr>))))"

definition transient :: "error_kind \<Rightarrow> bool" where
  "transient k \<longleftrightarrow> k = Transport \<or> k = Timeout \<or> k = Maintenance"

text \<open>\<open>query\<close> after the member's cache has answered; \<open>error\<close> is the error of the result, if any.\<close>

definition pool_note ::
  "('s \<Rightarrow> generation) \<Rightarrow> nat \<Rightarrow> nat \<Rightarrow> generation \<Rightarrow> client_error option \<Rightarrow> 's pool \<Rightarrow> 's pool" where
  "pool_note gen now index generation error p =
     (case error of
        None \<Rightarrow> p
      | Some e \<Rightarrow>
          (let m = members p ! index;
               m = m\<lparr>m_errors := m_errors m + 1\<rparr>;
               m = (if 1 < length (members p) \<and> transient (kind e) \<and> gen (m_client m) = generation
                    then m\<lparr>m_cooldown := Some (now + TRANSIENT_COOLDOWN, generation, kind e)\<rparr> else m)
           in p\<lparr>members := (members p)[index := m]\<rparr>))"

text \<open>\<open>ready\<close>: \<open>managed\<close> says whether the member's managed client (if any) is ready.\<close>

definition pool_ready :: "('s \<Rightarrow> generation) \<Rightarrow> ('s \<Rightarrow> bool) \<Rightarrow> nat \<Rightarrow> 's pool \<Rightarrow> bool" where
  "pool_ready gen managed now p =
     list_ex (\<lambda>m. fst (cooldown_error gen now m) = None \<and> managed (m_client m)) (members p)"

definition ready_sessions :: "('s \<Rightarrow> generation) \<Rightarrow> ('s \<Rightarrow> bool) \<Rightarrow> nat \<Rightarrow> 's pool \<Rightarrow> nat" where
  "ready_sessions gen managed now p =
     length (filter (\<lambda>m. fst (cooldown_error gen now m) = None \<and> managed (m_client m)) (members p))"

section \<open>The specification of the selection\<close>

text \<open>The order in which the members are asked.\<close>

definition rotation :: "nat \<Rightarrow> nat \<Rightarrow> nat list" where
  "rotation next n = map (\<lambda>offset. (next + offset) mod n) [0..<n]"

definition member_error ::
  "('s \<Rightarrow> generation) \<Rightarrow> (bool \<Rightarrow> 's \<Rightarrow> client_error option \<times> 's) \<Rightarrow> nat \<Rightarrow> bool \<Rightarrow> 's pool \<Rightarrow> nat \<Rightarrow>
     client_error option" where
  "member_error gen qerr now anonymous p i =
     (if 1 < length (members p) then fst (member_check gen qerr now anonymous (members p ! i)) else None)"

definition or_else :: "'a option \<Rightarrow> 'a option \<Rightarrow> 'a option" where
  "or_else a b = (case a of None \<Rightarrow> b | Some x \<Rightarrow> Some x)"

lemma or_else_simps [simp]: "or_else None b = b" "or_else (Some x) b = Some x"
  by (simp_all add: or_else_def)

lemma scan_Cons:
  assumes "offset # offsets = os" "i = (next_member p + offset) mod length (members p)"
  shows "\<exists>m. scan gen qerr now a os first p =
     (case member_error gen qerr now a p i of
        Some e \<Rightarrow> scan gen qerr now a offsets (or_else first (Some e)) (p\<lparr>members := (members p)[i := m]\<rparr>)
      | None \<Rightarrow> (Inr i, p\<lparr>members := (members p)[i := m], next_member := (i + 1) mod length (members p)\<rparr>))"
proof (intro exI)
  let ?m = "if 1 < length (members p) then snd (member_check gen qerr now a (members p ! i)) else members p ! i"
  show "scan gen qerr now a os first p =
     (case member_error gen qerr now a p i of
        Some e \<Rightarrow> scan gen qerr now a offsets (or_else first (Some e)) (p\<lparr>members := (members p)[i := ?m]\<rparr>)
      | None \<Rightarrow> (Inr i, p\<lparr>members := (members p)[i := ?m], next_member := (i + 1) mod length (members p)\<rparr>))"
    using assms
    by (auto simp: Let_def member_error_def or_else_def split: option.splits prod.splits)
qed

lemma scan_result:
  assumes "distinct (map (\<lambda>x. (next_member p + x) mod length (members p)) os)"
  shows "fst (scan gen qerr now a os first p) =
     (case find (\<lambda>i. member_error gen qerr now a p i = None)
             (map (\<lambda>x. (next_member p + x) mod length (members p)) os) of
        Some i \<Rightarrow> Inr i
      | None \<Rightarrow> Inl (or_else first (case os of [] \<Rightarrow> None
          | x # _ \<Rightarrow> member_error gen qerr now a p ((next_member p + x) mod length (members p)))))"
  using assms
proof (induction os arbitrary: first p)
  case Nil
  then show ?case by (simp add: or_else_def split: option.split)
next
  case (Cons x os)
  let ?i = "(next_member p + x) mod length (members p)"
  obtain m where m: "scan gen qerr now a (x # os) first p =
     (case member_error gen qerr now a p ?i of
        Some e \<Rightarrow> scan gen qerr now a os (or_else first (Some e)) (p\<lparr>members := (members p)[?i := m]\<rparr>)
      | None \<Rightarrow> (Inr ?i, p\<lparr>members := (members p)[?i := m], next_member := (?i + 1) mod length (members p)\<rparr>))"
    using scan_Cons [of x os "x # os" ?i p gen qerr now a first] by blast
  show ?case
  proof (cases "member_error gen qerr now a p ?i")
    case None
    with m show ?thesis by (simp del: scan.simps)
  next
    case (Some e)
    let ?p = "p\<lparr>members := (members p)[?i := m]\<rparr>"
    let ?idx = "map (\<lambda>x. (next_member p + x) mod length (members p)) os"
    have same: "member_error gen qerr now a ?p j = member_error gen qerr now a p j" if "j \<in> set ?idx" for j
    proof -
      have "?i \<notin> set ?idx" using Cons.prems by simp
      with that have "j \<noteq> ?i" by blast
      then show ?thesis by (simp add: member_error_def)
    qed
    have "find (\<lambda>i. member_error gen qerr now a ?p i = None) ?idx
        = find (\<lambda>i. member_error gen qerr now a p i = None) ?idx"
      by (rule find_cong) (use same in auto)
    with Cons.IH [of ?p "or_else first (Some e)"] Cons.prems m Some show ?thesis
      by (cases first) (simp_all del: scan.simps split: option.split)
  qed
qed

lemma shifted_mod_inj:
  assumes "x \<le> y" "y < n" "(k + x) mod n = (k + y) mod n"
  shows "x = (y::nat)"
proof -
  have "n dvd (k + y) - (k + x)" using assms mod_eq_dvd_iff_nat [of "k + x" "k + y" n] by simp
  then have "n dvd y - x" by simp
  then show ?thesis using assms(1,2) by (cases "x < y") (auto dest: dvd_imp_le)
qed

lemma rotation_distinct: "distinct (rotation k n)"
proof -
  have "inj_on (\<lambda>x. (k + x) mod n) {0..<n}"
  proof (rule inj_onI)
    fix x y
    assume "x \<in> {0..<n}" "y \<in> {0..<n}" and e: "(k + x) mod n = (k + y) mod n"
    then have "x < n" "y < n" by simp_all
    show "x = y"
    proof (cases "x \<le> y")
      case True
      then show ?thesis using \<open>y < n\<close> e by (rule shifted_mod_inj)
    next
      case False
      then have "y \<le> x" by simp
      then have "y = x" using \<open>x < n\<close> e [symmetric] by (rule shifted_mod_inj)
      then show ?thesis by (rule sym)
    qed
  qed
  then show ?thesis by (simp add: rotation_def distinct_map)
qed

lemma rotation_set: "set (rotation next n) = {..<n}"
proof (rule card_subset_eq)
  show "set (rotation next n) \<subseteq> {..<n}" by (auto simp: rotation_def)
  show "card (set (rotation next n)) = card {..<n}"
    using distinct_card [OF rotation_distinct, of "next" n] by (simp add: rotation_def)
qed simp

lemma chosen_in_rotation_order:
  "fst (choose_member gen qerr now anonymous p) =
     (case find (\<lambda>i. member_error gen qerr now anonymous p i = None) (rotation (next_member p) (length (members p))) of
        Some i \<Rightarrow> Inr i
      | None \<Rightarrow>
          if members p = [] then fail AuthenticationRequired
          else Inl (the (member_error gen qerr now anonymous p (next_member p mod length (members p)))))"
proof -
  let ?n = "length (members p)"
  let ?find = "find (\<lambda>i. member_error gen qerr now anonymous p i = None) (rotation (next_member p) ?n)"
  have d: "distinct (map (\<lambda>x. (next_member p + x) mod ?n) [0..<?n])"
    using rotation_distinct by (simp add: rotation_def)
  note r = scan_result [OF d, of gen qerr now anonymous None, folded rotation_def]
  show ?thesis
  proof (cases ?find)
    case (Some i)
    with r show ?thesis by (auto simp: choose_member_def split: prod.splits sum.splits option.splits)
  next
    case None
    show ?thesis
    proof (cases "members p = []")
      case True
      then show ?thesis by (simp add: choose_member_def rotation_def)
    next
      case False
      then have "[0..<?n] = 0 # [1..<?n]" by (simp add: upt_conv_Cons)
      moreover have "member_error gen qerr now anonymous p (next_member p mod ?n) \<noteq> None"
        using None False rotation_set [of "next_member p" ?n] by (auto simp: find_None_iff)
      ultimately show ?thesis
        using r None False by (auto simp: choose_member_def split: prod.splits sum.splits option.splits)
    qed
  qed
qed

text \<open>
  C9: the pool's choice.  A query goes to the first member, in rotation order from the
  cursor, that is not cooling down and whose client admits it (a single member is taken
  unasked); if every member refuses, the answer is the error of the first one asked, and
  \<open>AuthenticationRequired\<close> for an empty pool.
\<close>

theorem pool_asks_in_rotation_order:
  "fst (choose_member gen qerr now anonymous p) =
     (case find (\<lambda>i. member_error gen qerr now anonymous p i = None) (rotation (next_member p) (length (members p))) of
        Some i \<Rightarrow> Inr i
      | None \<Rightarrow>
          if members p = [] then fail AuthenticationRequired
          else Inl (the (member_error gen qerr now anonymous p (next_member p mod length (members p)))))"
  by (rule chosen_in_rotation_order)

section \<open>Cooldown\<close>


definition sample_pool :: "client pool" where
  "sample_pool =
     \<lparr>members = replicate 2 \<lparr>m_client = sample_client, m_requests = 0, m_errors = 0, m_cooldown = None\<rparr>,
      next_member = 0, pool_stopped = False\<rparr>"


section \<open>Fairness\<close>

definition healthy ::
  "('s \<Rightarrow> generation) \<Rightarrow> (bool \<Rightarrow> 's \<Rightarrow> client_error option \<times> 's) \<Rightarrow> nat \<Rightarrow> bool \<Rightarrow> 's pool \<Rightarrow> bool" where
  "healthy gen qerr now a p \<longleftrightarrow>
     list_all (\<lambda>i. member_error gen qerr now a p i = None) [0..<length (members p)]"

text \<open>The members taken by \<open>k\<close> successive queries.\<close>

fun choices ::
  "('s \<Rightarrow> generation) \<Rightarrow> (bool \<Rightarrow> 's \<Rightarrow> client_error option \<times> 's) \<Rightarrow> nat \<Rightarrow> bool \<Rightarrow> nat \<Rightarrow> 's pool \<Rightarrow> nat list" where
  "choices gen qerr now a 0 p = []"
| "choices gen qerr now a (Suc k) p =
     (case choose_member gen qerr now a p of
        (Inr i, p') \<Rightarrow> i # choices gen qerr now a k p'
      | (Inl _, _) \<Rightarrow> [])"

context query_client begin

lemma member_check_again:
  assumes "member_check gen qerr now a m = (None, m')"
  shows "m_client m' = m_client m \<and> fst (member_check gen qerr now a m') = None"
proof -
  have n: "fst (cooldown_error gen now m) = None" "m_client (snd (cooldown_error gen now m)) = m_client m"
    using assms by (auto simp: member_check_def cooldown_error_def split: option.splits prod.splits if_split_asm)
  then have q: "fst (qerr a (m_client m)) = None"
    "m' = (snd (cooldown_error gen now m))\<lparr>m_client := snd (qerr a (m_client m))\<rparr>"
    using assms by (auto simp: member_check_def split: option.splits prod.splits)
  then have c: "m_client m' = m_client m" using admission_is_silent by simp
  have "m_cooldown (snd (cooldown_error gen now m)) = None"
    using n(1) by (auto simp: cooldown_error_def split: option.splits prod.splits)
  then have "cooldown_error gen now m' = (None, m')" using q(2) by (simp add: cooldown_error_def)
  with c q(1) show ?thesis by (auto simp: member_check_def split: prod.splits)
qed

lemma choose_healthy:
  assumes "healthy gen qerr now a p" "members p \<noteq> []" "next_member p < length (members p)"
  shows "\<exists>p'. choose_member gen qerr now a p = (Inr (next_member p), p')
     \<and> healthy gen qerr now a p' \<and> length (members p') = length (members p)
     \<and> next_member p' = (next_member p + 1) mod length (members p)"
proof -
  let ?n = "length (members p)" and ?i = "next_member p"
  have e: "member_error gen qerr now a p ?i = None"
    using assms by (auto simp: healthy_def list_all_iff)
  define m where "m = (if 1 < ?n then snd (member_check gen qerr now a (members p ! ?i)) else members p ! ?i)"
  define p' where "p' = p\<lparr>members := (members p)[?i := m], next_member := (?i + 1) mod ?n\<rparr>"
  have offs: "[0..<?n] = 0 # [1..<?n]" using assms(2) by (simp add: upt_conv_Cons)
  have "scan gen qerr now a (0 # [1..<?n]) None p = (Inr ?i, p')"
    using e assms(3) by (auto simp: p'_def m_def member_error_def Let_def split: prod.splits if_split_asm)
  then have c: "choose_member gen qerr now a p = (Inr ?i, p')" by (simp add: choose_member_def offs)
  have "member_error gen qerr now a p' j = None" if "j < ?n" for j
  proof (cases "j = ?i \<and> 1 < ?n")
    case True
    then have "member_check gen qerr now a (members p ! ?i) = (None, m)"
      using e by (simp add: member_error_def m_def prod_eq_iff)
    from member_check_again [OF this] True assms(3) show ?thesis by (simp add: member_error_def p'_def)
  next
    case False
    have "member_error gen qerr now a p j = None" using assms(1) that by (auto simp: healthy_def list_all_iff)
    with False show ?thesis by (auto simp: member_error_def p'_def)
  qed
  then have "healthy gen qerr now a p'" by (simp add: healthy_def list_all_iff p'_def)
  with c show ?thesis by (simp add: p'_def)
qed

lemma round_robin:
  assumes "healthy gen qerr now a p" "next_member p < length (members p)"
  shows "choices gen qerr now a k p = map (\<lambda>j. (next_member p + j) mod length (members p)) [0..<k]"
  using assms
proof (induction k arbitrary: p)
  case (Suc k)
  let ?n = "length (members p)"
  have "members p \<noteq> []" using Suc.prems(2) by auto
  with choose_healthy [OF Suc.prems(1) _ Suc.prems(2)] obtain p' where
    p': "choose_member gen qerr now a p = (Inr (next_member p), p')" "healthy gen qerr now a p'"
    "length (members p') = ?n" "next_member p' = (next_member p + 1) mod ?n" by blast
  have lt: "next_member p' < length (members p')" 
  proof -
    have "0 < ?n" using Suc.prems(2) by linarith
    then show ?thesis using p'(3,4) by simp
  qed
  have "map (\<lambda>j. (next_member p' + j) mod ?n) [0..<k] = map (\<lambda>j. (next_member p + j) mod ?n) [1..<Suc k]"
    unfolding p'(4) map_Suc_upt [symmetric]
    by (simp add: comp_def mod_add_left_eq map_Suc_upt [symmetric] del: upt_Suc)
  moreover have "[0..<Suc k] = 0 # [1..<Suc k]" by (simp add: upt_conv_Cons)
  ultimately show ?case
    using Suc.IH [OF p'(2) lt] p'(1,3) Suc.prems(2) by (simp del: upt_Suc)
qed simp

lemma anonymous_needs_no_account:
  "member_error gen qerr now True p i =
     (if 1 < length (members p) then fst (cooldown_error gen now (members p ! i)) else None)"
  by (auto simp: member_error_def member_check_def check_anonymous split: prod.splits option.splits)

end

text \<open>
  the pool is fair.  While every member admits queries, \<open>k\<close> successive queries go
  to the members in turn from the cursor; in particular as many queries as there are members
  visit each member exactly once.
\<close>

theorem pool_is_round_robin:
  assumes "healthy (managed_generation client_generation)
      (managed_query_error client_generation client_check) now a p"
    and "next_member p < length (members p)"
  shows "choices (managed_generation client_generation) (managed_query_error client_generation client_check)
      now a k p = map (\<lambda>j. (next_member p + j) mod length (members p)) [0..<k]
    \<and> set (choices (managed_generation client_generation) (managed_query_error client_generation client_check)
        now a (length (members p)) p) = {..<length (members p)}"
  using managed_client.round_robin [OF assms] rotation_set [of "next_member p" "length (members p)"]
  by (simp add: rotation_def)

definition sample_managed :: "client managed" where
  "sample_managed =
     \<lparr>inner_client = sample_client, managed_options_of = sample_options, managed_stopped = False,
      managed_clock = 0, input_revision = None, managed_state = managed_new, spawned = []\<rparr>"

theorem pool_is_round_robin_witness:
  "choices (managed_generation client_generation) (managed_query_error client_generation client_check) 0 False 5
     \<lparr>members = replicate 3 \<lparr>m_client = sample_managed, m_requests = 0, m_errors = 0, m_cooldown = None\<rparr>,
      next_member = 1, pool_stopped = False\<rparr> = [1, 2, 0, 1, 2]"
proof -
  let ?p = "\<lparr>members = replicate 3 \<lparr>m_client = sample_managed, m_requests = 0, m_errors = 0, m_cooldown = None\<rparr>,
      next_member = 1, pool_stopped = False\<rparr>"
  have h: "healthy (managed_generation client_generation)
      (managed_query_error client_generation client_check) 0 False ?p"
    by (simp add: healthy_def list_all_iff member_error_def member_check_def cooldown_error_def
        managed_query_error_def sample_managed_def managed_new_def client_check_def client_query_error_def
        current_session_def sample_client_defs Let_def)
  from pool_is_round_robin [OF h, of 5] show ?thesis by (simp add: upt_rec)
qed

end
