(* ===== verification/Pool_Progress.thy ===== *)
theory Pool_Progress
  imports Session_Pool
begin

text \<open>
  Progress of the session pool (\<open>server/src/pool.rs\<close>): a member that admits queries is reached,
  whatever the other members and the notes between the queries do.
\<close>

definition waiting :: "nat \<Rightarrow> nat \<Rightarrow> nat \<Rightarrow> nat" where
  "waiting k i n = (i + (n - k)) mod n"

lemma waiting_spec: "k < n \<Longrightarrow> i < n \<Longrightarrow> waiting k i n < n \<and> (k + waiting k i n) mod n = i"
  by (simp add: waiting_def mod_add_right_eq)

lemma waiting_unique:
  assumes "k < n" "i < n" "y < n" "(k + y) mod n = i"
  shows "waiting k i n = y"
proof -
  note w = waiting_spec [OF assms(1,2)]
  have e: "(k + waiting k i n) mod n = (k + y) mod n" using w assms(4) by simp
  show ?thesis
  proof (cases "waiting k i n \<le> y")
    case True
    then show ?thesis using assms(3) e by (rule shifted_mod_inj)
  next
    case False
    then have "y \<le> waiting k i n" by simp
    then have "y = waiting k i n" using conjunct1 [OF w] e [symmetric] by (rule shifted_mod_inj)
    then show ?thesis ..
  qed
qed

lemma scan_cursor:
  "fst (scan gen qerr now a os first p) = Inr c \<Longrightarrow>
     next_member (snd (scan gen qerr now a os first p)) = (c + 1) mod length (members p)"
proof (induction os arbitrary: first p)
  case (Cons x os)
  let ?i = "(next_member p + x) mod length (members p)"
  obtain m where m: "scan gen qerr now a (x # os) first p =
     (case member_error gen qerr now a p ?i of
        Some e \<Rightarrow> scan gen qerr now a os (or_else first (Some e)) (p\<lparr>members := (members p)[?i := m]\<rparr>)
      | None \<Rightarrow> (Inr ?i, p\<lparr>members := (members p)[?i := m], next_member := (?i + 1) mod length (members p)\<rparr>))"
    using scan_Cons [of x os "x # os" ?i p gen qerr now a first] by blast
  with Cons show ?case by (auto simp del: scan.simps split: option.splits)
qed simp

lemma choose_cursor:
  assumes "fst (choose_member gen qerr now a p) = Inr c"
  shows "next_member (snd (choose_member gen qerr now a p)) = (c + 1) mod length (members p)"
  using assms scan_cursor [of gen qerr now a "[0..<length (members p)]" None p c]
  by (auto simp: choose_member_def split: prod.splits sum.splits option.splits)

text \<open>One query comes nearer to an admitting member, or takes it.\<close>

lemma choose_nearer:
  assumes "i < length (members p)" "next_member p < length (members p)" "member_error gen qerr now a p i = None"
  defines "n \<equiv> length (members p)"
  obtains c where "fst (choose_member gen qerr now a p) = Inr c"
    "next_member (snd (choose_member gen qerr now a p)) < n"
    "c \<noteq> i \<Longrightarrow> waiting (next_member (snd (choose_member gen qerr now a p))) i n < waiting (next_member p) i n"
proof -
  let ?k = "next_member p"
  have n: "0 < n" "i < n" "?k < n" using assms(1,2) by (auto simp: n_def)
  define d where "d = waiting ?k i n"
  have d: "d < n" "(?k + d) mod n = i" using waiting_spec [OF n(3,2)] by (simp_all add: d_def)
  have "i \<in> set (rotation ?k n)" using n(2) by (simp add: rotation_set)
  then obtain c where f: "find (\<lambda>i. member_error gen qerr now a p i = None) (rotation ?k n) = Some c"
    using assms(3) by (cases "find (\<lambda>i. member_error gen qerr now a p i = None) (rotation ?k n)")
      (auto simp: find_None_iff)
  then obtain x where x: "x < n" "c = (?k + x) mod n"
    "\<forall>y<x. member_error gen qerr now a p ((?k + y) mod n) \<noteq> None"
    by (auto simp: find_Some_iff rotation_def)
  have "x \<le> d" using x(3) d(2) assms(3) by (metis linorder_not_less)
  have c: "fst (choose_member gen qerr now a p) = Inr c"
    using f by (simp add: chosen_in_rotation_order n_def)
  have cursor: "next_member (snd (choose_member gen qerr now a p)) = (c + 1) mod n"
    using choose_cursor [OF c] by (simp add: n_def)
  have nearer: "waiting ((c + 1) mod n) i n < d" if "c \<noteq> i"
  proof -
    from that x(2) d(2) \<open>x \<le> d\<close> have "x < d" by (metis le_neq_implies_less)
    have "(c + 1) mod n = (?k + x + 1) mod n" by (simp add: x(2) mod_Suc_eq)
    then have "((c + 1) mod n + (d - x - 1)) mod n = (?k + x + 1 + (d - x - 1)) mod n"
      by (simp only: mod_add_left_eq)
    also have "?k + x + 1 + (d - x - 1) = ?k + d" using \<open>x < d\<close> by simp
    finally have "((c + 1) mod n + (d - x - 1)) mod n = (?k + d) mod n" .
    with d n \<open>x < d\<close> have "waiting ((c + 1) mod n) i n = d - x - 1"
      by (intro waiting_unique) simp_all
    with \<open>x < d\<close> show ?thesis by simp
  qed
  show thesis
    by (rule that [of c]) (use c cursor nearer n in \<open>simp_all add: d_def\<close>)
qed

section \<open>Properties\<close>

text \<open>
  C30: no healthy member starves.  In a pool of \<open>n\<close>, let the queries come at any times and the
  members change in any way in between; if a member admits each of \<open>n\<close> successive queries, in
  particular once its cooldown is over, then one of them is sent to it.
\<close>

theorem admitting_member_is_chosen_within_a_round:
  assumes "i < n" "next_member (ps 0) < n"
    and "\<And>k. k < n \<Longrightarrow> length (members (ps k)) = n"
    and "\<And>k. k < n \<Longrightarrow> next_member (ps (Suc k)) = next_member (snd (choose_member gen (qerr k) (now k) (anonymous k) (ps k)))"
    and "\<And>k. k < n \<Longrightarrow> member_error gen (qerr k) (now k) (anonymous k) (ps k) i = None"
  shows "\<exists>k<n. fst (choose_member gen (qerr k) (now k) (anonymous k) (ps k)) = Inr i"
proof (rule ccontr)
  assume "\<not> ?thesis"
  then have never: "fst (choose_member gen (qerr k) (now k) (anonymous k) (ps k)) \<noteq> Inr i" if "k < n" for k
    using that by blast
  have "k \<le> n \<Longrightarrow> next_member (ps k) < n \<and> waiting (next_member (ps k)) i n + k < n" for k
  proof (induction k)
    case 0
    with assms(1,2) waiting_spec show ?case by auto
  next
    case (Suc k)
    then have k: "k < n" "next_member (ps k) < n" "waiting (next_member (ps k)) i n + k < n" by simp_all
    from choose_nearer [of i "ps k" gen "qerr k" "now k" "anonymous k"] assms(1,3,5) k never obtain
      "next_member (snd (choose_member gen (qerr k) (now k) (anonymous k) (ps k))) < n"
      "waiting (next_member (snd (choose_member gen (qerr k) (now k) (anonymous k) (ps k)))) i n
         < waiting (next_member (ps k)) i n" by metis
    with assms(4) [OF k(1)] k(3) show ?case by simp
  qed
  from this [of n] show False by simp
qed

text \<open>Two members, the first one always cooling down: the second one is taken.\<close>

definition sample_resting :: "client pool" where
  "sample_resting =
     \<lparr>members = [\<lparr>m_client = sample_client, m_requests = 0, m_errors = 1, m_cooldown = Some (5000, 0, Timeout)\<rparr>,
                 \<lparr>m_client = sample_client, m_requests = 0, m_errors = 0, m_cooldown = None\<rparr>],
      next_member = 0, pool_stopped = False\<rparr>"

fun sample_pools :: "nat \<Rightarrow> client pool" where
  "sample_pools 0 = sample_resting"
| "sample_pools (Suc k) =
     sample_resting\<lparr>next_member := next_member (snd (choose_member client_generation client_check k True (sample_pools k)))\<rparr>"

theorem admitting_member_is_chosen_within_a_round_witness:
  "\<exists>k<2. fst (choose_member client_generation client_check k True (sample_pools k)) = Inr 1"
proof (rule admitting_member_is_chosen_within_a_round [where i = 1 and ps = sample_pools])
  fix k :: nat
  assume "k < 2"
  have e: "member_error client_generation client_check t True (sample_resting\<lparr>next_member := j\<rparr>) 1 = None" for t j
    by (simp add: member_error_def member_check_def cooldown_error_def sample_resting_def client_check_def
        client_query_error_def)
  show "member_error client_generation client_check k True (sample_pools k) 1 = None"
    using e [of k 0] e by (cases k) (simp_all add: sample_resting_def)
  show "length (members (sample_pools k)) = 2" by (cases k) (simp_all add: sample_resting_def)
qed (simp_all add: sample_resting_def)

end
