(* ===== verification/Sdk_Form.thy ===== *)
theory Sdk_Form
  imports Prelude "HOL-Library.Char_ord" "HOL-Library.List_Lexorder"
begin

text \<open>
  Form encoding and signing of the SDK HTTP login (\<open>client/src/sdk_http/form.rs\<close>).  Percent
  decoding and the MD5 digest are library functions and parameters; strings are their bytes, and
  UTF-8 validity is the standard library's check.  Ordered maps keyed by strings use the
  bytewise lexicographic order.
\<close>

datatype sdk_error_kind =
    SdkInvalidConfig | SdkInvalidInput | SdkProtocol | SdkTransport | SdkHttpStatus | SdkTimeout
  | SdkCancelled | SdkBusy

record sdk_error =
  sdk_kind :: sdk_error_kind
  sdk_status :: "nat option"

type_synonym 'a sdk_outcome = "sdk_error + 'a"

abbreviation sdk_fail :: "sdk_error_kind \<Rightarrow> 'a sdk_outcome" where
  "sdk_fail k \<equiv> Inl \<lparr>sdk_kind = k, sdk_status = None\<rparr>"

section \<open>UTF-8\<close>

definition continuation :: "nat \<Rightarrow> nat \<Rightarrow> string \<Rightarrow> string option" where
  "continuation lo hi s =
     (case s of [] \<Rightarrow> None | c # s' \<Rightarrow> if lo \<le> byte c \<and> byte c \<le> hi then Some s' else None)"

text \<open>The rest of a text after its first character, if that is well-formed.\<close>

definition utf8_next :: "string \<Rightarrow> string option" where
  "utf8_next s =
     (case s of
        [] \<Rightarrow> None
      | c # r \<Rightarrow>
          (let b = byte c; last_one = continuation 128 191; two = (\<lambda>t. Option.bind t last_one) in
           if b < 128 then Some r
           else if 194 \<le> b \<and> b \<le> 223 then continuation 128 191 r
           else if b = 224 then two (continuation 160 191 r)
           else if 225 \<le> b \<and> b \<le> 236 \<or> b = 238 \<or> b = 239 then two (continuation 128 191 r)
           else if b = 237 then two (continuation 128 159 r)
           else if b = 240 then two (two (continuation 144 191 r))
           else if 241 \<le> b \<and> b \<le> 243 then two (two (continuation 128 191 r))
           else if b = 244 then two (two (continuation 128 143 r))
           else None))"

lemma continuation_shorter: "continuation lo hi s = Some t \<Longrightarrow> length t < length s"
  by (auto simp: continuation_def split: list.splits if_split_asm)

lemma utf8_next_shorter: "utf8_next s = Some t \<Longrightarrow> length t < length s"
  by (auto simp: utf8_next_def Let_def bind_eq_Some_conv split: list.splits if_split_asm
      dest!: continuation_shorter)

function utf8_valid :: "string \<Rightarrow> bool" where
  "utf8_valid s = (s = [] \<or> (case utf8_next s of None \<Rightarrow> False | Some t \<Rightarrow> utf8_valid t))"
  by pat_completeness auto
termination
  by (relation "measure length") (auto dest: utf8_next_shorter)

declare utf8_valid.simps [simp del]

section \<open>Percent encoding\<close>

definition FORM_SET :: string where
  "FORM_SET = map char_of
     ([32, 34, 39, 58, 59, 60, 61, 62, 64, 91, 93, 94, 96, 123, 125, 124, 47, 92, 63, 35, 38, 33, 36,
       40, 41, 44, 126] :: nat list)"

definition hex_digit :: "nat \<Rightarrow> char" where
  "hex_digit n = (if n < 10 then char_of (48 + n) else char_of (55 + n))"

definition percent_byte :: "char \<Rightarrow> string" where
  "percent_byte c = [CHR ''%'', hex_digit (byte c div 16), hex_digit (byte c mod 16)]"

definition encode_byte :: "char \<Rightarrow> string" where
  "encode_byte c =
     (if byte c = 9 \<or> byte c = 10 \<or> byte c = 12 \<or> byte c = 13 then []
      else if \<not> (32 \<le> byte c \<and> byte c < 127) \<or> c \<in> set FORM_SET then percent_byte c
      else [c])"

definition encoded :: "string \<Rightarrow> string" where
  "encoded v = concat (map encode_byte v)"

definition uri_byte :: "char \<Rightarrow> string" where
  "uri_byte c = (if is_ascii_alphanumeric c \<or> c \<in> set (''_-!.~'' @ [char_of (39 :: nat)] @ ''()*'') then [c]
                 else percent_byte c)"

definition raw_encoded :: "string \<Rightarrow> string" where
  "raw_encoded v = encoded (concat (map uri_byte v))"

definition decoded :: "(string \<Rightarrow> string) \<Rightarrow> string \<Rightarrow> string sdk_outcome" where
  "decoded percent_decode v =
     (let plus = map (\<lambda>c. if c = CHR ''+'' then CHR '' '' else c) v;
          bytes = percent_decode plus in
      if utf8_valid bytes then Inr bytes else sdk_fail SdkInvalidInput)"

section \<open>Signing\<close>

definition ascii_lowercase :: "char \<Rightarrow> char" where
  "ascii_lowercase c = (if 65 \<le> byte c \<and> byte c \<le> 90 then char_of (byte c + 32) else c)"

definition eq_ignore_ascii_case :: "string \<Rightarrow> string \<Rightarrow> bool" where
  "eq_ignore_ascii_case a b \<longleftrightarrow> map ascii_lowercase a = map ascii_lowercase b"

fun signed_values ::
  "(string \<Rightarrow> string) \<Rightarrow> (string \<times> string) list \<Rightarrow> (string \<times> string) list \<Rightarrow> (string \<times> string) list sdk_outcome" where
  "signed_values percent_decode [] vals = Inr vals"
| "signed_values percent_decode ((name, v) # pairs) vals =
     and_then (decoded percent_decode v) (\<lambda>d. signed_values percent_decode pairs (btree_insert name d vals))"

definition signature_text :: "(string \<times> string) list \<Rightarrow> string \<Rightarrow> string" where
  "signature_text vals key =
     concat (map snd (filter (\<lambda>(name, _).
       \<not> eq_ignore_ascii_case name ''item_name'' \<and> \<not> eq_ignore_ascii_case name ''item_desc'') vals)) @ key"

definition form_body :: "(string \<times> string) list \<Rightarrow> string" where
  "form_body pairs = join_with ''&'' (map (\<lambda>(name, v). name @ ''='' @ v) pairs)"

text \<open>\<open>md5\<close> gives the digest as lower-case hexadecimal text.\<close>

definition sign_form ::
  "(string \<Rightarrow> string) \<Rightarrow> (string \<Rightarrow> string) \<Rightarrow> (string \<times> string) list \<Rightarrow> string \<Rightarrow> string sdk_outcome" where
  "sign_form percent_decode md5 pairs key =
     and_then (signed_values percent_decode pairs []) (\<lambda>vals.
       let body = form_body pairs @ ''&sign='' @ md5 (signature_text vals key) in
       if 64 * 1024 < length body then sdk_fail SdkInvalidInput else Inr body)"

section \<open>Facts\<close>

text \<open>What the code relies on of the percent decoder: it is the documented left inverse.\<close>

definition hex_value :: "char \<Rightarrow> nat option" where
  "hex_value c =
     (if 48 \<le> byte c \<and> byte c \<le> 57 then Some (byte c - 48)
      else if 65 \<le> byte c \<and> byte c \<le> 70 then Some (byte c - 55)
      else if 97 \<le> byte c \<and> byte c \<le> 102 then Some (byte c - 87)
      else None)"

definition decodes_percent :: "(string \<Rightarrow> string) \<Rightarrow> bool" where
  "decodes_percent pd \<longleftrightarrow>
     pd [] = []
     \<and> (\<forall>c s. c \<noteq> CHR ''%'' \<longrightarrow> pd (c # s) = c # pd s)
     \<and> (\<forall>a b x y s. hex_value a = Some x \<longrightarrow> hex_value b = Some y \<longrightarrow>
          pd (CHR ''%'' # a # b # s) = char_of (16 * x + y) # pd s)"

lemma byte_hex_digit: "n < 16 \<Longrightarrow> byte (hex_digit n) = (if n < 10 then 48 + n else 55 + n)"
  by (simp add: hex_digit_def)

lemma hex_value_digit [simp]: "n < 16 \<Longrightarrow> hex_value (hex_digit n) = Some n"
  by (auto simp: hex_value_def byte_hex_digit)

lemma FORM_SET_byte: "c \<in> set FORM_SET \<longleftrightarrow> byte c \<in>
    {32, 34, 39, 58, 59, 60, 61, 62, 64, 91, 93, 94, 96, 123, 125, 124, 47, 92, 63, 35, 38, 33, 36, 40, 41, 44, 126}"
proof -
  have "c = char_of n \<longleftrightarrow> byte c = n" if "n < 256" for n :: nat
    using that by (metis byte_char_of char_of_byte)
  then show ?thesis by (simp add: FORM_SET_def)
qed

lemma encode_plain:
  "is_ascii_alphanumeric c \<Longrightarrow> encode_byte c = [c]"
  "encode_byte (CHR ''%'') = ''%''"
proof -
  assume "is_ascii_alphanumeric c"
  then have "48 \<le> byte c \<and> byte c \<le> 57 \<or> 65 \<le> byte c \<and> byte c \<le> 90 \<or> 97 \<le> byte c \<and> byte c \<le> 122"
    by (simp add: is_ascii_alphanumeric_def is_ascii_digit_def is_ascii_alphabetic_def)
  then have "32 \<le> byte c" "byte c < 127" "c \<notin> set FORM_SET" unfolding FORM_SET_byte by auto
  then show "encode_byte c = [c]" by (simp add: encode_byte_def)
qed (simp add: encode_byte_def FORM_SET_byte, simp add: byte_def)

lemma hex_digit_alphanumeric: "n < 16 \<Longrightarrow> is_ascii_alphanumeric (hex_digit n)"
  by (auto simp: is_ascii_alphanumeric_def is_ascii_digit_def is_ascii_alphabetic_def byte_hex_digit)

lemma byte_nibbles: "byte c div 16 < 16" "byte c mod 16 < 16"
  using byte_less [of c] by presburger+

lemma encoded_simps [simp]: "encoded [] = []" "encoded (a @ b) = encoded a @ encoded b"
  "encoded (c # s) = encode_byte c @ encoded s"
  by (simp_all add: encoded_def)

lemma encoded_percent_byte [simp]: "encoded (percent_byte c) = percent_byte c"
  using byte_nibbles [of c] by (simp add: percent_byte_def encode_plain hex_digit_alphanumeric)

lemma encode_byte_cases: "encode_byte c = [] \<or> encode_byte c = percent_byte c
    \<or> encode_byte c = [c] \<and> c \<notin> set FORM_SET \<and> 32 \<le> byte c \<and> byte c < 127"
  by (simp add: encode_byte_def)

lemma encoded_encode_byte [simp]: "encoded (encode_byte c) = encode_byte c"
  using encode_byte_cases [of c] by (elim disjE) auto

lemma encoded_twice: "encoded (encoded v) = encoded v"
  by (induction v) simp_all

lemma encoded_avoids: "d \<in> set (encoded v) \<Longrightarrow> d \<notin> set FORM_SET \<and> 32 \<le> byte d \<and> byte d < 127"
proof (induction v)
  case (Cons c v)
  have plain: "d \<notin> set FORM_SET \<and> 32 \<le> byte d \<and> byte d < 127" if "encode_byte d = [d]" for d
    using that by (auto simp: encode_byte_def percent_byte_def split: if_split_asm)
  have "encode_byte d = [d]" if "d \<in> set (percent_byte c)"
    using that byte_nibbles [of c] by (auto simp: percent_byte_def encode_plain hex_digit_alphanumeric)
  with Cons plain encode_byte_cases [of c] show ?case by auto
qed simp

lemma percent_byte_decodes:
  "decodes_percent pd \<Longrightarrow> pd (percent_byte c @ s) = c # pd s"
  using byte_nibbles [of c] by (simp add: decodes_percent_def percent_byte_def) 

text \<open>The two encodings of one byte, as a decoder sees them.\<close>

definition encodes_byte :: "char \<Rightarrow> string \<Rightarrow> bool" where
  "encodes_byte c e \<longleftrightarrow> e = percent_byte c \<or> e = [c] \<and> c \<noteq> CHR ''%'' \<and> c \<noteq> CHR ''+''"

lemma raw_byte: "encodes_byte c (encoded (uri_byte c))"
proof (cases "uri_byte c = [c]")
  case True
  then have c: "is_ascii_alphanumeric c \<or> byte c \<in> {95, 45, 33, 46, 126, 39, 40, 41, 42}"
    by (auto simp: uri_byte_def percent_byte_def split: if_split_asm) (simp_all add: byte_def)
  then have "c \<noteq> CHR ''%''" "c \<noteq> CHR ''+''" "byte c \<noteq> 9" "byte c \<noteq> 10" "byte c \<noteq> 12" "byte c \<noteq> 13"
    by (auto simp: is_ascii_alphanumeric_def is_ascii_digit_def is_ascii_alphabetic_def byte_def)
  with True show ?thesis by (auto simp: encodes_byte_def encode_byte_def)
next
  case False
  then have "uri_byte c = percent_byte c" by (auto simp: uri_byte_def)
  then show ?thesis by (simp add: encodes_byte_def)
qed

lemma raw_encoded_simps: "raw_encoded [] = []" "raw_encoded (c # s) = encoded (uri_byte c) @ raw_encoded s"
  by (simp_all add: raw_encoded_def)

abbreviation unplus :: "string \<Rightarrow> string" where
  "unplus \<equiv> map (\<lambda>c. if c = CHR ''+'' then CHR '' '' else c)"

lemma unplus_byte: "encodes_byte c e \<Longrightarrow> unplus e = e"
proof -
  have "n < 16 \<Longrightarrow> hex_digit n \<noteq> CHR ''+''" for n
    using byte_hex_digit [of n] by (auto simp: byte_def split: if_split_asm)
  then show "encodes_byte c e \<Longrightarrow> unplus e = e"
    using byte_nibbles [of c] by (auto simp: encodes_byte_def percent_byte_def)
qed

lemma decode_raw: "decodes_percent pd \<Longrightarrow> pd (unplus (raw_encoded v)) = v"
proof (induction v)
  case (Cons c v)
  have "unplus (encoded (uri_byte c)) = encoded (uri_byte c)" by (rule unplus_byte [OF raw_byte])
  moreover have "pd (encoded (uri_byte c) @ s) = c # pd s" for s
    using raw_byte [of c] percent_byte_decodes [OF Cons.prems] Cons.prems
    by (auto simp: encodes_byte_def decodes_percent_def)
  ultimately show ?case using Cons by (simp add: raw_encoded_simps)
qed (simp add: raw_encoded_simps decodes_percent_def)

section \<open>A sample decoder\<close>

fun sample_decode :: "string \<Rightarrow> string" where
  "sample_decode [] = []"
| "sample_decode (c # a # b # s) =
     (case (hex_value a, hex_value b) of
        (Some x, Some y) \<Rightarrow> if c = CHR ''%'' then char_of (16 * x + y) # sample_decode s
                            else c # sample_decode (a # b # s)
      | _ \<Rightarrow> c # sample_decode (a # b # s))"
| "sample_decode (c # s) = c # sample_decode s"

lemma sample_decodes: "decodes_percent sample_decode"
proof -
  have "sample_decode (c # s) = c # sample_decode s" if "c \<noteq> CHR ''%''" for c s
    using that by (cases "(c # s)" rule: sample_decode.cases) (auto split: option.splits)
  then show ?thesis by (simp add: decodes_percent_def)
qed

section \<open>Properties\<close>

text \<open>
  a value put into a form is read back unchanged.  For every UTF-8 text, decoding its
  raw encoding gives the text, so the signature is computed over exactly what was given; the
  hypothesis on the decoder is its documented behaviour.
\<close>

theorem form_values_round_trip:
  assumes "decodes_percent pd" "utf8_valid v"
  shows "decoded pd (raw_encoded v) = Inr v"
  using assms decode_raw [OF assms(1)] by (simp add: decoded_def Let_def)

theorem form_values_round_trip_witness:
  "decoded sample_decode (raw_encoded ''a+b&c=%'') = Inr ''a+b&c=%''"
proof (rule form_values_round_trip [OF sample_decodes])
  show "utf8_valid ''a+b&c=%''"
    by (simp add: utf8_valid.simps utf8_next_def byte_def)
qed

text \<open>
  C24: no value can smuggle a parameter into the posted form.  When every name is free of
  separators, the encoded body splits at the ampersands into exactly the given parameters, each
  of which splits at its only equals sign into name and encoded value, followed by the signature.
\<close>

theorem signed_form_has_exactly_its_parameters:
  assumes "sign_form pd md5 (map (\<lambda>(k, v). (k, encoded v)) ps) key = Inr body"
    and "list_all (\<lambda>(k, v). CHR ''&'' \<notin> set k \<and> CHR ''='' \<notin> set k) ps" "ps \<noteq> []"
    and "\<And>s. CHR ''&'' \<notin> set (md5 s)"
  shows "\<exists>signature. map (split_once (CHR ''='')) (split_on (CHR ''&'') body)
      = map (\<lambda>(k, v). Some (k, encoded v)) ps @ [Some (''sign'', signature)] \<and> length body \<le> 65536"
proof -
  let ?pieces = "map (\<lambda>(k, v). k @ ''='' @ encoded v) ps"
  from assms(1) obtain vals where vals: "body = form_body (map (\<lambda>(k, v). (k, encoded v)) ps) @ ''&sign='' @ md5 (signature_text vals key)"
    "length body \<le> 65536"
    by (auto simp: sign_form_def result_simps Let_def split: if_split_asm)
  let ?sign = "''sign='' @ md5 (signature_text vals key)"
  have "form_body (map (\<lambda>(k, v). (k, encoded v)) ps) = join_with ''&'' ?pieces"
    by (simp add: form_body_def comp_def case_prod_unfold)
  with vals(1) have body: "body = join_with ''&'' ?pieces @ CHR ''&'' # ?sign" by simp
  have avoid: "CHR ''&'' \<notin> set (encoded v)" for v
    using encoded_avoids [of "CHR ''&''" v] by (auto simp: FORM_SET_byte byte_def)
  have pieces: "split_on (CHR ''&'') (join_with ''&'' qs @ CHR ''&'' # t) = qs @ split_on (CHR ''&'') t"
    if "qs \<noteq> []" "list_all (\<lambda>q. CHR ''&'' \<notin> set q) qs" for qs t
    using that by (induction qs rule: induct_list012) (auto simp: split_on_append_sep)
  have "list_all (\<lambda>q. CHR ''&'' \<notin> set q) ?pieces"
    using assms(2) avoid by (auto simp: list_all_iff)
  then have split: "split_on (CHR ''&'') body = ?pieces @ [?sign]"
    using assms(3,4) pieces [of ?pieces ?sign] body by (simp add: split_on_no_sep)
  have "map (split_once (CHR ''='')) ?pieces = map (\<lambda>(k, v). Some (k, encoded v)) ps"
    using assms(2) by (induction ps) (auto simp: split_once_Some)
  moreover have "split_once (CHR ''='') ?sign = Some (''sign'', md5 (signature_text vals key))"
    by (simp add: split_once_Some)
  ultimately show ?thesis using split vals(2) by simp
qed

theorem signed_form_has_exactly_its_parameters_witness:
  "\<exists>body signature. sign_form (\<lambda>_. []) (\<lambda>_. ''0'') (map (\<lambda>(k, v). (k, encoded v)) [(''uid'', ''1&sign=2'')]) ''k'' = Inr body
     \<and> map (split_once (CHR ''='')) (split_on (CHR ''&'') body)
       = map (\<lambda>(k, v). Some (k, encoded v)) [(''uid'', ''1&sign=2'')] @ [Some (''sign'', signature)]"
proof -
  have short: "length (encode_byte c) \<le> 3" for c by (simp add: encode_byte_def percent_byte_def)
  have "length (encoded v) \<le> 3 * length v" for v
  proof (induction v)
    case (Cons c v)
    then show ?case using short [of c] by simp
  qed simp
  from this [of "''1&sign=2''"] have "length (encoded ''1&sign=2'') \<le> 24" by (simp del: encoded_simps)
  then obtain body where body:
    "sign_form (\<lambda>_. []) (\<lambda>_. ''0'') (map (\<lambda>(k, v). (k, encoded v)) [(''uid'', ''1&sign=2'')]) ''k'' = Inr body"
    by (simp add: sign_form_def decoded_def utf8_valid.simps [of "[]"] form_body_def signature_text_def Let_def del: encoded_simps)
  from signed_form_has_exactly_its_parameters [OF this] body show ?thesis by (auto simp del: encoded_simps)
qed

end
