(* ===== verification/Secret_Files.thy ===== *)
theory Secret_Files
  imports Sdk_Login Sdk_Form
begin

text \<open>
  Private files (\<open>client/src/secret_file.rs\<close>) and what is kept in them: credentials
  (\<open>client/src/session.rs\<close>), SDK authorizations (\<open>client/src/auth.rs\<close>) and a retained
  registration response (\<open>client/src/jp.rs\<close>).  The file system is a map from paths to nodes
  with Unix modes (0x3F is octal 77, 0x180 is octal 600); a path is its list of components, and the intermediate components are
  ordinary directories.  Operations run without interference, and \<open>io\<close> says whether the
  writing itself succeeds.
\<close>

section \<open>The file store\<close>

type_synonym path = "string list"

datatype node = File "32 word" string | Dir "32 word" | Symlink path

type_synonym store = "path \<Rightarrow> node option"

definition LIMIT :: nat where
  "LIMIT = 64 * 1024"

definition shared_mode :: "32 word \<Rightarrow> bool" where
  "shared_mode mode \<longleftrightarrow> and mode 0x3F \<noteq> 0"

text \<open>\<open>Path::parent\<close>, with the current directory for a single component.\<close>

definition parent_of :: "path \<Rightarrow> path" where
  "parent_of p = butlast p"

definition read_secret :: "store \<Rightarrow> path \<Rightarrow> string outcome" where
  "read_secret st p =
     (case st p of
        Some (File mode bytes) \<Rightarrow>
          if LIMIT < length bytes \<or> shared_mode mode then fail InvalidConfig else Inr bytes
      | _ \<Rightarrow> fail InvalidConfig)"

definition private_parent :: "store \<Rightarrow> path \<Rightarrow> bool" where
  "private_parent st p = (case st (parent_of p) of Some (Dir mode) \<Rightarrow> \<not> shared_mode mode | _ \<Rightarrow> False)"

text \<open>A private temporary file is written first and then linked to a name that must be new.\<close>

definition create_secret :: "bool \<Rightarrow> store \<Rightarrow> path \<Rightarrow> string \<Rightarrow> unit outcome \<times> store" where
  "create_secret io st p bytes =
     (if LIMIT < length bytes \<or> \<not> private_parent st p \<or> \<not> io \<or> st p \<noteq> None then (fail InvalidConfig, st)
      else (Inr (), st(p \<mapsto> File 0x180 bytes)))"

definition check_new :: "store \<Rightarrow> path \<Rightarrow> unit outcome" where
  "check_new st p = (if st p \<noteq> None \<or> \<not> private_parent st p then fail InvalidConfig else Inr ())"

section \<open>Stored documents\<close>

text \<open>The JSON documents that the files hold; reading is strict, writing always succeeds.\<close>

record file_codec =
  credentials_to_json :: "static_credentials \<Rightarrow> string"
  credentials_from_json :: "string \<Rightarrow> static_credentials option"
  stored_to_json :: "sdk_authorization \<Rightarrow> string"
  stored_from_json :: "string \<Rightarrow> sdk_authorization option"
  callback_to_json :: "callback \<Rightarrow> string"
  callback_from_json :: "string \<Rightarrow> callback option"

definition save_credentials ::
  "file_codec \<Rightarrow> bool \<Rightarrow> store \<Rightarrow> session_config \<Rightarrow> credentials \<Rightarrow> path \<Rightarrow> unit outcome \<times> store" where
  "save_credentials codec io st cfg creds p =
     create_secret io st p
       (credentials_to_json codec \<lparr>sc_region = region cfg, sc_origin = config_origin cfg, sc_credentials = creds\<rparr>)"

definition static_from_file :: "file_codec \<Rightarrow> store \<Rightarrow> path \<Rightarrow> static_credentials outcome" where
  "static_from_file codec st p =
     (case st p of
        Some (File mode bytes) \<Rightarrow>
          if 64 * 1024 < length bytes \<or> shared_mode mode \<or> \<not> utf8_valid bytes then bad_config
          else ok_or (credentials_from_json codec bytes) (client_error_new InvalidConfig)
      | _ \<Rightarrow> bad_config)"

definition save_to_file ::
  "file_codec \<Rightarrow> bool \<Rightarrow> store \<Rightarrow> sdk_authorization \<Rightarrow> path \<Rightarrow> unit outcome \<times> store" where
  "save_to_file codec io st sdk p = create_secret io st p (stored_to_json codec sdk)"

definition sdk_from_file ::
  "library \<Rightarrow> file_codec \<Rightarrow> store \<Rightarrow> session_config \<Rightarrow> path \<Rightarrow> sdk_authorization outcome" where
  "sdk_from_file lib codec st cfg p =
     and_then (read_secret st p) (\<lambda>bytes.
     and_then (ok_or (stored_from_json codec bytes) (client_error_new InvalidRequest)) (\<lambda>stored.
     and_then (origin lib (sdk_origin stored)) (\<lambda>o'.
       let sdk = stored\<lparr>sdk_origin := o'\<rparr> in
       and_then (check_binding lib sdk cfg) (\<lambda>_.
         from_callback_json lib (callback_from_json codec) cfg (callback_to_json codec (sdk_callback sdk))))))"

text \<open>
  \<open>import_registration_response\<close>: \<open>parse\<close> gives the text fields of the credential message in a
  registration response.
\<close>

definition registered_credentials ::
  "library \<Rightarrow> (string \<Rightarrow> (string \<Rightarrow> string option) option) \<Rightarrow> store \<Rightarrow> session_config \<Rightarrow> path \<Rightarrow> credentials outcome" where
  "registered_credentials lib parse st cfg source =
     (if region cfg \<noteq> ''jp'' then fail InvalidConfig
      else and_then (config_validate lib cfg) (\<lambda>_.
           and_then (read_secret st source) (\<lambda>raw.
           and_then (ok_or (parse raw) (client_error_new Protocol)) (\<lambda>field.
             let get = (\<lambda>name. case field name of None \<Rightarrow> [] | Some v \<Rightarrow> v);
                 creds = \<lparr>player_id = get ''id'', credential = get ''credential'',
                          device_id = (if get ''device_id'' = [] then None else Some (get ''device_id'')),
                          bid = None\<rparr> in
             and_then (metadata lib cfg (Some creds) ''validation'' False) (\<lambda>_. Inr creds)))))"

definition import_registration ::
  "library \<Rightarrow> file_codec \<Rightarrow> (string \<Rightarrow> (string \<Rightarrow> string option) option) \<Rightarrow> bool \<Rightarrow> store \<Rightarrow> session_config \<Rightarrow>
     path \<Rightarrow> path \<Rightarrow> unit outcome \<times> store" where
  "import_registration lib codec parse io st cfg source output =
     (case registered_credentials lib parse st cfg source of
        Inl e \<Rightarrow> (Inl e, st)
      | Inr creds \<Rightarrow> save_credentials codec io st cfg creds output)"

section \<open>Facts\<close>

lemma private_mode [simp]: "\<not> shared_mode 0x180"
  by (simp add: shared_mode_def)

lemma create_secret_cases:
  "create_secret io st p bytes = (r, st') \<Longrightarrow>
     r = Inr () \<and> st p = None \<and> length bytes \<le> LIMIT \<and> private_parent st p \<and> io \<and> st' = st(p \<mapsto> File 0x180 bytes)
     \<or> r = fail InvalidConfig \<and> st' = st"
  by (auto simp: create_secret_def split: if_split_asm)

lemma create_then_read:
  "create_secret io st p bytes = (Inr (), st') \<Longrightarrow> read_secret st' p = Inr bytes"
  by (auto dest!: create_secret_cases simp: read_secret_def)

lemma create_keeps_existing: "create_secret io st p bytes = (r, st') \<Longrightarrow> st q = Some n \<Longrightarrow> st' q = Some n"
  by (auto dest!: create_secret_cases)

lemma create_secret_new:
  "check_new st p = Inr u \<Longrightarrow> length bytes \<le> LIMIT \<Longrightarrow> create_secret True st p bytes = (Inr (), st(p \<mapsto> File 0x180 bytes))"
  by (auto simp: check_new_def create_secret_def split: if_split_asm)

text \<open>Reading inverts writing, for one document.\<close>

definition reads_credentials :: "file_codec \<Rightarrow> static_credentials \<Rightarrow> bool" where
  "reads_credentials codec c \<longleftrightarrow>
     credentials_from_json codec (credentials_to_json codec c) = Some c \<and> utf8_valid (credentials_to_json codec c)"

definition reads_authorization :: "file_codec \<Rightarrow> sdk_authorization \<Rightarrow> bool" where
  "reads_authorization codec s \<longleftrightarrow>
     stored_from_json codec (stored_to_json codec s) = Some s
     \<and> callback_from_json codec (callback_to_json codec (sdk_callback s)) = Some (sdk_callback s)
     \<and> length (callback_to_json codec (sdk_callback s)) \<le> length (stored_to_json codec s)"

abbreviation credentials_document :: "session_config \<Rightarrow> credentials \<Rightarrow> static_credentials" where
  "credentials_document cfg creds \<equiv> \<lparr>sc_region = region cfg, sc_origin = config_origin cfg, sc_credentials = creds\<rparr>"

lemma save_credentials_round_trip:
  assumes "reads_credentials codec (credentials_document cfg creds)"
    "save_credentials codec io st cfg creds p = (Inr (), st')"
  shows "static_from_file codec st' p = Inr (credentials_document cfg creds)"
  using create_secret_cases [OF assms(2) [unfolded save_credentials_def]] assms(1)
  by (auto simp: static_from_file_def reads_credentials_def LIMIT_def)

lemma static_provide_saved:
  "origin lib (config_origin cfg) = Inr t \<Longrightarrow>
     static_provide lib \<lparr>sc_region = region cfg, sc_origin = config_origin cfg, sc_credentials = creds\<rparr> cfg = Inr (Some creds)"
  by (simp add: static_provide_def)

lemma registered_credentials_Inr:
  "registered_credentials lib parse st cfg source = Inr creds \<Longrightarrow>
     region cfg = ''jp'' \<and> config_validate lib cfg = Inr () \<and> bid creds = None
     \<and> (\<exists>m. metadata lib cfg (Some creds) ''validation'' False = Inr m) \<and> st source \<noteq> None"
  by (auto simp: registered_credentials_def Let_def result_simps read_secret_def split: if_split_asm option.split_asm)

lemma private_files_cases:
  assumes "create_secret io st p bytes = (r, st')"
  shows "(r = Inr () \<longrightarrow> st p = None \<and> private_parent st p \<and> length bytes \<le> LIMIT
      \<and> st' = st(p \<mapsto> File 0x180 bytes) \<and> read_secret st' p = Inr bytes)
    \<and> (r \<noteq> Inr () \<longrightarrow> st' = st) \<and> (\<forall>q n. st q = Some n \<longrightarrow> st' q = Some n)"
  using create_secret_cases [OF assms] create_then_read [of io st p bytes st'] create_keeps_existing [OF assms] assms
  by auto

section \<open>Properties\<close>

text \<open>
  a private file is written once and read back unchanged.  Creating it succeeds only
  under a new name in a private directory, changes nothing else and no existing path, not even
  through a link, and leaves a file that only its owner may use and that reads back as written.
\<close>

theorem private_files_are_created_once:
  assumes "create_secret io st p bytes = (r, st')"
  shows "(r = Inr () \<longrightarrow> st p = None \<and> private_parent st p \<and> length bytes \<le> LIMIT
      \<and> st' = st(p \<mapsto> File 0x180 bytes) \<and> read_secret st' p = Inr bytes)
    \<and> (r \<noteq> Inr () \<longrightarrow> st' = st) \<and> (\<forall>q n. st q = Some n \<longrightarrow> st' q = Some n)"
  by (rule private_files_cases [OF assms])

definition sample_store :: store where
  "sample_store = [[''keys''] \<mapsto> Dir 0x1C0]"

lemma sample_create:
  "create_secret True sample_store [''keys'', ''a''] ''secret''
     = (Inr (), sample_store([''keys'', ''a''] \<mapsto> File 0x180 ''secret''))"
  by (simp add: create_secret_def LIMIT_def private_parent_def parent_of_def sample_store_def shared_mode_def)

theorem private_files_are_created_once_witness:
  "read_secret (sample_store([''keys'', ''a''] \<mapsto> File 0x180 ''secret'')) [''keys'', ''a''] = Inr ''secret''"
  using private_files_are_created_once [OF sample_create] by blast

text \<open>
  saved credentials are loaded again.  When the JSON reader inverts the writer on the
  document, credentials saved for a configuration read back with its region and origin, and are
  provided to that configuration.
\<close>

theorem saved_credentials_are_loaded_again:
  assumes "reads_credentials codec (credentials_document cfg creds)"
    "save_credentials codec io st cfg creds p = (Inr (), st')" "origin lib (config_origin cfg) = Inr t"
  shows "\<exists>provider. static_from_file codec st' p = Inr provider \<and> static_provide lib provider cfg = Inr (Some creds)"
  using save_credentials_round_trip [OF assms(1,2)] static_provide_saved [OF assms(3)] by blast

definition sample_codec :: file_codec where
  "sample_codec =
     \<lparr>credentials_to_json = (\<lambda>_. ''c''),
      credentials_from_json = (\<lambda>_. Some (credentials_document sample_config sample_credentials)),
      stored_to_json = (\<lambda>_. ''s''), stored_from_json = (\<lambda>_. Some sample_sdk),
      callback_to_json = (\<lambda>_. ''b''), callback_from_json = (\<lambda>_. Some (sdk_callback sample_sdk))\<rparr>"

lemma sample_reads:
  "reads_credentials sample_codec (credentials_document sample_config sample_credentials)"
  "reads_authorization sample_codec sample_sdk"
  by (simp_all add: reads_credentials_def reads_authorization_def sample_codec_def utf8_valid.simps utf8_next_def byte_def)

lemma sample_origin: "origin sample_library (config_origin sample_config) = Inr ''https://game.invalid''"
  by (simp add: origin_def sample_session_defs starts_with_def)

theorem saved_credentials_are_loaded_again_witness:
  "\<exists>st' provider. static_from_file sample_codec st' [''keys'', ''a''] = Inr provider
     \<and> static_provide sample_library provider sample_config = Inr (Some sample_credentials)"
proof -
  obtain st' where "save_credentials sample_codec True sample_store sample_config sample_credentials [''keys'', ''a''] = (Inr (), st')"
    by (simp add: save_credentials_def create_secret_def LIMIT_def private_parent_def parent_of_def sample_store_def
        shared_mode_def sample_codec_def)
  from saved_credentials_are_loaded_again [OF sample_reads(1) this sample_origin] show ?thesis by blast
qed

lemma from_callback_json_Inr:
  "from_callback_json lib parse cfg json = Inr sdk \<longleftrightarrow>
     config_validate lib cfg = Inr () \<and> platform cfg = ''android'' \<and> length json \<le> 64 * 1024
     \<and> parse json = Some (sdk_callback sdk) \<and> sdk_region sdk = region cfg
     \<and> origin lib (config_origin cfg) = Inr (sdk_origin sdk)
     \<and> (let cb = sdk_callback sdk in
        cb_uid cb \<noteq> [] \<and> length (cb_uid cb) \<le> 256 \<and> cb_access_token cb \<noteq> [] \<and> length (cb_access_token cb) \<le> 16 * 1024
        \<and> (case cb_id_token cb of None \<Rightarrow> True | Some v \<Rightarrow> length v \<le> 16 * 1024) \<and> lib_header_ok lib (cb_uid cb))"
  by (cases sdk) (auto simp: from_callback_json_def Let_def result_simps split: option.splits if_split_asm)



text \<open>
  importing a retained registration response keeps the response.  It changes the
  store only by creating the output, and then the credentials saved there pass the checks of the
  configuration and are loaded from it again; otherwise the store is as before.
\<close>

theorem import_keeps_the_response:
  assumes "import_registration lib codec parse io st cfg source output = (r, st')"
    "\<And>creds. registered_credentials lib parse st cfg source = Inr creds \<Longrightarrow>
       reads_credentials codec (credentials_document cfg creds)"
  shows "(r \<noteq> Inr () \<longrightarrow> st' = st) \<and> (\<forall>q n. st q = Some n \<longrightarrow> st' q = Some n)
    \<and> (r = Inr () \<longrightarrow> (\<exists>creds m. registered_credentials lib parse st cfg source = Inr creds
        \<and> metadata lib cfg (Some creds) ''validation'' False = Inr m
        \<and> static_from_file codec st' output
          = Inr (credentials_document cfg creds)))"
proof (cases "registered_credentials lib parse st cfg source")
  case (Inl e)
  with assms(1) show ?thesis by (auto simp: import_registration_def)
next
  case (Inr creds)
  with assms(1) have saved: "save_credentials codec io st cfg creds output = (r, st')"
    by (simp add: import_registration_def)
  with save_credentials_round_trip [OF assms(2) [OF Inr]] registered_credentials_Inr [OF Inr] Inr
    private_files_cases [OF saved [unfolded save_credentials_def]]
  show ?thesis by blast
qed

definition sample_jp_config :: session_config where
  "sample_jp_config = sample_config\<lparr>region := ''jp'', master_version := None, resource_version := None\<rparr>"

definition sample_response :: "string \<Rightarrow> (string \<Rightarrow> string option) option" where
  "sample_response _ = Some (\<lambda>name. if name = ''id'' then Some ''p'' else if name = ''credential'' then Some ''c'' else None)"

definition sample_jp_codec :: file_codec where
  "sample_jp_codec = sample_codec\<lparr>credentials_from_json := (\<lambda>_. Some (credentials_document sample_jp_config
     \<lparr>player_id = ''p'', credential = ''c'', device_id = None, bid = None\<rparr>))\<rparr>"

theorem import_keeps_the_response_witness:
  "\<exists>st' provider. static_from_file sample_jp_codec st' [''keys'', ''out''] = Inr provider
     \<and> st' [''keys'', ''in''] = Some (File 0x180 ''{}'')"
proof -
  let ?st = "sample_store([''keys'', ''in''] \<mapsto> File 0x180 ''{}'')"
  have reg: "registered_credentials sample_library sample_response ?st sample_jp_config [''keys'', ''in'']
      = Inr \<lparr>player_id = ''p'', credential = ''c'', device_id = None, bid = None\<rparr>"
    by (simp add: registered_credentials_def read_secret_def LIMIT_def sample_jp_config_def sample_response_def
        config_validate_def config_rejected_def metadata_def meta_insert_def origin_def optional_pair_def
        sample_session_defs byte_def starts_with_def Let_def)
  then obtain st' where i: "import_registration sample_library sample_jp_codec sample_response True ?st sample_jp_config
      [''keys'', ''in''] [''keys'', ''out''] = (Inr (), st')"
    by (simp add: import_registration_def save_credentials_def create_secret_def LIMIT_def private_parent_def
        parent_of_def sample_store_def shared_mode_def sample_jp_codec_def sample_codec_def)
  have "reads_credentials sample_jp_codec (credentials_document sample_jp_config creds)"
    if "registered_credentials sample_library sample_response ?st sample_jp_config [''keys'', ''in''] = Inr creds" for creds
    using that sample_reads(1) by (simp add: reg reads_credentials_def sample_jp_codec_def sample_codec_def)
  from import_keeps_the_response [OF i this] show ?thesis by auto
qed

end
