(* ===== verification/Json.thy ===== *)
theory Json
  imports Errors
begin

text \<open>
  JSON values and message descriptors, as the server's projection and query parsing use them.
  A number keeps its decimal text; an object is the list of its entries.  The descriptor pool
  is generated data of the protocol crate and a parameter of every definition that reads it.
\<close>

datatype json =
    Null
  | Bool bool
  | Number string
  | String string
  | Array "json list"
  | Object "(string \<times> json) list"

datatype field_kind =
    KString | KBytes | KBool | KFloat | KDouble
  | KInt64 | KSint64 | KSfixed64 | KUint64 | KFixed64
  | KInt32 | KSint32 | KSfixed32 | KUint32 | KFixed32
  | KEnum string
  | KMessage string

record field_descriptor =
  f_name :: string
  f_json_name :: string
  f_is_list :: bool
  f_is_map :: bool
  f_kind :: field_kind

type_synonym descriptor_pool = "string \<Rightarrow> field_descriptor list option"

definition fields_of :: "descriptor_pool \<Rightarrow> string \<Rightarrow> field_descriptor list" where
  "fields_of pool d = (case pool d of None \<Rightarrow> [] | Some fs \<Rightarrow> fs)"

definition field_by_json_name :: "descriptor_pool \<Rightarrow> string \<Rightarrow> string \<Rightarrow> field_descriptor option" where
  "field_by_json_name pool d name = find (\<lambda>f. f_json_name f = name) (fields_of pool d)"

definition field_by_name :: "descriptor_pool \<Rightarrow> string \<Rightarrow> string \<Rightarrow> field_descriptor option" where
  "field_by_name pool d name = find (\<lambda>f. f_name f = name) (fields_of pool d)"

definition as_object :: "json \<Rightarrow> (string \<times> json) list option" where
  "as_object v = (case v of Object kvs \<Rightarrow> Some kvs | _ \<Rightarrow> None)"

definition as_array :: "json \<Rightarrow> json list option" where
  "as_array v = (case v of Array vs \<Rightarrow> Some vs | _ \<Rightarrow> None)"

lemma as_object_eq [result_simps]: "as_object v = Some kvs \<longleftrightarrow> v = Object kvs"
  by (cases v) (simp_all add: as_object_def)

lemma as_array_eq [result_simps]: "as_array v = Some vs \<longleftrightarrow> v = Array vs"
  by (cases v) (simp_all add: as_array_def)

lemma as_simps [simp]: "as_object (Object kvs) = Some kvs" "as_array (Array vs) = Some vs"
  by (simp_all add: as_object_def as_array_def)

lemma size_object_entry: "(k, v) \<in> set kvs \<Longrightarrow> size v < size (Object kvs)"
  by (induction kvs) auto

lemma size_object_lookup: "map_of kvs k = Some v \<Longrightarrow> size v < size (Object kvs)"
  by (rule size_object_entry) (rule map_of_SomeD)

lemma size_array_entry: "v \<in> set vs \<Longrightarrow> size v < size (Array vs)"
  by (induction vs) auto

end
