(* ===== verification/Sdk_Http.thy ===== *)
theory Sdk_Http
  imports Sdk_Form Session_Config Json
begin

text \<open>
  The SDK HTTP login primitives (\<open>client/src/sdk_http.rs\<close>, \<open>client/src/sdk_http/response.rs\<close>):
  configuration, the signed form of each call, the exchange, and the interpretation of the
  answer.  URL parsing, header syntax, base64, RSA, MD5 and JSON deserialisation are library
  functions, held by a record; \<open>'k\<close> is the type of RSA public keys.
\<close>

section \<open>Configuration\<close>

definition MAX_RESPONSE :: nat where
  "MAX_RESPONSE = 256 * 1024"

definition RSA_PATH :: string where "RSA_PATH = ''/gapi/client/rsa''"
definition PASSWORD_PATH :: string where "PASSWORD_PATH = ''/gapi/client/login''"
definition CACHE_PATH :: string where "CACHE_PATH = ''/gapi/client/cache.login''"

definition COMMON_FIELDS :: "string list" where
  "COMMON_FIELDS =
     [''game_id'', ''server_id'', ''merchant_id'', ''app_ver'', ''sdk_ver'', ''channel_id'', ''platform'',
      ''platform_type'', ''net'', ''operators'', ''model'', ''pf_ver'', ''udid'', ''dp'', ''adid'', ''lang'',
      ''sdk_log_type'', ''ad_ext'', ''time_zone'', ''isRoot'']"

record 'k sdk_library =
  sl_parse_url :: "string \<Rightarrow> parsed_url option"
  sl_header_ok :: "string \<Rightarrow> bool"
  sl_percent_decode :: "string \<Rightarrow> string"
  sl_md5 :: "string \<Rightarrow> string"
  sl_base64_decode :: "string \<Rightarrow> string option"
  sl_base64_encode :: "string \<Rightarrow> string"
  sl_key_from_der :: "string \<Rightarrow> 'k option"
  sl_key_bits :: "'k \<Rightarrow> nat"
  sl_key_size :: "'k \<Rightarrow> nat"
  sl_encrypt :: "'k \<Rightarrow> string \<Rightarrow> string option"
  sl_envelope :: "string \<Rightarrow> (int \<times> string option) option"
  sl_rsa_data :: "string \<Rightarrow> (string \<times> string) option"
  sl_user_data :: "string \<Rightarrow> (json \<times> string option \<times> string option \<times> int option \<times> string option) option"

definition app_key_new :: "string \<Rightarrow> string sdk_outcome" where
  "app_key_new v = (if v = [] \<or> 4096 < length v then sdk_fail SdkInvalidInput else Inr v)"

text \<open>The values come in the order of their names, each name once, as an ordered map has them.\<close>

definition common_parameters_new :: "(string \<times> string option) list \<Rightarrow> (string \<times> string) list sdk_outcome" where
  "common_parameters_new vals =
     (if length vals \<noteq> length COMMON_FIELDS
         \<or> \<not> list_all (\<lambda>k. map_of vals k \<noteq> None) COMMON_FIELDS
         \<or> list_ex (\<lambda>(_, v). case v of Some t \<Rightarrow> 4096 < length t | None \<Rightarrow> False) vals
      then sdk_fail SdkInvalidInput
      else Inr (List.map_filter (\<lambda>(k, v). map_option (Pair k) v) vals))"

record sdk_http_config =
  base_url :: string
  allowed_base_urls :: "string list"

record sdk_http_options =
  sdk_timeout :: nat
  sdk_minimum_interval :: nat

definition default_sdk_http_options :: sdk_http_options where
  "default_sdk_http_options = \<lparr>sdk_timeout = 10000, sdk_minimum_interval = 1000\<rparr>"

record sdk_headers =
  trace_id :: "string option"
  one_sdk_version :: "string option"

datatype account_type = Legacy | Email u32 | Phone u32

record password_login =
  pl_user_id :: string
  pl_password :: string
  pl_account_type :: account_type
  pl_ticket :: "string option"
  pl_voucher :: "string option"

record current_user =
  cu_uid :: string
  cu_mid :: string

record cache_login =
  cl_access_key :: string
  cl_ticket :: "string option"
  cl_voucher :: "string option"
  cl_current_user :: "current_user option"

record sdk_client =
  sk_config :: sdk_http_config
  sk_parameters :: "(string \<times> string) list"
  sk_key :: string
  sk_headers :: sdk_headers
  sk_options :: sdk_http_options
  sk_next :: nat
  sk_binding :: nat

definition normalize_base :: "'k sdk_library \<Rightarrow> string \<Rightarrow> string sdk_outcome" where
  "normalize_base lib v =
     (case sl_parse_url lib v of
        None \<Rightarrow> sdk_fail SdkInvalidConfig
      | Some url \<Rightarrow>
          if url_scheme url \<noteq> ''https''
             \<or> url_host url = None
             \<or> url_username url \<noteq> []
             \<or> url_password url \<noteq> None
             \<or> url_query url \<noteq> None
             \<or> url_fragment url \<noteq> None
             \<or> \<not> (url_path url = ''/'' \<or> url_path url = ''/passport'' \<or> url_path url = ''/passport/'')
          then sdk_fail SdkInvalidConfig
          else Inr (url_origin url @ rev (strip_tokens [''/''] (rev (url_path url)))))"

definition header_value_bad :: "'k sdk_library \<Rightarrow> string option \<Rightarrow> bool" where
  "header_value_bad lib v = (case v of None \<Rightarrow> False | Some t \<Rightarrow> 1024 < length t \<or> \<not> sl_header_ok lib t)"

text \<open>\<open>SdkHttpClient::new\<close>; \<open>binding\<close> is the fresh identity of the instance.\<close>

definition sdk_client_new ::
  "'k sdk_library \<Rightarrow> sdk_http_config \<Rightarrow> (string \<times> string) list \<Rightarrow> string \<Rightarrow> sdk_headers \<Rightarrow> sdk_http_options \<Rightarrow>
     nat \<Rightarrow> nat \<Rightarrow> sdk_client sdk_outcome" where
  "sdk_client_new lib cfg params key headers opts now binding =
     and_then (normalize_base lib (base_url cfg)) (\<lambda>base.
       if \<not> list_ex (\<lambda>v. result_ok (normalize_base lib v) = Some base) (allowed_base_urls cfg)
          \<or> sdk_timeout opts = 0 \<or> 120000 < sdk_timeout opts \<or> 120000 < sdk_minimum_interval opts
       then sdk_fail SdkInvalidConfig
       else if header_value_bad lib (trace_id headers) \<or> header_value_bad lib (one_sdk_version headers)
       then sdk_fail SdkInvalidConfig
       else Inr \<lparr>sk_config = cfg\<lparr>base_url := base\<rparr>, sk_parameters = params, sk_key = key, sk_headers = headers,
                 sk_options = opts, sk_next = now, sk_binding = binding\<rparr>)"

section \<open>Forms\<close>

definition validate_secret :: "string \<Rightarrow> nat \<Rightarrow> unit sdk_outcome" where
  "validate_secret v most = (if v = [] \<or> most < length v then sdk_fail SdkInvalidInput else Inr ())"

definition optional_field ::
  "(string \<times> string) list \<Rightarrow> string \<Rightarrow> string option \<Rightarrow> (string \<times> string) list sdk_outcome" where
  "optional_field fs name v =
     (case v of
        None \<Rightarrow> Inr fs
      | Some t \<Rightarrow> if t = [] then Inr fs
                  else and_then (validate_secret t (16 * 1024)) (\<lambda>_. Inr (fs @ [(name, t)])))"

definition user_fields :: "current_user option \<Rightarrow> (string \<times> string) list sdk_outcome" where
  "user_fields user =
     (case user of
        None \<Rightarrow> Inr []
      | Some u \<Rightarrow>
          and_then (validate_secret (cu_uid u) 256) (\<lambda>_.
            if 256 < length (cu_mid u) then sdk_fail SdkInvalidInput
            else Inr [(''uid'', cu_uid u), (''mid'', cu_mid u)]))"

definition client_form ::
  "'k sdk_library \<Rightarrow> sdk_client \<Rightarrow> (string \<times> string) list \<Rightarrow> bool \<Rightarrow> current_user option \<Rightarrow> nat \<Rightarrow> string sdk_outcome" where
  "client_form lib client fs already_encoded user timestamp_ms =
     and_then (user_fields user) (\<lambda>us.
       sign_form (sl_percent_decode lib) (sl_md5 lib)
         (map (\<lambda>(k, v). (k, if already_encoded then encoded v else raw_encoded v)) (fs @ us)
          @ map (\<lambda>(k, v). (k, encoded v)) (sk_parameters client)
          @ [(''timestamp'', dec_of_nat timestamp_ms), (''web_code'', ''6'')])
         (sk_key client))"

section \<open>Passwords\<close>

record rsa_challenge =
  rc_pem :: string
  rc_hash :: string
  rc_binding :: nat

definition parse_rsa_public_key :: "'k sdk_library \<Rightarrow> string \<Rightarrow> 'k sdk_outcome" where
  "parse_rsa_public_key lib pem =
     (case Option.bind (strip_prefix (trim pem) ''-----BEGIN PUBLIC KEY-----'')
             (\<lambda>v. strip_suffix v ''-----END PUBLIC KEY-----'') of
        None \<Rightarrow> sdk_fail SdkProtocol
      | Some body \<Rightarrow>
          and_then (ok_or (sl_base64_decode lib (filter (\<lambda>c. \<not> is_ascii_whitespace c) body))
                      \<lparr>sdk_kind = SdkProtocol, sdk_status = None\<rparr>) (\<lambda>der.
            ok_or (sl_key_from_der lib der) \<lparr>sdk_kind = SdkProtocol, sdk_status = None\<rparr>))"

definition key_bits_ok :: "'k sdk_library \<Rightarrow> 'k \<Rightarrow> bool" where
  "key_bits_ok lib k \<longleftrightarrow> 1024 \<le> sl_key_bits lib k \<and> sl_key_bits lib k \<le> 4096"

definition encrypt_password :: "'k sdk_library \<Rightarrow> rsa_challenge \<Rightarrow> string \<Rightarrow> string sdk_outcome" where
  "encrypt_password lib challenge password =
     and_then (parse_rsa_public_key lib (rc_pem challenge)) (\<lambda>k.
       if \<not> key_bits_ok lib k then sdk_fail SdkProtocol
       else (let plaintext = rc_hash challenge @ password in
             if sl_key_size lib k - 11 < length plaintext then sdk_fail SdkInvalidInput
             else and_then (ok_or (sl_encrypt lib k plaintext) \<lparr>sdk_kind = SdkProtocol, sdk_status = None\<rparr>) (\<lambda>c.
               Inr (sl_base64_encode lib c))))"

definition account_fields :: "account_type \<Rightarrow> (string \<times> string) list" where
  "account_fields t =
     (case t of
        Legacy \<Rightarrow> []
      | Email country \<Rightarrow> [(''country_id'', dec_of_nat (unat country)), (''user_id_type'', ''0'')]
      | Phone country \<Rightarrow> [(''country_id'', dec_of_nat (unat country)), (''user_id_type'', ''1'')])"

text \<open>The checks and fields of \<open>password_login\<close> before its call, and those of \<open>cache_login\<close>.\<close>

definition password_fields ::
  "'k sdk_library \<Rightarrow> sdk_client \<Rightarrow> rsa_challenge \<Rightarrow> password_login \<Rightarrow> bool \<Rightarrow> (string \<times> string) list sdk_outcome" where
  "password_fields lib client rsa login cancelled =
     (if cancelled then sdk_fail SdkCancelled
      else if rc_binding rsa \<noteq> sk_binding client then sdk_fail SdkInvalidInput
      else and_then (validate_secret (pl_user_id login) 1024) (\<lambda>_.
           and_then (validate_secret (pl_password login) 4096) (\<lambda>_.
           and_then (encrypt_password lib rsa (pl_password login)) (\<lambda>secret.
           and_then (optional_field [(''user_id'', pl_user_id login), (''pwd'', secret)] ''ticket'' (pl_ticket login)) (\<lambda>fs.
           and_then (optional_field fs ''third_payment_voucher'' (pl_voucher login)) (\<lambda>fs.
             Inr (fs @ account_fields (pl_account_type login))))))))"

definition cache_fields :: "cache_login \<Rightarrow> (string \<times> string) list sdk_outcome" where
  "cache_fields login =
     and_then (validate_secret (cl_access_key login) (16 * 1024)) (\<lambda>_.
     and_then (optional_field [(''access_key'', cl_access_key login)] ''ticket'' (cl_ticket login)) (\<lambda>fs.
       optional_field fs ''third_payment_voucher'' (cl_voucher login)))"

section \<open>The exchange\<close>

record sdk_request =
  sr_url :: string
  sr_headers :: "(string \<times> string \<times> bool) list"
  sr_body :: string

text \<open>An answer arrives in chunks; a broken connection is told by whether it timed out.\<close>

record sdk_http_reply =
  hr_status :: nat
  hr_length :: "nat option"
  hr_chunks :: "(bool + string) list"

definition network_error :: "bool \<Rightarrow> 'a sdk_outcome" where
  "network_error timed_out = sdk_fail (if timed_out then SdkTimeout else SdkTransport)"

fun read_chunks :: "(bool + string) list \<Rightarrow> string \<Rightarrow> string sdk_outcome" where
  "read_chunks [] acc = Inr acc"
| "read_chunks (Inl timed_out # chunks) acc = network_error timed_out"
| "read_chunks (Inr chunk # chunks) acc =
     (if MAX_RESPONSE < length acc + length chunk then sdk_fail SdkProtocol
      else read_chunks chunks (acc @ chunk))"

definition read_reply :: "sdk_http_reply \<Rightarrow> string sdk_outcome" where
  "read_reply r =
     (if \<not> (200 \<le> hr_status r \<and> hr_status r < 300) \<or> hr_status r = 204 \<or> hr_status r = 205
      then Inl \<lparr>sdk_kind = SdkHttpStatus, sdk_status = Some (hr_status r)\<rparr>
      else if (case hr_length r of Some n \<Rightarrow> MAX_RESPONSE < n | None \<Rightarrow> False) then sdk_fail SdkProtocol
      else read_chunks (hr_chunks r) [])"

definition telemetry_header ::
  "'k sdk_library \<Rightarrow> string \<Rightarrow> string option \<Rightarrow> (string \<times> string \<times> bool) list sdk_outcome" where
  "telemetry_header lib name v =
     (case v of
        None \<Rightarrow> Inr []
      | Some t \<Rightarrow> if t = [] then Inr []
                  else if sl_header_ok lib t then Inr [(name, t, True)] else sdk_fail SdkInvalidInput)"

text \<open>The request of a call, from the body on; \<open>ms\<close> is the clock, absent before the epoch.\<close>

definition build_sdk_request ::
  "'k sdk_library \<Rightarrow> sdk_client \<Rightarrow> string \<Rightarrow> (string \<times> string) list \<Rightarrow> bool \<Rightarrow> current_user option \<Rightarrow>
     nat option \<Rightarrow> string \<Rightarrow> sdk_request sdk_outcome" where
  "build_sdk_request lib client path fs already_encoded user ms request_id =
     (case ms of
        None \<Rightarrow> sdk_fail SdkInvalidInput
      | Some t \<Rightarrow>
          if 2 ^ 64 \<le> t then sdk_fail SdkInvalidInput
          else and_then (client_form lib client fs already_encoded user t) (\<lambda>body.
               and_then (telemetry_header lib ''X-Game-Trace-Id'' (trace_id (sk_headers client))) (\<lambda>a.
               and_then (telemetry_header lib ''one-sdk-ver'' (one_sdk_version (sk_headers client))) (\<lambda>b.
                 Inr \<lparr>sr_url = base_url (sk_config client) @ path,
                      sr_headers = [(''User-Agent'', ''Mozilla/5.0 BSGameSDK'', False), (''Api-Version'', ''1'', False),
                        (''Content-Type'', ''application/x-www-form-urlencoded'', False),
                        (''X-Game-Request-Id'', request_id, False)] @ a @ b,
                      sr_body = body\<rparr>))))"

text \<open>
  The surroundings of one call: whether another call holds the permit, how far the work came if
  cancellation or the deadline won, the clocks, and what the network answers.
\<close>

datatype progress = WaitingForSlot | Slotted | RequestSent

record sdk_exchange =
  ex_busy :: bool
  ex_interrupted :: "(sdk_error_kind \<times> progress) option"
  ex_now :: nat
  ex_ms :: "nat option"
  ex_request_id :: string
  ex_reply :: "bool + sdk_http_reply"

definition take_slot :: "nat \<Rightarrow> sdk_client \<Rightarrow> sdk_client" where
  "take_slot now client = client\<lparr>sk_next := now + sdk_minimum_interval (sk_options client)\<rparr>"

text \<open>\<open>send\<close>: its result, the requests put on the wire, and the client afterwards.\<close>

definition sdk_send ::
  "'k sdk_library \<Rightarrow> sdk_client \<Rightarrow> string \<Rightarrow> (string \<times> string) list \<Rightarrow> bool \<Rightarrow> current_user option \<Rightarrow>
     sdk_exchange \<Rightarrow> string sdk_outcome \<times> sdk_request list \<times> sdk_client" where
  "sdk_send lib client path fs already_encoded user ex =
     (if ex_busy ex then (sdk_fail SdkBusy, [], client)
      else (let built = build_sdk_request lib client path fs already_encoded user (ex_ms ex) (ex_request_id ex);
                slotted = take_slot (max (ex_now ex) (sk_next client)) client in
            case ex_interrupted ex of
              Some (k, WaitingForSlot) \<Rightarrow> (sdk_fail k, [], client)
            | Some (k, Slotted) \<Rightarrow> (sdk_fail k, [], slotted)
            | Some (k, RequestSent) \<Rightarrow>
                (case built of Inl e \<Rightarrow> (Inl e, [], slotted) | Inr r \<Rightarrow> (sdk_fail k, [r], slotted))
            | None \<Rightarrow>
                (case built of
                   Inl e \<Rightarrow> (Inl e, [], slotted)
                 | Inr r \<Rightarrow>
                     ((case ex_reply ex of Inl timed_out \<Rightarrow> network_error timed_out | Inr reply \<Rightarrow> read_reply reply),
                      [r], slotted))))"

section \<open>Answers\<close>

datatype 'a sdk_reply = Success 'a | Rejected int string

definition requires_challenge :: "int \<Rightarrow> bool" where
  "requires_challenge code \<longleftrightarrow> code = 200007"

definition requires_account_restore :: "int \<Rightarrow> bool" where
  "requires_account_restore code \<longleftrightarrow> code = 800011"

definition parse_sdk_reply ::
  "'k sdk_library \<Rightarrow> string \<Rightarrow> (string \<Rightarrow> 'a sdk_outcome) \<Rightarrow> 'a sdk_reply sdk_outcome" where
  "parse_sdk_reply lib bytes success =
     (if MAX_RESPONSE < length bytes then sdk_fail SdkProtocol
      else (case sl_envelope lib bytes of
              None \<Rightarrow> sdk_fail SdkProtocol
            | Some (code, data) \<Rightarrow>
                if code \<noteq> 0 then Inr (Rejected code (case data of None \<Rightarrow> ''null'' | Some d \<Rightarrow> d))
                else (case data of
                        None \<Rightarrow> sdk_fail SdkProtocol
                      | Some d \<Rightarrow> and_then (success d) (\<lambda>x. Inr (Success x)))))"

definition rsa_reply :: "'k sdk_library \<Rightarrow> string \<Rightarrow> nat \<Rightarrow> rsa_challenge sdk_reply sdk_outcome" where
  "rsa_reply lib bytes binding =
     parse_sdk_reply lib bytes (\<lambda>d.
       case sl_rsa_data lib d of
         None \<Rightarrow> sdk_fail SdkProtocol
       | Some (pem, hash) \<Rightarrow>
           if 8192 < length pem \<or> 1024 < length hash then sdk_fail SdkProtocol
           else and_then (parse_rsa_public_key lib pem) (\<lambda>k.
             if \<not> key_bits_ok lib k then sdk_fail SdkProtocol
             else Inr \<lparr>rc_pem = pem, rc_hash = hash, rc_binding = binding\<rparr>))"

record pending_login =
  pn_uid :: string
  pn_access_key :: "string option"
  pn_id_token :: "string option"
  pn_expires :: "int option"
  pn_refresh_token :: "string option"

text \<open>A user id is a text or a nonnegative integer.\<close>

definition deserialize_uid :: "json \<Rightarrow> string option" where
  "deserialize_uid v =
     (case v of
        String s \<Rightarrow> Some s
      | Number t \<Rightarrow> map_option dec_of_nat (parse_u64 t)
      | _ \<Rightarrow> None)"

definition access_key :: "pending_login \<Rightarrow> string" where
  "access_key p = (case pn_access_key p of None \<Rightarrow> [] | Some k \<Rightarrow> k)"

definition has_refresh_token :: "pending_login \<Rightarrow> bool" where
  "has_refresh_token p = (case pn_refresh_token p of None \<Rightarrow> False | Some t \<Rightarrow> t \<noteq> [])"

definition too_long :: "string option \<Rightarrow> bool" where
  "too_long v = (case v of None \<Rightarrow> False | Some t \<Rightarrow> 16 * 1024 < length t)"

definition login_reply :: "'k sdk_library \<Rightarrow> string \<Rightarrow> string option \<Rightarrow> pending_login sdk_reply sdk_outcome" where
  "login_reply lib bytes old_key =
     parse_sdk_reply lib bytes (\<lambda>d.
       case Option.bind (sl_user_data lib d) (\<lambda>(uid, key, token, expires, refresh).
              map_option (\<lambda>u. \<lparr>pn_uid = u, pn_access_key = key, pn_id_token = token, pn_expires = expires,
                               pn_refresh_token = refresh\<rparr>) (deserialize_uid uid)) of
         None \<Rightarrow> sdk_fail SdkProtocol
       | Some user \<Rightarrow>
           (let user = (case old_key of None \<Rightarrow> user | Some old \<Rightarrow> user\<lparr>pn_access_key := Some old\<rparr>);
                as_protocol = map_err (\<lambda>_. \<lparr>sdk_kind = SdkProtocol, sdk_status = None\<rparr>) in
            and_then (as_protocol (validate_secret (pn_uid user) 256)) (\<lambda>_.
            and_then (as_protocol (validate_secret (access_key user) (16 * 1024))) (\<lambda>_.
              if too_long (pn_id_token user) \<or> too_long (pn_refresh_token user) then sdk_fail SdkProtocol
              else Inr user))))"

section \<open>The calls\<close>

definition fetch_rsa ::
  "'k sdk_library \<Rightarrow> sdk_client \<Rightarrow> current_user option \<Rightarrow> sdk_exchange \<Rightarrow>
     rsa_challenge sdk_reply sdk_outcome \<times> sdk_request list \<times> sdk_client" where
  "fetch_rsa lib client user ex =
     (case sdk_send lib client RSA_PATH [] True user ex of
        (r, sent, client') \<Rightarrow> (and_then r (\<lambda>body. rsa_reply lib body (sk_binding client)), sent, client'))"

definition sdk_password_login ::
  "'k sdk_library \<Rightarrow> sdk_client \<Rightarrow> rsa_challenge \<Rightarrow> password_login \<Rightarrow> current_user option \<Rightarrow> bool \<Rightarrow> sdk_exchange \<Rightarrow>
     pending_login sdk_reply sdk_outcome \<times> sdk_request list \<times> sdk_client" where
  "sdk_password_login lib client rsa login user cancelled ex =
     (case password_fields lib client rsa login cancelled of
        Inl e \<Rightarrow> (Inl e, [], client)
      | Inr fs \<Rightarrow>
          (case sdk_send lib client PASSWORD_PATH fs False user ex of
             (r, sent, client') \<Rightarrow> (and_then r (\<lambda>body. login_reply lib body None), sent, client')))"

definition sdk_cache_login ::
  "'k sdk_library \<Rightarrow> sdk_client \<Rightarrow> cache_login \<Rightarrow> sdk_exchange \<Rightarrow>
     pending_login sdk_reply sdk_outcome \<times> sdk_request list \<times> sdk_client" where
  "sdk_cache_login lib client login ex =
     (case cache_fields login of
        Inl e \<Rightarrow> (Inl e, [], client)
      | Inr fs \<Rightarrow>
          (case sdk_send lib client CACHE_PATH fs True (cl_current_user login) ex of
             (r, sent, client') \<Rightarrow> (and_then r (\<lambda>body. login_reply lib body (Some (cl_access_key login))), sent, client')))"

section \<open>Facts\<close>

lemma sdk_send_cases:
  assumes "sdk_send lib client path fs ae user ex = (r, sent, client')"
  shows "(sent = [] \<or> (\<exists>q. sent = [q] \<and> build_sdk_request lib client path fs ae user (ex_ms ex) (ex_request_id ex) = Inr q))
    \<and> (client' = client \<or> client' = take_slot (max (ex_now ex) (sk_next client)) client)"
  using assms
  by (auto simp: sdk_send_def Let_def split: if_split_asm option.split_asm prod.split_asm progress.split_asm sum.split_asm)

lemma build_sdk_request_url:
  "build_sdk_request lib client path fs ae user ms i = Inr q \<Longrightarrow> sr_url q = base_url (sk_config client) @ path"
  by (auto simp: build_sdk_request_def result_simps split: option.split_asm if_split_asm)

lemma take_slot_frame [simp]:
  "sk_config (take_slot t client) = sk_config client" "sk_binding (take_slot t client) = sk_binding client"
  "sk_options (take_slot t client) = sk_options client" "sk_next (take_slot t client) = t + sdk_minimum_interval (sk_options client)"
  by (simp_all add: take_slot_def)

lemma sdk_client_new_Inr:
  assumes "sdk_client_new lib cfg params key headers opts now b = Inr client"
  shows "normalize_base lib (base_url cfg) = Inr (base_url (sk_config client)) \<and> sk_binding client = b
    \<and> (\<exists>v\<in>set (allowed_base_urls cfg). normalize_base lib v = Inr (base_url (sk_config client)))"
  using assms by (auto simp: sdk_client_new_def result_simps list_ex_iff split: if_split_asm)

lemma normalize_base_https:
  "normalize_base lib v = Inr base \<Longrightarrow> \<exists>url. sl_parse_url lib v = Some url \<and> url_scheme url = ''https''
     \<and> url_username url = [] \<and> url_password url = None \<and> starts_with base (url_origin url)"
  by (auto simp: normalize_base_def split: option.split_asm if_split_asm)

lemma read_chunks_bound: "read_chunks chunks acc = Inr out \<Longrightarrow> length acc \<le> MAX_RESPONSE \<Longrightarrow> length out \<le> MAX_RESPONSE"
proof (induction chunks arbitrary: acc)
  case (Cons c chunks)
  show ?case
  proof (cases c)
    case (Inr chunk)
    with Cons.prems have "read_chunks chunks (acc @ chunk) = Inr out" "length (acc @ chunk) \<le> MAX_RESPONSE"
      by (auto split: if_split_asm)
    then show ?thesis by (rule Cons.IH)
  qed (use Cons.prems in \<open>simp add: network_error_def\<close>)
qed simp

lemma validate_secret_Inr [result_simps]: "validate_secret v n = Inr u \<longleftrightarrow> v \<noteq> [] \<and> length v \<le> n"
  by (auto simp: validate_secret_def)

lemma password_fields_Inr:
  "password_fields lib client rsa login cancelled = Inr fs \<Longrightarrow>
     \<not> cancelled \<and> rc_binding rsa = sk_binding client \<and> (\<exists>c. encrypt_password lib rsa (pl_password login) = Inr c)"
  by (auto simp: password_fields_def result_simps split: if_split_asm)

text \<open>The fields of a login depend on the password through its ciphertext only.\<close>

lemma password_fields_ciphertext:
  assumes "encrypt_password lib rsa p = encrypt_password lib rsa p'"
    "validate_secret p 4096 = validate_secret p' 4096"
  shows "password_fields lib client rsa (login\<lparr>pl_password := p\<rparr>) cancelled
    = password_fields lib client rsa (login\<lparr>pl_password := p'\<rparr>) cancelled"
  using assms by (simp add: password_fields_def)

lemma login_reply_Success:
  assumes "login_reply lib bytes old = Inr (Success p)"
  shows "pn_uid p \<noteq> [] \<and> length (pn_uid p) \<le> 256 \<and> access_key p \<noteq> [] \<and> length (access_key p) \<le> 16384
    \<and> \<not> too_long (pn_id_token p) \<and> \<not> too_long (pn_refresh_token p) \<and> (\<forall>k. old = Some k \<longrightarrow> access_key p = k)"
proof -
  from assms obtain d user where user: "p = (case old of None \<Rightarrow> user | Some old \<Rightarrow> user\<lparr>pn_access_key := Some old\<rparr>)"
    "validate_secret (pn_uid p) 256 = Inr ()" "validate_secret (access_key p) (16 * 1024) = Inr ()"
    "\<not> too_long (pn_id_token p)" "\<not> too_long (pn_refresh_token p)"
    by (auto simp: login_reply_def parse_sdk_reply_def Let_def result_simps split: option.split_asm if_split_asm)
  then show ?thesis by (auto simp: result_simps access_key_def)
qed

section \<open>Properties\<close>

text \<open>
  SDK calls go to the approved base only.  A client exists only if its base is an https
  address in the allowlist after normalisation; each call then puts at most one request on the
  wire, to that base and the path of the call, and never changes the base or the binding.
\<close>

theorem sdk_calls_stay_at_the_approved_base:
  assumes "sdk_client_new lib cfg params key headers opts now b = Inr client"
    and "sdk_send lib client path fs ae user ex = (r, sent, client')"
  shows "\<exists>base v. v \<in> set (allowed_base_urls cfg) \<and> normalize_base lib v = Inr base
    \<and> normalize_base lib (base_url cfg) = Inr base
    \<and> (\<exists>url. sl_parse_url lib v = Some url \<and> url_scheme url = ''https'' \<and> starts_with base (url_origin url))
    \<and> list_all (\<lambda>q. sr_url q = base @ path) sent \<and> length sent \<le> 1
    \<and> sk_config client' = sk_config client \<and> sk_binding client' = b"
proof -
  let ?base = "base_url (sk_config client)"
  from sdk_client_new_Inr [OF assms(1)] obtain v where v: "v \<in> set (allowed_base_urls cfg)" "normalize_base lib v = Inr ?base"
    "normalize_base lib (base_url cfg) = Inr ?base" "sk_binding client = b" by blast
  moreover have "\<exists>url. sl_parse_url lib v = Some url \<and> url_scheme url = ''https'' \<and> starts_with ?base (url_origin url)"
    using normalize_base_https [OF v(2)] by blast
  moreover have "list_all (\<lambda>q. sr_url q = ?base @ path) sent \<and> length sent \<le> 1
      \<and> sk_config client' = sk_config client \<and> sk_binding client' = b"
    using sdk_send_cases [OF assms(2)] v(4) by (auto dest: build_sdk_request_url)
  ultimately show ?thesis by blast
qed

definition sample_sdk_library :: "unit sdk_library" where
  "sample_sdk_library = \<lparr>sl_parse_url = (\<lambda>v. Some \<lparr>url_scheme = ''https'', url_host = Some ''h'', url_username = [],
       url_password = None, url_query = None, url_fragment = None, url_path = ''/passport/'', url_origin = ''https://h''\<rparr>),
     sl_header_ok = (\<lambda>_. True), sl_percent_decode = (\<lambda>_. []), sl_md5 = (\<lambda>_. ''0''),
     sl_base64_decode = Some, sl_base64_encode = (\<lambda>s. s), sl_key_from_der = (\<lambda>_. Some ()),
     sl_key_bits = (\<lambda>_. 2048), sl_key_size = (\<lambda>_. 256), sl_encrypt = (\<lambda>_ s. Some (map (\<lambda>_. CHR ''x'') s)),
     sl_envelope = (\<lambda>_. Some (0, Some [])), sl_rsa_data = (\<lambda>_. None),
     sl_user_data = (\<lambda>_. Some (Number ''7'', Some ''new'', None, None, None))\<rparr>"

definition sample_sdk_client :: sdk_client where
  "sample_sdk_client = \<lparr>sk_config = \<lparr>base_url = ''https://h/passport'', allowed_base_urls = [''u'']\<rparr>, sk_parameters = [],
     sk_key = ''k'', sk_headers = \<lparr>trace_id = None, one_sdk_version = None\<rparr>, sk_options = default_sdk_http_options,
     sk_next = 0, sk_binding = 1\<rparr>"

definition sample_sdk_exchange :: sdk_exchange where
  "sample_sdk_exchange = \<lparr>ex_busy = False, ex_interrupted = None, ex_now = 0, ex_ms = Some 5, ex_request_id = ''i'',
     ex_reply = Inr \<lparr>hr_status = 200, hr_length = None, hr_chunks = [Inr ''ok'']\<rparr>\<rparr>"

lemma sample_client_new:
  "sdk_client_new sample_sdk_library \<lparr>base_url = ''u'', allowed_base_urls = [''u'']\<rparr> [] ''k''
     \<lparr>trace_id = None, one_sdk_version = None\<rparr> default_sdk_http_options 0 1 = Inr sample_sdk_client"
  by (simp add: sdk_client_new_def normalize_base_def sample_sdk_library_def sample_sdk_client_def
      default_sdk_http_options_def header_value_bad_def strip_tokens.simps starts_with_def)

theorem sdk_calls_stay_at_the_approved_base_witness:
  "list_all (\<lambda>q. sr_url q = ''https://h/passport'' @ RSA_PATH)
     (fst (snd (sdk_send sample_sdk_library sample_sdk_client RSA_PATH [] True None sample_sdk_exchange)))"
proof -
  obtain r sent c where s: "sdk_send sample_sdk_library sample_sdk_client RSA_PATH [] True None sample_sdk_exchange = (r, sent, c)"
    by (metis prod_cases3)
  have "normalize_base sample_sdk_library ''u'' = Inr ''https://h/passport''"
    using sdk_client_new_Inr [OF sample_client_new] by (simp add: sample_sdk_client_def)
  with sdk_calls_stay_at_the_approved_base [OF sample_client_new s] s show ?thesis by auto
qed


definition sample_challenge :: rsa_challenge where
  "sample_challenge = \<lparr>rc_pem = ''-----BEGIN PUBLIC KEY-----AA-----END PUBLIC KEY-----'', rc_hash = ''h'', rc_binding = 2\<rparr>"

lemma sample_encrypt:
  "encrypt_password sample_sdk_library sample_challenge ''ab'' = Inr ''xxx''"
  "encrypt_password sample_sdk_library sample_challenge ''cd'' = Inr ''xxx''"
proof -
  have "trim (rc_pem sample_challenge) = rc_pem sample_challenge"
    by code_simp
  then have "parse_rsa_public_key sample_sdk_library (rc_pem sample_challenge) = Inr ()"
    by (simp add: parse_rsa_public_key_def sample_challenge_def sample_sdk_library_def text_eval)
  then show "encrypt_password sample_sdk_library sample_challenge ''ab'' = Inr ''xxx''"
    "encrypt_password sample_sdk_library sample_challenge ''cd'' = Inr ''xxx''"
    by (simp_all add: encrypt_password_def key_bits_ok_def sample_sdk_library_def sample_challenge_def)
qed


text \<open>
  an accepted login answer is complete and bounded: it has a user id of at most 256
  bytes and a nonempty access key, no overlong token, and a login from the cache keeps exactly
  the key that was submitted, whatever the server returned.
\<close>

theorem login_answer_is_complete_and_keeps_the_key:
  assumes "login_reply lib bytes old = Inr (Success p)"
  shows "pn_uid p \<noteq> [] \<and> length (pn_uid p) \<le> 256 \<and> access_key p \<noteq> [] \<and> length (access_key p) \<le> 16384
    \<and> \<not> too_long (pn_id_token p) \<and> \<not> too_long (pn_refresh_token p) \<and> (\<forall>k. old = Some k \<longrightarrow> access_key p = k)"
  by (rule login_reply_Success [OF assms])

theorem login_answer_is_complete_and_keeps_the_key_witness:
  "\<exists>p. login_reply sample_sdk_library ''{}'' (Some ''old'') = Inr (Success p) \<and> access_key p = ''old''"
proof -
  have "parse_u64 ''7'' = Some 7" by (simp add: text_eval)
  then have "\<exists>p. login_reply sample_sdk_library ''{}'' (Some ''old'') = Inr (Success p)"
    by (simp add: login_reply_def parse_sdk_reply_def MAX_RESPONSE_def sample_sdk_library_def deserialize_uid_def
        dec_of_nat.simps validate_secret_def access_key_def too_long_def)
  with login_answer_is_complete_and_keeps_the_key show ?thesis by blast
qed

end
