(* ===== verification/Operator_State.thy ===== *)
theory Operator_State
  imports Secret_Files Sdk_Http Game_Client
begin

text \<open>
  The operator's private state (\<open>server/src/operator.rs\<close>): login settings and their sources,
  the directory lock, the pointer file with the two snapshots it names, and the replacement of
  all three by a new session.  JSON documents are read and written by a codec; every store a
  multi-step operation passes through is kept, so that interruptions can be stated.
\<close>

section \<open>Settings\<close>

record sdk_settings =
  ss_base_url :: string
  ss_allowed_base_urls :: "string list"
  ss_app_key :: string
  ss_common :: "(string \<times> string option) list"
  ss_omit_common :: "string list"
  ss_country_id :: u32
  ss_one_sdk_version :: "string option"

text \<open>A path is a list: of components, or of characters as long as it is not resolved.\<close>

record 'e login_config =
  lc_context_file :: "'e list"
  lc_context :: "login_context option"
  lc_sdk_http_file :: "'e list option"
  lc_sdk_http :: "sdk_settings option"
  lc_state_dir :: "'e list"

record pointer =
  pt_region :: string
  pt_origin :: string
  pt_sdk_file :: string
  pt_game_file :: string

record operator_codec =
  oc_files :: file_codec
  oc_pointer_to :: "pointer \<Rightarrow> string"
  oc_pointer_from :: "string \<Rightarrow> pointer option"
  oc_context_from :: "string \<Rightarrow> login_context option"
  oc_settings_from :: "string \<Rightarrow> sdk_settings option"
  oc_pending_to :: "string \<Rightarrow> string"
  oc_pending_from :: "string \<Rightarrow> string option"

section \<open>Private files\<close>

definition private_read :: "store \<Rightarrow> path \<Rightarrow> string outcome" where
  "private_read st p =
     (case st p of
        Some (File mode bytes) \<Rightarrow> if 65536 < length bytes \<or> shared_mode mode then fail InvalidConfig else Inr bytes
      | _ \<Rightarrow> fail InvalidConfig)"

definition private_dir :: "store \<Rightarrow> path \<Rightarrow> unit outcome" where
  "private_dir st p =
     (case st p of
        Some (Dir mode) \<Rightarrow> if shared_mode mode then fail InvalidConfig else Inr ()
      | _ \<Rightarrow> fail InvalidConfig)"

text \<open>
  \<open>publish\<close> replaces a file: the new content is complete in a temporary file before it is
  renamed over the old one.  \<open>io\<close> is the writing, \<open>synced\<close> the final directory synchronisation.
  A path of one component has an empty parent, which does not exist.
\<close>

definition publish :: "bool \<Rightarrow> bool \<Rightarrow> store \<Rightarrow> path \<Rightarrow> string \<Rightarrow> unit outcome \<times> store" where
  "publish io synced st p bytes =
     (let checked = (if length p \<le> 1 then fail InvalidConfig
                     else and_then (private_dir st (parent_of p)) (\<lambda>_.
                       case st p of
                         None \<Rightarrow> Inr ()
                       | Some (File _ _) \<Rightarrow> and_then (private_read st p) (\<lambda>_. Inr ())
                       | Some _ \<Rightarrow> fail InvalidConfig)) in
      case checked of
        Inl e \<Rightarrow> (Inl e, st)
      | Inr _ \<Rightarrow>
          if \<not> io then (fail InvalidConfig, st)
          else (if synced then Inr () else fail InvalidConfig, st(p \<mapsto> File 0x180 bytes)))"

section \<open>Reading the settings\<close>

definition validate_sources :: "'e login_config \<Rightarrow> unit outcome" where
  "validate_sources lc =
     (if (lc_context lc \<noteq> None) = (lc_context_file lc \<noteq> [])
         \<or> lc_sdk_http lc \<noteq> None \<and> lc_sdk_http_file lc \<noteq> None
         \<or> lc_sdk_http_file lc = Some []
         \<or> lc_state_dir lc = []
      then fail InvalidConfig else Inr ())"

definition has_sdk_http :: "'e login_config \<Rightarrow> bool" where
  "has_sdk_http lc \<longleftrightarrow> lc_sdk_http lc \<noteq> None \<or> lc_sdk_http_file lc \<noteq> None"

text \<open>Omitted parameters are added without a value; a parameter cannot be given and omitted.\<close>

fun omit_parameters :: "string list \<Rightarrow> (string \<times> string option) list \<Rightarrow> (string \<times> string option) list outcome" where
  "omit_parameters [] common = Inr common"
| "omit_parameters (k # ks) common =
     (if map_of common k \<noteq> None then fail InvalidConfig
      else omit_parameters ks (btree_insert k None common))"

definition as_config :: "sdk_error + 'a \<Rightarrow> 'a outcome" where
  "as_config r = map_err (\<lambda>_. client_error_new InvalidConfig) r"

definition settings_client ::
  "'k sdk_library \<Rightarrow> nat \<Rightarrow> nat \<Rightarrow> sdk_settings \<Rightarrow> (sdk_client \<times> u32) outcome" where
  "settings_client lib now binding s =
     (and_then (omit_parameters (ss_omit_common s) (ss_common s)) (\<lambda>common.
      and_then (as_config (common_parameters_new common)) (\<lambda>params.
      and_then (as_config (app_key_new (ss_app_key s))) (\<lambda>key.
      and_then (as_config (sdk_client_new lib
          \<lparr>base_url = ss_base_url s, allowed_base_urls = ss_allowed_base_urls s\<rparr> params key
          \<lparr>trace_id = None, one_sdk_version = ss_one_sdk_version s\<rparr>
          (default_sdk_http_options\<lparr>sdk_timeout := 30000\<rparr>) now binding)) (\<lambda>client.
        Inr (client, ss_country_id s))))))"

definition operator_sdk_client ::
  "'k sdk_library \<Rightarrow> operator_codec \<Rightarrow> nat \<Rightarrow> nat \<Rightarrow> store \<Rightarrow> string login_config \<Rightarrow> (sdk_client \<times> u32) outcome" where
  "operator_sdk_client lib codec now binding st lc =
     (case (lc_sdk_http lc, lc_sdk_http_file lc) of
        (Some s, None) \<Rightarrow> settings_client lib now binding s
      | (None, Some p) \<Rightarrow>
          and_then (private_read st p) (\<lambda>bytes.
          and_then (ok_or (oc_settings_from codec bytes) (client_error_new InvalidConfig)) (\<lambda>s.
            settings_client lib now binding s))
      | _ \<Rightarrow> fail InvalidConfig)"

text \<open>The lock file of the directory; \<open>held\<close> are the locks held by others.\<close>

definition operator_lock :: "bool \<Rightarrow> path set \<Rightarrow> store \<Rightarrow> string login_config \<Rightarrow> path outcome \<times> store" where
  "operator_lock io held st lc =
     (let p = lc_state_dir lc @ [''operator.lock''] in
      case private_dir st (lc_state_dir lc) of
        Inl e \<Rightarrow> (Inl e, st)
      | Inr _ \<Rightarrow>
          (case st p of
             Some (Dir _) \<Rightarrow> (fail InvalidConfig, st)
           | Some (Symlink _) \<Rightarrow> (fail InvalidConfig, st)
           | found \<Rightarrow>
               if \<not> io then (fail InvalidConfig, st)
               else (if p \<in> held then fail QueueFull else Inr p,
                     if found = None then st(p \<mapsto> File 0x180 []) else st)))"

definition operator_context :: "operator_codec \<Rightarrow> store \<Rightarrow> string login_config \<Rightarrow> login_context outcome" where
  "operator_context codec st lc =
     and_then (validate_sources lc) (\<lambda>_.
     and_then (case lc_context lc of
                 Some c \<Rightarrow> Inr c
               | None \<Rightarrow> and_then (private_read st (lc_context_file lc)) (\<lambda>bytes.
                           ok_or (oc_context_from codec bytes) (client_error_new InvalidConfig))) (\<lambda>c.
       if list_ex (\<lambda>v. v = [] \<or> 1024 < length v) [device_model c, operating_system c, device_identifier c]
       then fail InvalidConfig else Inr c))"

definition operator_validate ::
  "library \<Rightarrow> 'k sdk_library \<Rightarrow> operator_codec \<Rightarrow> nat \<Rightarrow> nat \<Rightarrow> store \<Rightarrow> string login_config \<Rightarrow> session_config \<Rightarrow> unit outcome" where
  "operator_validate lib slib codec now binding st lc cfg =
     and_then (validate_sources lc) (\<lambda>_.
     and_then (private_dir st (lc_state_dir lc)) (\<lambda>_.
     and_then (operator_context codec st lc) (\<lambda>_.
     and_then (config_validate lib cfg) (\<lambda>_.
       if has_sdk_http lc then and_then (operator_sdk_client slib codec now binding st lc) (\<lambda>_. Inr ())
       else Inr ()))))"

section \<open>The pointer\<close>

text \<open>The number of components of a path text, as the standard library counts them on Unix.\<close>

definition component_count :: "string \<Rightarrow> nat" where
  "component_count v =
     (if starts_with v ''/'' then 1 else 0)
     + length (filter (\<lambda>(i, c). c \<noteq> [] \<and> \<not> (c = ''.'' \<and> 0 < i)) (List.enumerate 0 (split_on (CHR ''/'') v)))"

definition join_path :: "path \<Rightarrow> string \<Rightarrow> path" where
  "join_path dir v =
     (let parts = filter (\<lambda>c. c \<noteq> [] \<and> c \<noteq> ''.'') (split_on (CHR ''/'') v) in
      if starts_with v ''/'' then parts else dir @ parts)"

definition snapshot_name :: "string \<Rightarrow> bool" where
  "snapshot_name v \<longleftrightarrow>
     \<not> (component_count v \<noteq> 1 \<or> \<not> ends_with v ''.json''
        \<or> CHR ''/'' \<in> set v \<or> char_of (92 :: nat) \<in> set v \<or> starts_with v ''.'')"

definition pointer_file :: "string login_config \<Rightarrow> path" where
  "pointer_file lc = lc_state_dir lc @ [''current.json'']"

definition read_pointer :: "operator_codec \<Rightarrow> store \<Rightarrow> string login_config \<Rightarrow> session_config \<Rightarrow> pointer outcome" where
  "read_pointer codec st lc cfg =
     and_then (private_read st (pointer_file lc)) (\<lambda>bytes.
     and_then (ok_or (oc_pointer_from codec bytes) (client_error_new InvalidConfig)) (\<lambda>p.
       if pt_region p \<noteq> region cfg \<or> pt_origin p \<noteq> config_origin cfg then fail InvalidConfig
       else if list_all snapshot_name [pt_sdk_file p, pt_game_file p] then Inr p
       else fail InvalidConfig))"

definition operator_credentials ::
  "operator_codec \<Rightarrow> store \<Rightarrow> string login_config \<Rightarrow> session_config \<Rightarrow> static_credentials option outcome" where
  "operator_credentials codec st lc cfg =
     (case st (pointer_file lc) of
        None \<Rightarrow> Inr None
      | Some (File _ _) \<Rightarrow>
          and_then (read_pointer codec st lc cfg) (\<lambda>p.
          and_then (static_from_file (oc_files codec) st (join_path (lc_state_dir lc) (pt_game_file p))) (\<lambda>c.
            Inr (Some c)))
      | Some _ \<Rightarrow> fail InvalidConfig)"

definition approved_sdk ::
  "library \<Rightarrow> operator_codec \<Rightarrow> store \<Rightarrow> string login_config \<Rightarrow> session_config \<Rightarrow> sdk_authorization outcome" where
  "approved_sdk lib codec st lc cfg =
     and_then (read_pointer codec st lc cfg) (\<lambda>p.
       sdk_from_file lib (oc_files codec) st cfg (join_path (lc_state_dir lc) (pt_sdk_file p)))"

text \<open>
  \<open>persist\<close>: \<open>c\<close> is the client while the snapshots are written, \<open>c'\<close> the client at the check
  after them.  The result comes with every store on the way, the last one first.
\<close>

definition new_pointer :: "string \<Rightarrow> session_config \<Rightarrow> pointer" where
  "new_pointer uuid cfg =
     \<lparr>pt_region = region cfg, pt_origin = config_origin cfg, pt_sdk_file = ''sdk-'' @ uuid @ ''.json'',
      pt_game_file = ''game-'' @ uuid @ ''.json''\<rparr>"

definition save_game ::
  "operator_codec \<Rightarrow> bool \<Rightarrow> store \<Rightarrow> generation \<Rightarrow> client \<Rightarrow> path \<Rightarrow> unit outcome \<times> store" where
  "save_game codec io st gen c p =
     (case save_session (\<lambda>cfg cr. fst (save_credentials (oc_files codec) io st cfg cr p)) gen c of
        Inl e \<Rightarrow> (Inl e, st)
      | Inr _ \<Rightarrow>
          (Inr (), snd (save_credentials (oc_files codec) io st (s_config (current_session c))
             (the (s_credentials (current_session c))) p)))"

definition persist ::
  "operator_codec \<Rightarrow> bool \<Rightarrow> bool \<Rightarrow> string \<Rightarrow> string login_config \<Rightarrow> session_config \<Rightarrow> sdk_authorization \<Rightarrow> generation \<Rightarrow>
     client \<Rightarrow> client \<Rightarrow> store \<Rightarrow> unit outcome \<times> store list" where
  "persist codec io synced uuid lc cfg sdk gen c c' st =
     (case private_dir st (lc_state_dir lc) of
        Inl e \<Rightarrow> (Inl e, [st])
      | Inr _ \<Rightarrow>
          (let p = new_pointer uuid cfg in
           case save_to_file (oc_files codec) io st sdk (join_path (lc_state_dir lc) (pt_sdk_file p)) of
             (Inl e, st1) \<Rightarrow> (Inl e, [st1, st])
           | (Inr _, st1) \<Rightarrow>
               (case save_game codec io st1 gen c (join_path (lc_state_dir lc) (pt_game_file p)) of
                  (Inl e, st2) \<Rightarrow> (Inl e, [st2, st1, st])
                | (Inr _, st2) \<Rightarrow>
                    if client_generation c' \<noteq> gen then (fail SessionChanged, [st2, st1, st])
                    else (case publish io synced st2 (pointer_file lc) (oc_pointer_to codec p) of
                            (r, st3) \<Rightarrow> (r, [st3, st2, st1, st])))))"

section \<open>Facts\<close>

lemma snapshot_name_plain:
  "snapshot_name v \<Longrightarrow> CHR ''/'' \<notin> set v \<and> v \<noteq> [] \<and> v \<noteq> ''.'' \<and> \<not> starts_with v ''/''"
  by (cases v) (auto simp: snapshot_name_def ends_with_def starts_with_def)

lemma snapshot_join: "snapshot_name v \<Longrightarrow> join_path dir v = dir @ [v]"
  using snapshot_name_plain [of v] by (simp add: join_path_def split_on_no_sep)

lemma read_pointer_Inr:
  "read_pointer codec st lc cfg = Inr p \<longleftrightarrow>
     (\<exists>bytes. private_read st (pointer_file lc) = Inr bytes \<and> oc_pointer_from codec bytes = Some p)
     \<and> pt_region p = region cfg \<and> pt_origin p = config_origin cfg
     \<and> snapshot_name (pt_sdk_file p) \<and> snapshot_name (pt_game_file p)"
  by (auto simp: read_pointer_def result_simps split: if_split_asm)

lemma private_read_Inr:
  "private_read st p = Inr bytes \<longleftrightarrow>
     (\<exists>mode. st p = Some (File mode bytes) \<and> length bytes \<le> 65536 \<and> \<not> shared_mode mode)"
  by (auto simp: private_read_def split: option.splits node.splits if_split_asm)

lemma static_from_file_Inr:
  "static_from_file codec st p = Inr c \<Longrightarrow> \<exists>n. st p = Some n"
  by (auto simp: static_from_file_def split: option.split_asm)

lemma static_from_file_frame: "st' p = st p \<Longrightarrow> static_from_file codec st' p = static_from_file codec st p"
  by (simp add: static_from_file_def)

definition extends :: "store \<Rightarrow> store \<Rightarrow> bool" where
  "extends st' st \<longleftrightarrow> (\<forall>q n. st q = Some n \<longrightarrow> st' q = Some n)"

lemma extends_trans: "extends c b \<Longrightarrow> extends b a \<Longrightarrow> extends c a"
  by (simp add: extends_def)

lemma create_extends: "create_secret io st p bytes = (r, st') \<Longrightarrow> extends st' st"
  using private_files_cases by (auto simp: extends_def)

text \<open>Loaded credentials stay the same as long as the pointer does and no file disappears.\<close>

lemma operator_credentials_kept:
  assumes "operator_credentials codec st lc cfg = Inr old" "extends st' st"
    "st' (pointer_file lc) = st (pointer_file lc)"
  shows "operator_credentials codec st' lc cfg = Inr old"
proof (cases "st (pointer_file lc)")
  case None
  with assms show ?thesis by (simp add: operator_credentials_def)
next
  case (Some n)
  with assms(1) obtain mode bytes where n: "n = File mode bytes"
    by (cases n) (auto simp: operator_credentials_def)
  have "read_pointer codec st' lc cfg = read_pointer codec st lc cfg"
    using assms(3) by (simp add: read_pointer_def private_read_def)
  moreover from assms(1) Some n obtain p c where
    "read_pointer codec st lc cfg = Inr p" "old = Some c"
    "static_from_file (oc_files codec) st (join_path (lc_state_dir lc) (pt_game_file p)) = Inr c"
    by (auto simp: operator_credentials_def result_simps)
  moreover from this static_from_file_Inr assms(2) have
    "st' (join_path (lc_state_dir lc) (pt_game_file p)) = st (join_path (lc_state_dir lc) (pt_game_file p))"
    by (fastforce simp: extends_def)
  ultimately show ?thesis
    using Some n assms(3) static_from_file_frame [of st' _ st] by (simp add: operator_credentials_def)
qed

lemma new_pointer_names:
  assumes "CHR ''/'' \<notin> set uuid" "char_of (92 :: nat) \<notin> set uuid"
  shows "snapshot_name (pt_sdk_file (new_pointer uuid cfg))" "snapshot_name (pt_game_file (new_pointer uuid cfg))"
    "pt_sdk_file (new_pointer uuid cfg) \<noteq> ''current.json''" "pt_game_file (new_pointer uuid cfg) \<noteq> ''current.json''"
proof -
  have count: "component_count v = 1" if "CHR ''/'' \<notin> set v" "v \<noteq> []" for v
    using that by (cases v) (auto simp: component_count_def split_on_no_sep starts_with_def enumerate_eq_zip)
  have e: "ends_with (p @ uuid @ ''.json'') ''.json''" for p
    using ends_with_append [of "p @ uuid" "''.json''"] by simp
  have b: "char_of (92 :: nat) \<notin> {CHR ''s'', CHR ''d'', CHR ''k'', CHR ''-'', CHR ''g'', CHR ''a'', CHR ''m'', CHR ''e'',
      CHR ''.'', CHR ''j'', CHR ''o'', CHR ''n''}"
    by (simp add: char_of_def bit_0)
  show "snapshot_name (pt_sdk_file (new_pointer uuid cfg))"
    using assms b e [of "''sdk-''"] count [of "''sdk-'' @ uuid @ ''.json''"]
    by (simp add: snapshot_name_def new_pointer_def starts_with_def)
  show "snapshot_name (pt_game_file (new_pointer uuid cfg))"
    using assms b e [of "''game-''"] count [of "''game-'' @ uuid @ ''.json''"]
    by (simp add: snapshot_name_def new_pointer_def starts_with_def)
qed (simp_all add: new_pointer_def)

lemma save_game_cases:
  assumes "save_game codec io st gen c p = (r, st')"
  shows "(\<exists>e. r = Inl e \<and> st' = st) \<or> (r = Inr () \<and> client_generation c = gen \<and> s_blocked (current_session c) = None
    \<and> (\<exists>creds. s_credentials (current_session c) = Some creds
        \<and> save_credentials (oc_files codec) io st (s_config (current_session c)) creds p = (Inr (), st')))"
proof (cases "save_session (\<lambda>cfg cr. fst (save_credentials (oc_files codec) io st cfg cr p)) gen c")
  case (Inr u)
  then obtain creds where s: "client_generation c = gen" "s_blocked (current_session c) = None"
    "s_credentials (current_session c) = Some creds"
    "fst (save_credentials (oc_files codec) io st (s_config (current_session c)) creds p) = Inr ()"
    by (auto simp: save_session_def client_generation_def Let_def result_simps split: if_split_asm option.split_asm)
  with Inr assms show ?thesis
    by (cases "save_credentials (oc_files codec) io st (s_config (current_session c)) creds p") (auto simp: save_game_def)
next
  case (Inl e)
  with assms have "r = Inl e" "st' = st" by (simp_all add: save_game_def)
  then show ?thesis by blast
qed

lemma publish_cases:
  "publish io synced st p bytes = (r, st') \<Longrightarrow>
     (\<exists>e. r = Inl e \<and> st' = st) \<or> (io \<and> st' = st(p \<mapsto> File 0x180 bytes) \<and> (r = Inr () \<longleftrightarrow> synced))"
  by (auto simp: publish_def Let_def split: sum.split_asm if_split_asm)

text \<open>The stores of \<open>persist\<close>: the start, extensions of it with the same pointer, and the published one.\<close>

definition published_store :: "operator_codec \<Rightarrow> string \<Rightarrow> string login_config \<Rightarrow> session_config \<Rightarrow> client \<Rightarrow> store \<Rightarrow> bool" where
  "published_store codec uuid lc cfg c s \<longleftrightarrow>
     (\<exists>creds s2. s = s2(pointer_file lc \<mapsto> File 0x180 (oc_pointer_to codec (new_pointer uuid cfg)))
        \<and> s_credentials (current_session c) = Some creds
        \<and> s2 (lc_state_dir lc @ [pt_game_file (new_pointer uuid cfg)])
          = Some (File 0x180 (credentials_to_json (oc_files codec) (credentials_document (s_config (current_session c)) creds)))
        \<and> length (credentials_to_json (oc_files codec) (credentials_document (s_config (current_session c)) creds)) \<le> 65536)"

lemma persist_stores:
  assumes "persist codec io synced uuid lc cfg sdk gen c c' st = (r, trace)"
    and uuid: "CHR ''/'' \<notin> set uuid" "char_of (92 :: nat) \<notin> set uuid"
  shows "(\<forall>s\<in>set trace. (extends s st \<and> s (pointer_file lc) = st (pointer_file lc))
      \<or> published_store codec uuid lc cfg c s) \<and> trace \<noteq> []
    \<and> (r = Inr () \<longrightarrow> published_store codec uuid lc cfg c (hd trace)
        \<and> client_generation c = gen \<and> client_generation c' = gen)"
proof (cases "private_dir st (lc_state_dir lc)")
  case (Inl e)
  with assms show ?thesis by (auto simp: persist_def extends_def)
next
  case (Inr u)
  let ?p = "new_pointer uuid cfg"
  let ?sdk = "lc_state_dir lc @ [pt_sdk_file ?p]" and ?game = "lc_state_dir lc @ [pt_game_file ?p]"
  note names = new_pointer_names [OF uuid, of cfg]
  note joins = snapshot_join [OF names(1), of "lc_state_dir lc"] snapshot_join [OF names(2), of "lc_state_dir lc"]
  have self: "extends st st" by (simp add: extends_def)
  obtain r1 st1 where s1: "save_to_file (oc_files codec) io st sdk ?sdk = (r1, st1)" by fastforce
  have e1: "extends st1 st" "st1 (pointer_file lc) = st (pointer_file lc)"
    using create_extends [OF s1 [unfolded save_to_file_def]] create_secret_cases [OF s1 [unfolded save_to_file_def]] names(3)
    by (auto simp: pointer_file_def)
  show ?thesis
  proof (cases r1)
    case (Inl e)
    with assms(1) Inr s1 joins e1 self show ?thesis by (auto simp: persist_def Let_def)
  next
    case r1: (Inr u1)
    obtain r2 st2 where s2: "save_game codec io st1 gen c ?game = (r2, st2)" by fastforce
    from save_game_cases [OF s2] show ?thesis
    proof (elim disjE exE conjE)
      fix e assume "r2 = Inl e" "st2 = st1"
      with assms(1) Inr s1 s2 r1 joins e1 self show ?thesis by (auto simp: persist_def Let_def)
    next
      fix creds
      assume g: "r2 = Inr ()" "client_generation c = gen" "s_credentials (current_session c) = Some creds"
        "save_credentials (oc_files codec) io st1 (s_config (current_session c)) creds ?game = (Inr (), st2)"
      note written = create_secret_cases [OF g(4) [unfolded save_credentials_def]]
      have e2: "extends st2 st" "st2 (pointer_file lc) = st (pointer_file lc)"
        using create_extends [OF g(4) [unfolded save_credentials_def]] e1 extends_trans written names(4)
        by (auto simp: pointer_file_def)
      obtain r3 st3 where s3: "publish io synced st2 (pointer_file lc) (oc_pointer_to codec ?p) = (r3, st3)" by fastforce
      show ?thesis
      proof (cases "client_generation c' = gen")
        case False
        with assms(1) Inr s1 s2 r1 g joins e1 e2 self show ?thesis by (auto simp: persist_def Let_def)
      next
        case True
        with assms(1) Inr s1 s2 s3 r1 g(1) joins have t: "r = r3" "trace = [st3, st2, st1, st]"
          by (auto simp: persist_def Let_def)
        show ?thesis
          using publish_cases [OF s3] t e1 e2 self written g(2,3) True
          by (auto simp: LIMIT_def published_store_def)
      qed
    qed
  qed
qed

lemma persist_loads:
  assumes "persist codec io synced uuid lc cfg sdk gen c c' st = (r, trace)"
    and "operator_credentials codec st lc cfg = Inr old"
    and "CHR ''/'' \<notin> set uuid" "char_of (92 :: nat) \<notin> set uuid"
    and pointer: "oc_pointer_from codec (oc_pointer_to codec (new_pointer uuid cfg)) = Some (new_pointer uuid cfg)"
      "length (oc_pointer_to codec (new_pointer uuid cfg)) \<le> 65536"
    and reads: "\<And>creds. s_credentials (current_session c) = Some creds \<Longrightarrow>
      reads_credentials (oc_files codec) (credentials_document (s_config (current_session c)) creds)"
  shows "\<forall>s\<in>set trace. operator_credentials codec s lc cfg = Inr old
      \<or> (\<exists>creds. s_credentials (current_session c) = Some creds
          \<and> operator_credentials codec s lc cfg = Inr (Some (credentials_document (s_config (current_session c)) creds)))"
    and "r = Inr () \<Longrightarrow> client_generation c = gen \<and> client_generation c' = gen
      \<and> (\<exists>creds. s_credentials (current_session c) = Some creds
          \<and> operator_credentials codec (hd trace) lc cfg
            = Inr (Some (credentials_document (s_config (current_session c)) creds)))"
    and "trace \<noteq> []"
proof -
  let ?p = "new_pointer uuid cfg"
  let ?doc = "credentials_document (s_config (current_session c)) (the (s_credentials (current_session c)))"
  note stores = persist_stores [OF assms(1,3,4)]
  note names = new_pointer_names [OF assms(3,4), of cfg]
  have published: "operator_credentials codec s lc cfg = Inr (Some ?doc) \<and> s_credentials (current_session c) \<noteq> None"
    if "published_store codec uuid lc cfg c s" for s
  proof -
    from that obtain s2 where s: "s = s2(pointer_file lc \<mapsto> File 0x180 (oc_pointer_to codec ?p))"
      "s2 (lc_state_dir lc @ [pt_game_file ?p]) = Some (File 0x180 (credentials_to_json (oc_files codec) ?doc))"
      "length (credentials_to_json (oc_files codec) ?doc) \<le> 65536" "s_credentials (current_session c) \<noteq> None"
      by (auto simp: published_store_def)
    have "read_pointer codec s lc cfg = Inr ?p"
      using pointer names(1,2) s(1) by (simp add: read_pointer_Inr private_read_Inr) (simp add: new_pointer_def)
    then show ?thesis
      using s names(4) reads [of "the (s_credentials (current_session c))"]
      by (auto simp add: operator_credentials_def snapshot_join [OF names(2)] static_from_file_def
          reads_credentials_def pointer_file_def)
  qed
  have new: "\<exists>creds. s_credentials (current_session c) = Some creds
      \<and> operator_credentials codec s lc cfg = Inr (Some (credentials_document (s_config (current_session c)) creds))"
    if "published_store codec uuid lc cfg c s" for s
    using published [OF that] by auto
  show "\<forall>s\<in>set trace. operator_credentials codec s lc cfg = Inr old
      \<or> (\<exists>creds. s_credentials (current_session c) = Some creds
          \<and> operator_credentials codec s lc cfg = Inr (Some (credentials_document (s_config (current_session c)) creds)))"
    using stores operator_credentials_kept [OF assms(2)] new by blast
  show "client_generation c = gen \<and> client_generation c' = gen
      \<and> (\<exists>creds. s_credentials (current_session c) = Some creds
          \<and> operator_credentials codec (hd trace) lc cfg
            = Inr (Some (credentials_document (s_config (current_session c)) creds)))" if "r = Inr ()"
    using stores that new by blast
  show "trace \<noteq> []" using stores by blast
qed

section \<open>Properties\<close>

text \<open>
  the pointer cannot lead out of the state directory.  Whatever is in the pointer file,
  an accepted pointer is for the region and origin of the configuration, and both files it names
  are direct children of the state directory.
\<close>

theorem pointer_stays_in_the_state_directory:
  assumes "read_pointer codec st lc cfg = Inr p"
  shows "pt_region p = region cfg \<and> pt_origin p = config_origin cfg
    \<and> join_path (lc_state_dir lc) (pt_sdk_file p) = lc_state_dir lc @ [pt_sdk_file p]
    \<and> join_path (lc_state_dir lc) (pt_game_file p) = lc_state_dir lc @ [pt_game_file p]"
  using assms by (simp add: read_pointer_Inr snapshot_join)

definition sample_operator_codec :: operator_codec where
  "sample_operator_codec =
     \<lparr>oc_files = sample_codec, oc_pointer_to = (\<lambda>_. ''p''), oc_pointer_from = (\<lambda>_. Some (new_pointer ''7'' sample_config)),
      oc_context_from = (\<lambda>_. None), oc_settings_from = (\<lambda>_. None), oc_pending_to = (\<lambda>_. []), oc_pending_from = (\<lambda>_. None)\<rparr>"

definition sample_login :: "string login_config" where
  "sample_login = \<lparr>lc_context_file = [], lc_context = Some sample_context, lc_sdk_http_file = None, lc_sdk_http = None,
     lc_state_dir = [''state'']\<rparr>"

definition sample_state_store :: store where
  "sample_state_store = [[''state''] \<mapsto> Dir 0x1C0]"

definition sample_operator_client :: client where
  "sample_operator_client =
     \<lparr>sessions = (\<lambda>_. \<lparr>s_generation = 0, s_config = sample_config, s_credentials = Some sample_credentials, s_transport = 0,
        s_cancelled = False, s_blocked = None, s_master_mismatch = False, s_jp_override_pending = False\<rparr>),
      issued = [0], current = 0, serial_next = 0, permits = 33, options = undefined\<rparr>"

theorem pointer_stays_in_the_state_directory_witness:
  "\<exists>p. read_pointer sample_operator_codec ([pointer_file sample_login \<mapsto> File 0x180 ''p'']) sample_login sample_config = Inr p
     \<and> join_path [''state''] (pt_sdk_file p) = [''state'', ''sdk-7.json'']"
proof -
  have r: "read_pointer sample_operator_codec ([pointer_file sample_login \<mapsto> File 0x180 ''p'']) sample_login sample_config
      = Inr (new_pointer ''7'' sample_config)"
    using new_pointer_names(1,2) [of "''7''" sample_config]
    by (simp add: read_pointer_Inr private_read_Inr sample_operator_codec_def char_of_def bit_0) (simp add: new_pointer_def)
  from pointer_stays_in_the_state_directory [OF r] have
    "join_path [''state''] (pt_sdk_file (new_pointer ''7'' sample_config)) = [''state'', ''sdk-7.json'']"
    by (simp add: sample_login_def new_pointer_def)
  with r show ?thesis by blast
qed

text \<open>
  C22: replacing the saved session is atomic.  At every moment of a persist, also if it
  fails or is cut off there, loading the credentials gives either what it gave before or the
  complete new session; after a success it gives the new session, which was the client's
  current one throughout.
\<close>

theorem persist_is_atomic:
  assumes "persist codec io synced uuid lc cfg sdk gen c c' st = (r, trace)"
    and "operator_credentials codec st lc cfg = Inr old"
    and "CHR ''/'' \<notin> set uuid" "char_of (92 :: nat) \<notin> set uuid"
    and pointer: "oc_pointer_from codec (oc_pointer_to codec (new_pointer uuid cfg)) = Some (new_pointer uuid cfg)"
      "length (oc_pointer_to codec (new_pointer uuid cfg)) \<le> 65536"
    and reads: "\<And>creds. s_credentials (current_session c) = Some creds \<Longrightarrow>
      reads_credentials (oc_files codec) (credentials_document (s_config (current_session c)) creds)"
  shows "\<exists>new. (\<forall>s\<in>set trace. operator_credentials codec s lc cfg \<in> {Inr old, Inr (Some new)})
    \<and> (r = Inr () \<longrightarrow> operator_credentials codec (hd trace) lc cfg = Inr (Some new)
        \<and> client_generation c = gen \<and> client_generation c' = gen
        \<and> s_credentials (current_session c) = Some (sc_credentials new))"
proof (intro exI conjI)
  let ?new = "credentials_document (s_config (current_session c)) (the (s_credentials (current_session c)))"
  note loads = persist_loads [OF assms(1-4) pointer reads]
  show "\<forall>s\<in>set trace. operator_credentials codec s lc cfg \<in> {Inr old, Inr (Some ?new)}"
    using loads(1) by fastforce
  show "r = Inr () \<longrightarrow> operator_credentials codec (hd trace) lc cfg = Inr (Some ?new)
        \<and> client_generation c = gen \<and> client_generation c' = gen
        \<and> s_credentials (current_session c) = Some (sc_credentials ?new)"
    using loads(2) by fastforce
qed

theorem persist_is_atomic_witness:
  "\<exists>r trace new. persist sample_operator_codec True True ''7'' sample_login sample_config sample_sdk 0
       sample_operator_client sample_operator_client sample_state_store = (r, trace)
     \<and> length trace = 4 \<and> operator_credentials sample_operator_codec (hd trace) sample_login sample_config = Inr (Some new)"
proof -
  have plain: "char_of (92 :: nat) \<notin> set ''7''" "CHR ''/'' \<notin> set ''7''" by (simp_all add: char_of_def bit_0)
  note names = new_pointer_names [OF plain(2,1), of sample_config]
  have joins: "join_path [''state''] ''sdk-7.json'' = [''state'', ''sdk-7.json'']"
    "join_path [''state''] ''game-7.json'' = [''state'', ''game-7.json'']"
    using snapshot_join [OF names(1), of "[''state'']"] snapshot_join [OF names(2), of "[''state'']"]
    by (simp_all add: new_pointer_def)
  obtain r trace where p: "persist sample_operator_codec True True ''7'' sample_login sample_config sample_sdk 0
       sample_operator_client sample_operator_client sample_state_store = (r, trace)" by fastforce
  have t: "r = Inr () \<and> length trace = 4"
    using p by (simp add: persist_def joins private_dir_def
      save_to_file_def create_secret_def LIMIT_def private_parent_def parent_of_def save_game_def save_session_def
      save_credentials_def publish_def pointer_file_def client_generation_def current_session_def
      sample_login_def sample_state_store_def sample_operator_client_def sample_operator_codec_def sample_codec_def
      shared_mode_def new_pointer_def Let_def private_read_def) auto
  have old: "operator_credentials sample_operator_codec sample_state_store sample_login sample_config = Inr None"
    by (simp add: operator_credentials_def sample_state_store_def pointer_file_def sample_login_def)
  have "\<exists>new. (\<forall>s\<in>set trace. operator_credentials sample_operator_codec s sample_login sample_config \<in> {Inr None, Inr (Some new)})
      \<and> (r = Inr () \<longrightarrow> operator_credentials sample_operator_codec (hd trace) sample_login sample_config = Inr (Some new)
        \<and> client_generation sample_operator_client = 0 \<and> client_generation sample_operator_client = 0
        \<and> s_credentials (current_session sample_operator_client) = Some (sc_credentials new))"
    by (rule persist_is_atomic [OF p old plain(2,1)])
      (use sample_reads(1) in \<open>auto simp: sample_operator_codec_def sample_operator_client_def current_session_def\<close>)
  with p t show ?thesis by blast
qed

end
