(* ===== verification/Recovery.thy ===== *)
theory Recovery
  imports Operator_State
begin

text \<open>
  Automatic re-login (\<open>GameRecovery\<close> in \<open>server/src/managed.rs\<close>) and the login flows of the
  operator (\<open>server/src/operator.rs\<close>).  A call of the game client is given by its result and
  the client after it, so that anything may have happened to the client meanwhile.
\<close>

record game_calls =
  gc_pre_login :: "generation \<Rightarrow> sdk_authorization \<Rightarrow> login_context \<Rightarrow> client \<Rightarrow> bool outcome \<times> client"
  gc_login :: "generation \<Rightarrow> sdk_authorization \<Rightarrow> login_context \<Rightarrow> client \<Rightarrow> unit outcome \<times> client"

text \<open>
  The surroundings of a flow: whether writing and synchronising succeed, the fresh name, the
  locks held by others, whether cancellation has been requested when it is polled, and the
  client at the generation check of \<open>persist\<close>.
\<close>

record flow =
  fl_io :: bool
  fl_synced :: bool
  fl_uuid :: string
  fl_held :: "path set"
  fl_cancelled :: bool
  fl_final :: "client \<Rightarrow> client"

section \<open>GameRecovery\<close>

definition recovery_checks ::
  "library \<Rightarrow> operator_codec \<Rightarrow> store \<Rightarrow> string login_config \<Rightarrow> session_config \<Rightarrow> generation \<Rightarrow> client \<Rightarrow>
     (static_credentials \<times> sdk_authorization \<times> login_context) outcome" where
  "recovery_checks lib codec st lc cfg gen c =
     (if client_generation c \<noteq> gen then fail SessionChanged
      else if session_status_of c = VersionBlocked \<or> session_status_of c = DeviceConflictStatus
      then fail SessionChanged
      else and_then (operator_credentials codec st lc cfg) (\<lambda>found.
           and_then (ok_or found (client_error_new InvalidConfig)) (\<lambda>saved.
           and_then (matches_identity gen (static_provide lib saved) c) (\<lambda>same.
             if \<not> same then fail InvalidConfig
             else and_then (approved_sdk lib codec st lc cfg) (\<lambda>sdk.
                  and_then (operator_context codec st lc) (\<lambda>ctx. Inr (saved, sdk, ctx)))))))"

definition game_recover ::
  "library \<Rightarrow> operator_codec \<Rightarrow> game_calls \<Rightarrow> flow \<Rightarrow> string login_config \<Rightarrow> session_config \<Rightarrow> generation \<Rightarrow> client \<Rightarrow> store \<Rightarrow>
     unit outcome \<times> store list \<times> client" where
  "game_recover lib codec calls fl lc cfg gen c st =
     (case operator_lock (fl_io fl) (fl_held fl) st lc of
        (Inl e, st1) \<Rightarrow> (Inl e, [st1, st], c)
      | (Inr _, st1) \<Rightarrow>
          (case recovery_checks lib codec st1 lc cfg gen c of
             Inl e \<Rightarrow> (Inl e, [st1, st], c)
           | Inr (saved, sdk, ctx) \<Rightarrow>
               (case gc_pre_login calls gen sdk ctx c of
                  (Inl e, c1) \<Rightarrow> (Inl e, [st1, st], c1)
                | (Inr False, c1) \<Rightarrow> (fail Authentication, [st1, st], c1)
                | (Inr True, c1) \<Rightarrow>
                    (case gc_login calls gen sdk ctx c1 of
                       (Inl e, c2) \<Rightarrow> (Inl e, [st1, st], c2)
                     | (Inr _, c2) \<Rightarrow>
                         (case matches_identity (client_generation c2) (static_provide lib saved) c2 of
                            Inl e \<Rightarrow> (Inl e, [st1, st], c2)
                          | Inr same \<Rightarrow>
                              if \<not> same then (fail InvalidConfig, [st1, st], c2)
                              else if fl_cancelled fl then (fail Cancelled, [st1, st], c2)
                              else (case persist codec (fl_io fl) (fl_synced fl) (fl_uuid fl) lc cfg sdk
                                           (client_generation c2) c2 (fl_final fl c2) st1 of
                                      (r, stores) \<Rightarrow> (r, stores @ [st], fl_final fl c2)))))))"

section \<open>Operator flows\<close>

fun sdk_kind_name :: "sdk_error_kind \<Rightarrow> string" where
  "sdk_kind_name SdkInvalidConfig = ''InvalidConfig''"
| "sdk_kind_name SdkInvalidInput = ''InvalidInput''"
| "sdk_kind_name SdkProtocol = ''Protocol''"
| "sdk_kind_name SdkTransport = ''Transport''"
| "sdk_kind_name SdkHttpStatus = ''HttpStatus''"
| "sdk_kind_name SdkTimeout = ''Timeout''"
| "sdk_kind_name SdkCancelled = ''Cancelled''"
| "sdk_kind_name SdkBusy = ''Busy''"

definition bool_name :: "bool \<Rightarrow> string" where
  "bool_name b = (if b then ''true'' else ''false'')"

text \<open>
  \<open>password_authorization\<close>: the two SDK calls and the import of the callback; \<open>ex1\<close> and \<open>ex2\<close>
  are the exchanges, \<open>cancelled\<close> the cancellation polled before the second.  The requests sent
  come with the result.
\<close>

definition sdk_answer :: "string \<Rightarrow> (int \<Rightarrow> string) \<Rightarrow> 'a sdk_reply sdk_outcome \<Rightarrow> string + 'a" where
  "sdk_answer failed rejected r =
     (case r of
        Inr (Success x) \<Rightarrow> Inr x
      | Inr (Rejected code _) \<Rightarrow> Inl (rejected code)
      | Inl e \<Rightarrow> Inl (failed @ sdk_kind_name (sdk_kind e)))"

definition password_authorization ::
  "library \<Rightarrow> 'k sdk_library \<Rightarrow> operator_codec \<Rightarrow> nat \<Rightarrow> nat \<Rightarrow> store \<Rightarrow> session_config \<Rightarrow> string login_config \<Rightarrow> string \<Rightarrow> string \<Rightarrow>
     bool \<Rightarrow> sdk_exchange \<Rightarrow> sdk_exchange \<Rightarrow> (string + sdk_authorization) \<times> sdk_request list" where
  "password_authorization lib slib codec now binding st cfg lc email password cancelled ex1 ex2 =
     (case operator_sdk_client slib codec now binding st lc of
        Inl _ \<Rightarrow> (Inl ''invalid SDK HTTP configuration'', [])
      | Inr (client, country) \<Rightarrow>
          (case fetch_rsa slib client None ex1 of
             (r1, sent1, client1) \<Rightarrow>
               (case sdk_answer ''SDK RSA failed: '' (\<lambda>code. ''SDK RSA rejected: '' @ dec_of_int code) r1 of
                  Inl e \<Rightarrow> (Inl e, sent1)
                | Inr rsa \<Rightarrow>
                    (case sdk_password_login slib client1 rsa
                            \<lparr>pl_user_id = email, pl_password = password, pl_account_type = Email country,
                             pl_ticket = None, pl_voucher = None\<rparr> None cancelled ex2 of
                       (r2, sent2, _) \<Rightarrow>
                         (case sdk_answer ''SDK login failed: ''
                                 (\<lambda>code. ''SDK login rejected: '' @ dec_of_int code
                                    @ ''; challenge='' @ bool_name (requires_challenge code)
                                    @ '', restore='' @ bool_name (requires_account_restore code)) r2 of
                            Inl e \<Rightarrow> (Inl e, sent2 @ sent1)
                          | Inr user \<Rightarrow>
                              (map_err (\<lambda>_. ''SDK callback rejected'')
                                 (from_callback_json lib (callback_from_json (oc_files codec)) cfg
                                    (callback_to_json (oc_files codec)
                                       \<lparr>cb_uid = pn_uid user, cb_access_token = access_key user,
                                        cb_id_token = pn_id_token user\<rparr>)),
                               sent2 @ sent1))))))"

definition save_pending ::
  "operator_codec \<Rightarrow> bool \<Rightarrow> bool \<Rightarrow> string \<Rightarrow> string login_config \<Rightarrow> sdk_authorization \<Rightarrow> store \<Rightarrow> (string + unit) \<times> store" where
  "save_pending codec io synced uuid lc sdk st =
     (let file = ''pending-'' @ uuid @ ''.json'' in
      case save_to_file (oc_files codec) io st sdk (join_path (lc_state_dir lc) file) of
        (Inl _, st1) \<Rightarrow> (Inl ''SDK snapshot failed'', st1)
      | (Inr _, st1) \<Rightarrow>
          (case publish io synced st1 (lc_state_dir lc @ [''pending.json'']) (oc_pending_to codec file) of
             (Inl _, st2) \<Rightarrow> (Inl ''SDK pointer failed'', st2)
           | (Inr _, st2) \<Rightarrow> (Inr (), st2)))"

text \<open>\<open>sdk_login\<close> and \<open>game_login\<close>, with the settings already validated up to the lock.\<close>

definition operator_start ::
  "library \<Rightarrow> 'k sdk_library \<Rightarrow> operator_codec \<Rightarrow> nat \<Rightarrow> nat \<Rightarrow> flow \<Rightarrow> string login_config \<Rightarrow> session_config \<Rightarrow> store \<Rightarrow>
     (string + unit) \<times> store" where
  "operator_start lib slib codec now binding fl lc cfg st =
     (case operator_validate lib slib codec now binding st lc cfg of
        Inl _ \<Rightarrow> (Inl ''invalid private login configuration'', st)
      | Inr _ \<Rightarrow>
          (case operator_lock (fl_io fl) (fl_held fl) st lc of
             (Inl _, st1) \<Rightarrow> (Inl ''another authentication operation is active'', st1)
           | (Inr _, st1) \<Rightarrow> (Inr (), st1)))"

definition operator_sdk_login ::
  "library \<Rightarrow> 'k sdk_library \<Rightarrow> operator_codec \<Rightarrow> nat \<Rightarrow> nat \<Rightarrow> flow \<Rightarrow> session_config \<Rightarrow> string login_config \<Rightarrow> string \<Rightarrow> string \<Rightarrow>
     sdk_exchange \<Rightarrow> sdk_exchange \<Rightarrow> store \<Rightarrow> (string + unit) \<times> store" where
  "operator_sdk_login lib slib codec now binding fl cfg lc email password ex1 ex2 st =
     (case operator_start lib slib codec now binding fl lc cfg st of
        (Inl e, st1) \<Rightarrow> (Inl e, st1)
      | (Inr _, st1) \<Rightarrow>
          (case password_authorization lib slib codec now binding st1 cfg lc email password False ex1 ex2 of
             (Inl e, _) \<Rightarrow> (Inl e, st1)
           | (Inr sdk, _) \<Rightarrow> save_pending codec (fl_io fl) (fl_synced fl) (fl_uuid fl) lc sdk st1))"

definition pending_name :: "string \<Rightarrow> bool" where
  "pending_name v \<longleftrightarrow>
     \<not> (\<not> starts_with v ''pending-'' \<or> \<not> ends_with v ''.json''
        \<or> CHR ''/'' \<in> set v \<or> char_of (92 :: nat) \<in> set v)"

definition pending_sdk ::
  "library \<Rightarrow> operator_codec \<Rightarrow> string login_config \<Rightarrow> session_config \<Rightarrow> store \<Rightarrow> string + sdk_authorization" where
  "pending_sdk lib codec lc cfg st =
     and_then (map_err (\<lambda>_. ''pending SDK login required'')
                 (private_read st (lc_state_dir lc @ [''pending.json'']))) (\<lambda>raw.
     and_then (ok_or (oc_pending_from codec raw) ''invalid pending state'') (\<lambda>file.
       if \<not> pending_name file then Inl ''invalid pending path''
       else map_err (\<lambda>_. ''invalid SDK snapshot'')
              (sdk_from_file lib (oc_files codec) st cfg (join_path (lc_state_dir lc) file))))"

fun kind_debug :: "error_kind \<Rightarrow> string" where
  "kind_debug InvalidConfig = ''InvalidConfig''"
| "kind_debug InvalidRequest = ''InvalidRequest''"
| "kind_debug AuthenticationRequired = ''AuthenticationRequired''"
| "kind_debug Authentication = ''Authentication''"
| "kind_debug Maintenance = ''Maintenance''"
| "kind_debug Version = ''Version''"
| "kind_debug DeviceConflict = ''DeviceConflict''"
| "kind_debug Business = ''Business''"
| "kind_debug Transport = ''Transport''"
| "kind_debug Protocol = ''Protocol''"
| "kind_debug Timeout = ''Timeout''"
| "kind_debug Cancelled = ''Cancelled''"
| "kind_debug QueueFull = ''QueueFull''"
| "kind_debug SessionChanged = ''SessionChanged''"

text \<open>\<open>made\<close> is the client that \<open>Client::new\<close> gives for the configuration without credentials.\<close>

definition operator_game_login ::
  "library \<Rightarrow> 'k sdk_library \<Rightarrow> operator_codec \<Rightarrow> nat \<Rightarrow> nat \<Rightarrow> game_calls \<Rightarrow> flow \<Rightarrow> session_config \<Rightarrow> string login_config \<Rightarrow>
     client outcome \<Rightarrow> bool \<Rightarrow> store \<Rightarrow> (string + unit) \<times> store list" where
  "operator_game_login lib slib codec now binding calls fl cfg lc made allow_create st =
     (case operator_start lib slib codec now binding fl lc cfg st of
        (Inl e, st1) \<Rightarrow> (Inl e, [st1, st])
      | (Inr _, st1) \<Rightarrow>
          (case (and_then (pending_sdk lib codec lc cfg st1) (\<lambda>sdk.
                 and_then (map_err (\<lambda>_. ''invalid session config'') made) (\<lambda>c.
                 and_then (map_err (\<lambda>_. ''invalid device context'') (operator_context codec st1 lc)) (\<lambda>ctx.
                   Inr (sdk, c, ctx))))) of
             Inl e \<Rightarrow> (Inl e, [st1, st])
           | Inr (sdk, c, ctx) \<Rightarrow>
               (case gc_pre_login calls (client_generation c) sdk ctx c of
                  (Inl e, _) \<Rightarrow> (Inl (''pre-login failed: '' @ kind_debug (kind e)), [st1, st])
                | (Inr exists, c1) \<Rightarrow>
                    if \<not> exists \<and> \<not> allow_create
                    then (Inl ''No role found. Re-run with --allow-create only if account creation is intended.'', [st1, st])
                    else (case gc_login calls (client_generation c1) sdk ctx c1 of
                            (Inl e, _) \<Rightarrow> (Inl (''game login failed: '' @ kind_debug (kind e)), [st1, st])
                          | (Inr _, c2) \<Rightarrow>
                              (case persist codec (fl_io fl) (fl_synced fl) (fl_uuid fl) lc cfg sdk
                                      (client_generation c2) c2 (fl_final fl c2) st1 of
                                 (r, stores) \<Rightarrow>
                                   (map_err (\<lambda>_. ''Session activated in memory but persistence failed; no automatic retry.'') r,
                                    stores @ [st]))))))"

section \<open>Facts\<close>

lemma operator_lock_store:
  "operator_lock io held st lc = (r, st') \<Longrightarrow> extends st' st \<and> st' (pointer_file lc) = st (pointer_file lc)"
  by (auto simp: operator_lock_def extends_def pointer_file_def Let_def
      split: sum.split_asm option.split_asm node.split_asm if_split_asm)

lemma operator_lock_free:
  "operator_lock io held st lc = (Inr p, st') \<Longrightarrow> p \<notin> held"
  by (auto simp: operator_lock_def Let_def split: sum.split_asm option.split_asm node.split_asm if_split_asm)

text \<open>Two saved sessions are of one account: the player and the BID are those of the other.\<close>

definition same_account :: "credentials \<Rightarrow> credentials \<Rightarrow> bool" where
  "same_account a b \<longleftrightarrow> player_id a = player_id b \<and> bid a = bid b"

lemma matches_identity_True:
  assumes "matches_identity gen (static_provide lib saved) c = Inr True"
  shows "client_generation c = gen \<and> (\<exists>a. s_credentials (current_session c) = Some a \<and> same_account a (sc_credentials saved))"
  using assms
  by (auto simp: matches_identity_def session_for_def client_generation_def static_provide_def same_account_def
      result_simps split: if_split_asm option.split_asm)

lemma recovery_checks_Inr:
  assumes "recovery_checks lib codec st lc cfg gen c = Inr (saved, sdk, ctx)"
  shows "client_generation c = gen \<and> operator_credentials codec st lc cfg = Inr (Some saved)
    \<and> matches_identity gen (static_provide lib saved) c = Inr True"
  using assms by (auto simp: recovery_checks_def result_simps split: if_split_asm)

definition login_saved_readably :: "operator_codec \<Rightarrow> game_calls \<Rightarrow> bool" where
  "login_saved_readably codec calls \<longleftrightarrow>
     (\<forall>gen sdk ctx c1 creds. let c2 = snd (gc_login calls gen sdk ctx c1) in
        s_credentials (current_session c2) = Some creds \<longrightarrow>
        reads_credentials (oc_files codec) (credentials_document (s_config (current_session c2)) creds))"

lemma game_recover_cases:
  assumes "game_recover lib codec calls fl lc cfg gen c st = (r, stores, c')"
  obtains st1 where "extends st1 st" "st1 (pointer_file lc) = st (pointer_file lc)" "stores = [st1, st]" "r \<noteq> Inr ()"
  | st1 saved sdk ctx c1 c2 trace where "extends st1 st" "st1 (pointer_file lc) = st (pointer_file lc)"
      "recovery_checks lib codec st1 lc cfg gen c = Inr (saved, sdk, ctx)"
      "gc_pre_login calls gen sdk ctx c = (Inr True, c1)" "gc_login calls gen sdk ctx c1 = (Inr (), c2)"
      "matches_identity (client_generation c2) (static_provide lib saved) c2 = Inr True" "\<not> fl_cancelled fl"
      "persist codec (fl_io fl) (fl_synced fl) (fl_uuid fl) lc cfg sdk (client_generation c2) c2 (fl_final fl c2) st1 = (r, trace)"
      "stores = trace @ [st]" "c' = fl_final fl c2"
proof -
  obtain l st1 where l: "operator_lock (fl_io fl) (fl_held fl) st lc = (l, st1)" by fastforce
  note st1 = operator_lock_store [OF l]
  show thesis
    using assms l st1 that
    by (auto simp: game_recover_def split: sum.split_asm prod.split_asm bool.split_asm if_split_asm)
qed

section \<open>Properties\<close>

text \<open>
  C26: an automatic re-login never changes the account of the saved session.  Whatever the
  upstream calls and concurrent updates did to the client, at every moment of a recovery, also
  one that fails or is cut off, the saved session loads and has the player and BID of the one
  before; after a success it is the session the login has just installed, and that one is still
  the client's current one when the pointer is replaced.
\<close>

theorem recovery_keeps_the_account:
  assumes run: "game_recover lib codec calls fl lc cfg gen c st = (r, stores, c')"
    and saved: "operator_credentials codec st lc cfg = Inr (Some saved)"
    and uuid: "CHR ''/'' \<notin> set (fl_uuid fl)" "char_of (92 :: nat) \<notin> set (fl_uuid fl)"
    and pointer: "oc_pointer_from codec (oc_pointer_to codec (new_pointer (fl_uuid fl) cfg)) = Some (new_pointer (fl_uuid fl) cfg)"
      "length (oc_pointer_to codec (new_pointer (fl_uuid fl) cfg)) \<le> 65536"
    and readable: "login_saved_readably codec calls"
  shows "(\<forall>s\<in>set stores. \<exists>now. operator_credentials codec s lc cfg = Inr (Some now)
      \<and> same_account (sc_credentials now) (sc_credentials saved))
    \<and> (r = Inr () \<longrightarrow> (\<exists>sdk ctx c1 c2 now. gc_login calls gen sdk ctx c1 = (Inr (), c2)
        \<and> operator_credentials codec (hd stores) lc cfg = Inr (Some now)
        \<and> s_credentials (current_session c2) = Some (sc_credentials now)
        \<and> client_generation c' = client_generation c2))"
  using run
proof (cases rule: game_recover_cases)
  case (1 st1)
  with operator_credentials_kept [OF saved] saved show ?thesis by (auto simp: same_account_def)
next
  case (2 st1 found sdk ctx c1 c2 trace)
  have old: "operator_credentials codec st1 lc cfg = Inr (Some saved)"
    by (rule operator_credentials_kept [OF saved 2(1,2)])
  with recovery_checks_Inr [OF 2(3)] have found: "found = saved" by simp
  from matches_identity_True [OF 2(6)] obtain a where a: "s_credentials (current_session c2) = Some a"
    "same_account a (sc_credentials saved)"
    by (auto simp: found)
  have "reads_credentials (oc_files codec) (credentials_document (s_config (current_session c2)) creds)"
    if "s_credentials (current_session c2) = Some creds" for creds
    using readable [unfolded login_saved_readably_def Let_def, rule_format, of gen sdk ctx c1 creds] that 2(5) by simp
  note loads = persist_loads [OF 2(8) old uuid pointer this]
  have same: "same_account (sc_credentials saved) (sc_credentials saved)" by (simp add: same_account_def)
  have "\<exists>now. operator_credentials codec s lc cfg = Inr (Some now) \<and> same_account (sc_credentials now) (sc_credentials saved)"
    if "s \<in> set stores" for s
    using that 2(9) loads(1) saved a same by fastforce
  moreover have "\<exists>now. operator_credentials codec (hd stores) lc cfg = Inr (Some now)
      \<and> s_credentials (current_session c2) = Some (sc_credentials now) \<and> client_generation c' = client_generation c2"
    if "r = Inr ()"
    using loads(2) [OF _ that] loads(3) 2(9,10) by (cases trace) (auto simp:)
  ultimately show ?thesis using 2(5) by blast
qed

definition sample_recovery_codec :: operator_codec where
  "sample_recovery_codec = sample_operator_codec
     \<lparr>oc_pointer_to := (\<lambda>_. ''n''),
      oc_pointer_from := (\<lambda>v. Some (new_pointer (if v = ''n'' then ''8'' else ''7'') sample_config))\<rparr>"

definition sample_game_calls :: game_calls where
  "sample_game_calls = \<lparr>gc_pre_login = (\<lambda>_ _ _ c. (Inr True, c)), gc_login = (\<lambda>_ _ _ _. (Inr (), sample_operator_client))\<rparr>"

definition sample_flow :: flow where
  "sample_flow = \<lparr>fl_io = True, fl_synced = True, fl_uuid = ''8'', fl_held = {}, fl_cancelled = False, fl_final = (\<lambda>c. c)\<rparr>"

definition sample_saved_store :: store where
  "sample_saved_store =
     [[''state''] \<mapsto> Dir 0x1C0, [''state'', ''current.json''] \<mapsto> File 0x180 ''p'',
      [''state'', ''game-7.json''] \<mapsto> File 0x180 ''c'', [''state'', ''sdk-7.json''] \<mapsto> File 0x180 ''s'']"

lemma sample_saved_loads:
  "operator_credentials sample_recovery_codec sample_saved_store sample_login sample_config
     = Inr (Some (credentials_document sample_config sample_credentials))"
proof -
  have plain: "char_of (92 :: nat) \<notin> set ''7''" "CHR ''/'' \<notin> set ''7''" by (simp_all add: char_of_def bit_0)
  note names = new_pointer_names [OF plain(2,1), of sample_config]
  have "read_pointer sample_recovery_codec sample_saved_store sample_login sample_config = Inr (new_pointer ''7'' sample_config)"
    using names(1,2)
    by (simp add: read_pointer_Inr private_read_Inr sample_recovery_codec_def sample_saved_store_def pointer_file_def
        sample_login_def shared_mode_def) (simp add: new_pointer_def)
  moreover have "join_path [''state''] (pt_game_file (new_pointer ''7'' sample_config)) = [''state'', ''game-7.json'']"
    using snapshot_join [OF names(2), of "[''state'']"] by (simp add: new_pointer_def)
  ultimately show ?thesis
    by (simp add: operator_credentials_def static_from_file_def sample_saved_store_def pointer_file_def sample_login_def
        sample_recovery_codec_def sample_operator_codec_def sample_codec_def shared_mode_def
        utf8_valid.simps utf8_next_def byte_def)
qed

theorem recovery_keeps_the_account_witness:
  "\<exists>stores c' now. game_recover sample_library sample_recovery_codec sample_game_calls sample_flow sample_login sample_config
       0 sample_operator_client sample_saved_store = (Inr (), stores, c')
     \<and> operator_credentials sample_recovery_codec (hd stores) sample_login sample_config = Inr (Some now)
     \<and> length stores = 5"
proof -
  have plain: "char_of (92 :: nat) \<notin> set ''7''" "CHR ''/'' \<notin> set ''7''" "char_of (92 :: nat) \<notin> set ''8''" "CHR ''/'' \<notin> set ''8''"
    by (simp_all add: char_of_def bit_0)
  note names = new_pointer_names [OF plain(2,1), of sample_config] new_pointer_names [OF plain(4,3), of sample_config]
  have joins: "join_path [''state''] ''sdk-7.json'' = [''state'', ''sdk-7.json'']"
    "join_path [''state''] ''sdk-8.json'' = [''state'', ''sdk-8.json'']"
    "join_path [''state''] ''game-8.json'' = [''state'', ''game-8.json'']"
    using snapshot_join [OF names(1), of "[''state'']"] snapshot_join [OF names(5), of "[''state'']"]
      snapshot_join [OF names(6), of "[''state'']"]
    by (simp_all add: new_pointer_def)
  let ?st1 = "sample_saved_store([''state'', ''operator.lock''] \<mapsto> File 0x180 [])"
  have lock: "operator_lock True {} sample_saved_store sample_login = (Inr [''state'', ''operator.lock''], ?st1)"
    by (simp add: operator_lock_def private_dir_def sample_saved_store_def sample_login_def shared_mode_def Let_def)
  have creds: "operator_credentials sample_recovery_codec ?st1 sample_login sample_config
      = Inr (Some (credentials_document sample_config sample_credentials))"
    by (rule operator_credentials_kept [OF sample_saved_loads])
      (simp_all add: extends_def sample_saved_store_def pointer_file_def sample_login_def)
  have same: "matches_identity 0 (static_provide sample_library (credentials_document sample_config sample_credentials))
      sample_operator_client = Inr True"
    by (simp add: matches_identity_def session_for_def client_generation_def current_session_def sample_operator_client_def
        static_provide_def sample_session_defs origin_def starts_with_def)
  have "read_pointer sample_recovery_codec ?st1 sample_login sample_config = Inr (new_pointer ''7'' sample_config)"
    using names(1,2)
    by (simp add: read_pointer_Inr private_read_Inr sample_recovery_codec_def sample_saved_store_def pointer_file_def
        sample_login_def shared_mode_def) (simp add: new_pointer_def)
  then have sdk: "approved_sdk sample_library sample_recovery_codec ?st1 sample_login sample_config = Inr sample_sdk"
    by (simp add: approved_sdk_def new_pointer_def sample_login_def joins sdk_from_file_def read_secret_def
        sample_saved_store_def shared_mode_def LIMIT_def)
      (simp add: sample_recovery_codec_def sample_operator_codec_def sample_codec_def check_binding_def
        from_callback_json_def config_validate_def config_rejected_def metadata_def meta_insert_def origin_def
        sample_sdk_def sample_session_defs byte_def starts_with_def Let_def)
  have ctx: "operator_context sample_recovery_codec ?st1 sample_login = Inr sample_context"
    by (simp add: operator_context_def validate_sources_def sample_login_def sample_context_def)
  have checks: "recovery_checks sample_library sample_recovery_codec ?st1 sample_login sample_config 0 sample_operator_client
      = Inr (credentials_document sample_config sample_credentials, sample_sdk, sample_context)"
    using creds same sdk ctx
    by (simp add: recovery_checks_def client_generation_def session_status_of_def current_session_def sample_operator_client_def)
  obtain r stores c' where run: "game_recover sample_library sample_recovery_codec sample_game_calls sample_flow sample_login
      sample_config 0 sample_operator_client sample_saved_store = (r, stores, c')" by (metis prod_cases3)
  have gen: "client_generation sample_operator_client = 0"
    by (simp add: client_generation_def current_session_def sample_operator_client_def)
  have r: "r = Inr () \<and> length stores = 5"
    using run lock checks same gen
    by (simp add: game_recover_def sample_flow_def sample_game_calls_def persist_def joins private_dir_def
      save_to_file_def create_secret_def LIMIT_def private_parent_def parent_of_def save_game_def save_session_def
      save_credentials_def publish_def pointer_file_def client_generation_def current_session_def
      sample_login_def sample_saved_store_def sample_operator_client_def sample_recovery_codec_def sample_operator_codec_def
      sample_codec_def shared_mode_def new_pointer_def Let_def private_read_def) auto
  have "login_saved_readably sample_recovery_codec sample_game_calls"
    using sample_reads(1)
    by (simp add: login_saved_readably_def sample_game_calls_def sample_recovery_codec_def sample_operator_codec_def
        sample_operator_client_def current_session_def)
  from recovery_keeps_the_account [OF run sample_saved_loads _ _ _ _ this] r run plain(3,4) show ?thesis
    by (auto simp: sample_flow_def sample_recovery_codec_def)
qed

end
