(* ===== verification/Accounts.thy ===== *)
theory Accounts
  imports Recovery
begin

text \<open>
  The account directory (\<open>server/src/accounts.rs\<close>): choosing the one account file, the private
  state directory of that account, and the recoveries that log in from it: with the password
  only for the very first time, with the saved session afterwards.  JP accounts are imported
  credentials.  SHA-256, the JSON of an account file and the listing of a directory are parameters.
\<close>

section \<open>The configuration and the files\<close>

definition MAX_FILES :: nat where
  "MAX_FILES = 128"

datatype account_strategy = SingleAccount | RoundRobin

record 'e accounts_config =
  ac_directory :: "'e list"
  ac_selected :: "string option"
  ac_strategy :: account_strategy
  ac_allow_create :: bool
  ac_sdk_ready :: bool

definition valid_name :: "string \<Rightarrow> bool" where
  "valid_name name \<longleftrightarrow>
     \<not> starts_with name ''.'' \<and> ends_with name ''.json'' \<and> length name \<le> 200
     \<and> \<not> (CHR ''/'' \<in> set name \<or> char_of (92 :: nat) \<in> set name)
     \<and> \<not> has_control name \<and> component_count name = 1"

definition accounts_validate :: "'e accounts_config \<Rightarrow> unit outcome" where
  "accounts_validate ac =
     (if ac_directory ac = []
         \<or> (case ac_selected ac of None \<Rightarrow> False | Some s \<Rightarrow> \<not> valid_name s)
         \<or> ac_strategy ac = RoundRobin \<and> ac_selected ac \<noteq> None
      then fail InvalidConfig else Inr ())"

text \<open>
  The entries of the directory as they are read, at most one more than the limit; an entry is
  None if it cannot be read or its name is not text.
\<close>

fun listed_names :: "nat \<Rightarrow> string option list \<Rightarrow> string list outcome" where
  "listed_names i [] = Inr []"
| "listed_names i (None # es) = fail InvalidConfig"
| "listed_names i (Some name # es) =
     (if i = MAX_FILES then fail InvalidConfig
      else and_then (listed_names (i + 1) es) (\<lambda>names. Inr (if valid_name name then name # names else names)))"

type_synonym listing = "path \<Rightarrow> string option list option"

definition file_list :: "listing \<Rightarrow> store \<Rightarrow> string accounts_config \<Rightarrow> path list outcome" where
  "file_list entries st ac =
     and_then (accounts_validate ac) (\<lambda>_.
       if st (ac_directory ac) = None then Inr []
       else and_then (private_dir st (ac_directory ac)) (\<lambda>_.
         case ac_selected ac of
           Some name \<Rightarrow>
             let p = join_path (ac_directory ac) name in
             Inr (if st p = None then [] else [p])
         | None \<Rightarrow>
             and_then (ok_or (entries (ac_directory ac)) (client_error_new InvalidConfig)) (\<lambda>es.
             and_then (listed_names 0 (take (MAX_FILES + 1) es)) (\<lambda>names.
               Inr (sort (map (\<lambda>name. ac_directory ac @ [name]) names))))))"

text \<open>The only file of the directory.\<close>

definition the_file :: "path list outcome \<Rightarrow> path outcome" where
  "the_file found =
     and_then found (\<lambda>files.
       case files of
         [] \<Rightarrow> fail AuthenticationRequired
       | [p] \<Rightarrow> Inr p
       | _ \<Rightarrow> fail InvalidConfig)"

section \<open>Digests\<close>

definition be_bytes :: "nat \<Rightarrow> string" where
  "be_bytes n = map (\<lambda>i. char_of (n div 256 ^ (7 - i) mod 256)) [0..<8]"

definition framed :: "string list \<Rightarrow> string" where
  "framed parts = concat (map (\<lambda>part. be_bytes (length part) @ part) parts)"

definition hash_parts :: "(string \<Rightarrow> string) \<Rightarrow> string list \<Rightarrow> string" where
  "hash_parts digest parts = digest (framed parts)"

definition lower_hex :: "nat \<Rightarrow> char" where
  "lower_hex n = (if n < 10 then char_of (48 + n) else char_of (87 + n))"

definition hex_name :: "string \<Rightarrow> string" where
  "hex_name bytes = concat (map (\<lambda>b. [lower_hex (byte b div 16), lower_hex (byte b mod 16)]) bytes)"

section \<open>International accounts\<close>

record account =
  acc_user :: string
  acc_password :: string

text \<open>
  The surroundings of a recovery: the libraries, the directory listing, the calls of the game
  client, whether a directory can be made, whether cancellation is requested at the first poll
  and before the password is sent, the fresh generation, and the SDK exchanges.  Later polls
  are those of the flow.
\<close>

record 'k account_env =
  ae_library :: library
  ae_sdk :: "'k sdk_library"
  ae_codec :: operator_codec
  ae_account :: "string \<Rightarrow> account option"
  ae_digest :: "string \<Rightarrow> string"
  ae_listing :: listing
  ae_calls :: game_calls
  ae_flow :: flow
  ae_mkdir :: bool
  ae_cancelled :: bool
  ae_cancelled_sdk :: bool
  ae_connect :: "session_config \<Rightarrow> nat option"
  ae_fresh :: generation
  ae_now :: nat
  ae_binding :: nat
  ae_first :: sdk_exchange
  ae_second :: sdk_exchange

definition select_account :: "listing \<Rightarrow> (string \<Rightarrow> account option) \<Rightarrow> store \<Rightarrow> string accounts_config \<Rightarrow> account outcome" where
  "select_account entries parse st ac =
     and_then (the_file (file_list entries st ac)) (\<lambda>p.
     and_then (private_read st p) (\<lambda>raw.
     and_then (ok_or (parse raw) (client_error_new InvalidConfig)) (\<lambda>account.
       if trim (acc_user account) = [] \<or> 1024 < length (acc_user account)
          \<or> acc_password account = [] \<or> 4096 < length (acc_password account)
       then fail InvalidConfig else Inr account)))"

definition account_client_new ::
  "library \<Rightarrow> string accounts_config \<Rightarrow> session_config \<Rightarrow> string option outcome" where
  "account_client_new lib ac cfg =
     and_then (accounts_validate ac) (\<lambda>_. and_then (config_validate lib cfg) (\<lambda>_. Inr None))"

definition account_dir :: "(string \<Rightarrow> string) \<Rightarrow> string login_config \<Rightarrow> session_config \<Rightarrow> string \<Rightarrow> path" where
  "account_dir digest lc cfg user =
     lc_state_dir lc @ [''account-'' @ hex_name (hash_parts digest [user, region cfg, config_origin cfg])]"

definition scoped_login ::
  "(string \<Rightarrow> string) \<Rightarrow> bool \<Rightarrow> string login_config \<Rightarrow> session_config \<Rightarrow> account \<Rightarrow> store \<Rightarrow> string login_config outcome \<times> store" where
  "scoped_login digest mkdir lc cfg account st =
     (case private_dir st (lc_state_dir lc) of
        Inl e \<Rightarrow> (Inl e, st)
      | Inr _ \<Rightarrow>
          (let dir = account_dir digest lc cfg (acc_user account) in
           if st dir = None \<and> \<not> mkdir then (fail InvalidConfig, st)
           else (let st1 = (if st dir = None then st(dir \<mapsto> Dir 0x1C0) else st) in
                 (and_then (private_dir st1 dir) (\<lambda>_. Inr (lc\<lparr>lc_state_dir := dir\<rparr>)), st1))))"

definition login_role ::
  "operator_codec \<Rightarrow> game_calls \<Rightarrow> flow \<Rightarrow> bool \<Rightarrow> string login_config \<Rightarrow> session_config \<Rightarrow> sdk_authorization \<Rightarrow>
     generation \<Rightarrow> client \<Rightarrow> store \<Rightarrow> unit outcome \<times> store list \<times> client" where
  "login_role codec calls fl allow_create lc cfg sdk gen c st =
     (case operator_context codec st lc of
        Inl e \<Rightarrow> (Inl e, [st], c)
      | Inr ctx \<Rightarrow>
          (case gc_pre_login calls gen sdk ctx c of
             (Inl e, c1) \<Rightarrow> (Inl e, [st], c1)
           | (Inr exists, c1) \<Rightarrow>
               if \<not> exists \<and> \<not> allow_create then (fail AuthenticationRequired, [st], c1)
               else (case gc_login calls gen sdk ctx c1 of
                       (Inl e, c2) \<Rightarrow> (Inl e, [st], c2)
                     | (Inr _, c2) \<Rightarrow>
                         if fl_cancelled fl then (fail Cancelled, [st], c2)
                         else (case persist codec (fl_io fl) (fl_synced fl) (fl_uuid fl) lc cfg sdk
                                      (client_generation c2) c2 (fl_final fl c2) st of
                                 (r, stores) \<Rightarrow> (r, stores, fl_final fl c2)))))"

definition sdk_path :: "string login_config \<Rightarrow> path" where
  "sdk_path lc = lc_state_dir lc @ [''initial-sdk.json'']"

text \<open>The SDK authorization of the first login: a saved one, or one from the password.\<close>

definition initial_sdk ::
  "'k account_env \<Rightarrow> string login_config \<Rightarrow> session_config \<Rightarrow> account \<Rightarrow> store \<Rightarrow>
     sdk_authorization outcome \<times> sdk_request list \<times> store" where
  "initial_sdk env lc cfg account st =
     (case st (sdk_path lc) of
        Some (File _ _) \<Rightarrow> (sdk_from_file (ae_library env) (oc_files (ae_codec env)) st cfg (sdk_path lc), [], st)
      | Some _ \<Rightarrow> (fail InvalidConfig, [], st)
      | None \<Rightarrow>
          (case password_authorization (ae_library env) (ae_sdk env) (ae_codec env) (ae_now env) (ae_binding env) st cfg lc
                  (acc_user account) (acc_password account) (ae_cancelled_sdk env) (ae_first env) (ae_second env) of
             (Inl _, sent) \<Rightarrow> (fail Authentication, sent, st)
           | (Inr sdk, sent) \<Rightarrow>
               (case save_to_file (oc_files (ae_codec env)) (fl_io (ae_flow env)) st sdk (sdk_path lc) of
                  (Inl e, st1) \<Rightarrow> (Inl e, sent, st1)
                | (Inr _, st1) \<Rightarrow> (Inr sdk, sent, st1))))"

text \<open>
  The part of a recovery after the account has been selected and its directory prepared; the
  result, the SDK requests sent, the stores passed through, the last one first, and the client.
\<close>

type_synonym recovered = "unit outcome \<times> sdk_request list \<times> store list \<times> client"

definition first_login ::
  "'k account_env \<Rightarrow> string accounts_config \<Rightarrow> string login_config \<Rightarrow> session_config \<Rightarrow> account \<Rightarrow> generation \<Rightarrow> client \<Rightarrow> store \<Rightarrow> recovered" where
  "first_login env ac lc cfg account gen c st =
     (if \<not> ac_sdk_ready ac then (fail AuthenticationRequired, [], [st], c)
      else (case operator_validate (ae_library env) (ae_sdk env) (ae_codec env) (ae_now env) (ae_binding env) st lc cfg of
              Inl e \<Rightarrow> (Inl e, [], [st], c)
            | Inr _ \<Rightarrow>
                (case initial_sdk env lc cfg account st of
                   (Inl e, sent, st1) \<Rightarrow> (Inl e, sent, [st1, st], c)
                 | (Inr sdk, sent, st1) \<Rightarrow>
                     (case login_role (ae_codec env) (ae_calls env) (ae_flow env) (ac_allow_create ac) lc cfg sdk gen c st1 of
                        (r, stores, c') \<Rightarrow> (r, sent, stores @ [st], c')))))"

definition account_login ::
  "'k account_env \<Rightarrow> string accounts_config \<Rightarrow> string login_config \<Rightarrow> session_config \<Rightarrow> account \<Rightarrow> generation \<Rightarrow> client \<Rightarrow> store \<Rightarrow> recovered" where
  "account_login env ac lc cfg account gen c st =
     (if session_status_of c = AuthenticationRejected
      then (case game_recover (ae_library env) (ae_codec env) (ae_calls env) (ae_flow env) lc cfg gen c st of
              (r, stores, c') \<Rightarrow> (r, [], stores, c'))
      else if session_status_of c \<noteq> Anonymous then (fail SessionChanged, [], [st], c)
      else (case operator_lock (fl_io (ae_flow env)) (fl_held (ae_flow env)) st lc of
              (Inl e, st1) \<Rightarrow> (Inl e, [], [st1, st], c)
            | (Inr _, st1) \<Rightarrow>
                (case operator_credentials (ae_codec env) st1 lc cfg of
                   Inl e \<Rightarrow> (Inl e, [], [st1, st], c)
                 | Inr (Some saved) \<Rightarrow>
                     if fl_cancelled (ae_flow env) then (fail Cancelled, [], [st1, st], c)
                     else (case replace_session (ae_library env) (ae_connect env) (session_config_of c)
                                  (Some (static_provide (ae_library env) saved)) (ae_fresh env) c of
                             (r, c') \<Rightarrow> (r, [], [st1, st], c'))
                 | Inr None \<Rightarrow>
                     (case first_login env ac lc cfg account gen c st1 of
                        (r, sent, stores, c') \<Rightarrow> (r, sent, stores @ [st], c')))))"

text \<open>\<open>recover\<close>: the first member is the digest of the selected user, kept between recoveries.\<close>

definition account_recover ::
  "'k account_env \<Rightarrow> string accounts_config \<Rightarrow> string login_config \<Rightarrow> session_config \<Rightarrow> generation \<Rightarrow> string option \<Rightarrow> client \<Rightarrow> store \<Rightarrow>
     string option \<times> recovered" where
  "account_recover env ac lc cfg gen identity c st =
     (if ae_cancelled env then (identity, fail Cancelled, [], [st], c)
      else if client_generation c \<noteq> gen then (identity, fail SessionChanged, [], [st], c)
      else (case select_account (ae_listing env) (ae_account env) st ac of
              Inl e \<Rightarrow> (identity, Inl e, [], [st], c)
            | Inr account \<Rightarrow>
                (let found = hash_parts (ae_digest env) [acc_user account] in
                 if identity \<noteq> None \<and> identity \<noteq> Some found then (identity, fail InvalidConfig, [], [st], c)
                 else (Some found,
                       case scoped_login (ae_digest env) (ae_mkdir env) lc cfg account st of
                         (Inl e, st1) \<Rightarrow> (Inl e, [], [st1, st], c)
                       | (Inr scoped, st1) \<Rightarrow>
                           (case account_login env ac scoped cfg account gen c st1 of
                              (r, sent, stores, c') \<Rightarrow> (r, sent, stores @ [st], c'))))))"

definition account_revision :: "'k account_env \<Rightarrow> string accounts_config \<Rightarrow> store \<Rightarrow> string" where
  "account_revision env ac st =
     (case select_account (ae_listing env) (ae_account env) st ac of
        Inr account \<Rightarrow> hash_parts (ae_digest env) [acc_user account, acc_password account]
      | Inl e \<Rightarrow> hash_parts (ae_digest env) [kind_debug (kind e)])"

section \<open>JP accounts\<close>

definition jp_account_client_new :: "string accounts_config \<Rightarrow> session_config \<Rightarrow> unit outcome" where
  "jp_account_client_new ac cfg =
     and_then (accounts_validate ac) (\<lambda>_. if region cfg \<noteq> ''jp'' then fail InvalidConfig else Inr ())"

definition jp_provider ::
  "library \<Rightarrow> file_codec \<Rightarrow> listing \<Rightarrow> store \<Rightarrow> string accounts_config \<Rightarrow> session_config \<Rightarrow> static_credentials outcome" where
  "jp_provider lib codec entries st ac cfg =
     and_then (the_file (file_list entries st ac)) (\<lambda>p.
     and_then (private_read st p) (\<lambda>raw. static_from_json lib (credentials_from_json codec) cfg raw))"

definition jp_revision :: "(string \<Rightarrow> string) \<Rightarrow> listing \<Rightarrow> store \<Rightarrow> string accounts_config \<Rightarrow> string" where
  "jp_revision digest entries st ac =
     (case file_list entries st ac of
        Inr [p] \<Rightarrow>
          (case private_read st p of
             Inr raw \<Rightarrow> hash_parts digest [raw]
           | Inl _ \<Rightarrow> hash_parts digest [''invalid''])
      | _ \<Rightarrow> hash_parts digest [''missing_or_ambiguous''])"

definition jp_recover ::
  "library \<Rightarrow> file_codec \<Rightarrow> listing \<Rightarrow> string accounts_config \<Rightarrow> session_config \<Rightarrow> generation \<Rightarrow> bool \<Rightarrow> generation \<Rightarrow> client \<Rightarrow> store \<Rightarrow>
     unit outcome \<times> client" where
  "jp_recover lib codec entries ac cfg gen cancelled fresh c st =
     (case jp_provider lib codec entries st ac cfg of
        Inl e \<Rightarrow> (Inl e, c)
      | Inr provider \<Rightarrow>
          if cancelled then (fail Cancelled, c)
          else import_credentials lib gen (static_provide lib provider) fresh c)"

section \<open>Facts\<close>

lemma be_bytes_digits:
  "\<forall>i<k. n div 256 ^ i mod 256 = m div 256 ^ i mod (256 :: nat) \<Longrightarrow> n mod 256 ^ k = m mod 256 ^ k"
proof (induction k)
  case (Suc k)
  have "x mod 256 ^ Suc k = 256 ^ k * (x div 256 ^ k mod 256) + x mod 256 ^ k" for x :: nat
    by (simp add: mod_mult2_eq mult.commute [of 256])
  with Suc show ?case by auto
qed simp

lemma be_bytes_inj:
  assumes "be_bytes n = be_bytes m" "n < 2 ^ 64" "m < 2 ^ 64"
  shows "n = m"
proof -
  have byte: "n div 256 ^ (7 - j) mod 256 = m div 256 ^ (7 - j) mod 256" if "j < 8" for j
  proof -
    from assms(1) that have "char_of (n div 256 ^ (7 - j) mod 256) = (char_of (m div 256 ^ (7 - j) mod 256) :: char)"
      by (simp add: be_bytes_def)
    then have "of_char (char_of (n div 256 ^ (7 - j) mod 256) :: char)
        = (of_char (char_of (m div 256 ^ (7 - j) mod 256) :: char) :: nat)" by simp
    then show ?thesis by simp
  qed
  have "n div 256 ^ i mod 256 = m div 256 ^ i mod 256" if "i < 8" for i
    using byte [of "7 - i"] that by simp
  then have "n mod 256 ^ 8 = m mod 256 ^ 8" by (intro be_bytes_digits) blast
  moreover have "(256 :: nat) ^ 8 = 2 ^ 64" by simp
  ultimately show ?thesis using assms(2,3) by simp
qed

lemma length_be_bytes [simp]: "length (be_bytes n) = 8"
  by (simp add: be_bytes_def)

lemma framed_inj:
  "framed xs = framed ys \<Longrightarrow> \<forall>x\<in>set (xs @ ys). length x < 2 ^ 64 \<Longrightarrow> xs = ys"
proof (induction xs arbitrary: ys)
  case Nil
  then show ?case by (cases ys) (auto simp: framed_def dest: arg_cong [where f = length])
next
  case (Cons x xs)
  then obtain y zs where ys: "ys = y # zs"
    by (cases ys) (auto simp: framed_def dest: arg_cong [where f = length])
  with Cons.prems(1) have eq: "be_bytes (length x) @ x @ framed xs = be_bytes (length y) @ y @ framed zs"
    by (simp add: framed_def)
  then have "length x = length y" using be_bytes_inj [of "length x" "length y"] Cons.prems(2) ys by simp
  with eq have "x = y" "framed xs = framed zs" by simp_all
  with Cons.IH [of zs] Cons.prems(2) ys show ?case by simp
qed

lemma lower_hex_inj:
  assumes "lower_hex a = lower_hex b" "a < 16" "b < 16"
  shows "a = b"
proof -
  have "of_char (lower_hex n) = (if n < 10 then 48 + n else 87 + n)" if "n < 16" for n :: nat
    using that by (simp add: lower_hex_def)
  with assms have "(if a < 10 then 48 + a else 87 + a) = (if b < 10 then 48 + b else 87 + b)" by metis
  then show ?thesis by (simp split: if_split_asm)
qed

lemma hex_name_inj: "hex_name xs = hex_name ys \<Longrightarrow> xs = ys"
proof (induction xs arbitrary: ys)
  case Nil
  then show ?case by (cases ys) (simp_all add: hex_name_def)
next
  case (Cons x xs)
  then obtain y zs where ys: "ys = y # zs" by (cases ys) (simp_all add: hex_name_def)
  with Cons.prems have eq: "lower_hex (byte x div 16) = lower_hex (byte y div 16)"
    "lower_hex (byte x mod 16) = lower_hex (byte y mod 16)" "hex_name xs = hex_name zs"
    by (simp_all add: hex_name_def)
  have small: "byte c div 16 < 16" for c by (simp add: byte_def less_mult_imp_div_less)
  have "byte x div 16 = byte y div 16" by (rule lower_hex_inj [OF eq(1) small small])
  moreover have "byte x mod 16 = byte y mod 16" by (rule lower_hex_inj [OF eq(2)]) simp_all
  ultimately have "byte x = byte y" by (metis div_mult_mod_eq)
  then have "x = y" by (simp add: byte_def)
  with Cons.IH [OF eq(3)] ys show ?case by simp
qed

lemma account_dir_inj:
  assumes "account_dir digest lc cfg user = account_dir digest lc cfg' user'"
    and "digest (framed [user, region cfg, config_origin cfg]) = digest (framed [user', region cfg', config_origin cfg'])
      \<Longrightarrow> framed [user, region cfg, config_origin cfg] = framed [user', region cfg', config_origin cfg']"
    and "\<forall>v\<in>{user, region cfg, config_origin cfg, user', region cfg', config_origin cfg'}. length v < 2 ^ 64"
  shows "user = user' \<and> region cfg = region cfg' \<and> config_origin cfg = config_origin cfg'"
proof -
  have "framed [user, region cfg, config_origin cfg] = framed [user', region cfg', config_origin cfg']"
    using assms(1,2) hex_name_inj by (fastforce simp: account_dir_def hash_parts_def)
  from framed_inj [OF this] assms(3) show ?thesis by simp
qed

text \<open>Persisting only replaces the pointer; every other file stays.\<close>

lemma persist_keeps:
  assumes "persist codec io synced uuid lc cfg sdk gen c c' st = (r, trace)" "s \<in> set trace"
    "q \<noteq> pointer_file lc" "st q = Some n"
  shows "s q = Some n"
proof (cases "private_dir st (lc_state_dir lc)")
  case (Inl e)
  with assms show ?thesis by (auto simp: persist_def)
next
  case (Inr u)
  let ?p = "new_pointer uuid cfg"
  obtain r1 st1 where s1: "save_to_file (oc_files codec) io st sdk (join_path (lc_state_dir lc) (pt_sdk_file ?p)) = (r1, st1)"
    by fastforce
  have q1: "st1 q = Some n" by (rule create_keeps_existing [OF s1 [unfolded save_to_file_def] assms(4)])
  obtain r2 st2 where s2: "save_game codec io st1 gen c (join_path (lc_state_dir lc) (pt_game_file ?p)) = (r2, st2)"
    by fastforce
  have q2: "st2 q = Some n"
    using save_game_cases [OF s2] q1 create_keeps_existing [where q = q and n = n and st = st1 and st' = st2]
    by (auto simp: save_credentials_def)
  obtain r3 st3 where s3: "publish io synced st2 (pointer_file lc) (oc_pointer_to codec ?p) = (r3, st3)" by fastforce
  have q3: "st3 q = Some n" using publish_cases [OF s3] q2 assms(3) by auto
  from assms(1,2,4) q1 q2 q3 Inr s1 s2 s3 show ?thesis
    by (auto simp: persist_def Let_def split: sum.split_asm if_split_asm)
qed

lemma operator_credentials_None:
  "operator_credentials codec st lc cfg = Inr None \<longleftrightarrow> st (pointer_file lc) = None"
  by (auto simp: operator_credentials_def result_simps split: option.splits node.splits)

lemma scoped_login_store:
  "scoped_login digest mkdir lc cfg account st = (r, st') \<Longrightarrow>
     extends st' st \<and> (\<forall>scoped. r = Inr scoped \<longrightarrow> scoped = lc\<lparr>lc_state_dir := account_dir digest lc cfg (acc_user account)\<rparr>)"
  by (auto simp: scoped_login_def extends_def Let_def result_simps split: sum.split_asm if_split_asm)

lemma persist_nonempty: "persist codec io synced uuid lc cfg sdk gen c c' st = (r, trace) \<Longrightarrow> trace \<noteq> []"
  by (auto simp: persist_def Let_def split: sum.split_asm prod.split_asm if_split_asm)

lemma initial_sdk_sent:
  assumes "initial_sdk env lc cfg account st = (r, sent, st')" "sent \<noteq> []"
  shows "st (sdk_path lc) = None \<and> (\<forall>sdk. r = Inr sdk \<longrightarrow> (\<exists>n. st' (sdk_path lc) = Some n))"
  using assms
  by (auto simp: initial_sdk_def save_to_file_def split: option.split_asm node.split_asm prod.split_asm sum.split_asm
      dest!: create_secret_cases)

lemma login_role_keeps:
  assumes "login_role codec calls fl allow lc cfg sdk gen c st = (Inr (), stores, c')" "q \<noteq> pointer_file lc" "st q = Some n"
  shows "stores \<noteq> [] \<and> hd stores q = Some n"
proof -
  from assms(1) obtain c2 trace where p: "persist codec (fl_io fl) (fl_synced fl) (fl_uuid fl) lc cfg sdk
      (client_generation c2) c2 (fl_final fl c2) st = (Inr (), trace)" "stores = trace"
    by (auto simp: login_role_def split: sum.split_asm prod.split_asm if_split_asm)
  with persist_nonempty [OF p(1)] persist_keeps [OF p(1) _ assms(2,3)] show ?thesis by simp
qed

lemma first_login_sent:
  assumes "first_login env ac lc cfg account gen c st = (r, sent, stores, c')" "sent \<noteq> []"
  shows "ac_sdk_ready ac \<and> st (sdk_path lc) = None \<and> (r = Inr () \<longrightarrow> stores \<noteq> [] \<and> hd stores (sdk_path lc) \<noteq> None)"
proof -
  obtain r1 sent1 st1 where i: "initial_sdk env lc cfg account st = (r1, sent1, st1)" by (metis prod_cases3)
  from assms i have sent1: "sent1 = sent" "ac_sdk_ready ac"
    by (auto simp: first_login_def split: sum.split_asm prod.split_asm if_split_asm)
  note sdk = initial_sdk_sent [OF i]
  have "stores \<noteq> [] \<and> hd stores (sdk_path lc) \<noteq> None" if "r = Inr ()"
  proof -
    from assms(1) i that obtain sdk role where "r1 = Inr sdk" and
      l: "login_role (ae_codec env) (ae_calls env) (ae_flow env) (ac_allow_create ac) lc cfg sdk gen c st1 = (Inr (), role, c')"
        "stores = role @ [st]"
      by (auto simp: first_login_def split: sum.split_asm prod.split_asm if_split_asm)
    with sdk sent1 assms(2) obtain n where "st1 (sdk_path lc) = Some n" by auto
    moreover have "sdk_path lc \<noteq> pointer_file lc" by (simp add: sdk_path_def pointer_file_def)
    ultimately have "role \<noteq> [] \<and> hd role (sdk_path lc) = Some n" using login_role_keeps [OF l(1)] by blast
    with l(2) show ?thesis by simp
  qed
  with sdk sent1 assms(2) show ?thesis by simp
qed

lemma account_login_sent:
  assumes "account_login env ac lc cfg account gen c st = (r, sent, stores, c')" "sent \<noteq> []"
  shows "session_status_of c = Anonymous \<and> ac_sdk_ready ac \<and> st (pointer_file lc) = None \<and> st (sdk_path lc) = None
    \<and> (r = Inr () \<longrightarrow> stores \<noteq> [] \<and> hd stores (sdk_path lc) \<noteq> None)"
proof -
  obtain l st1 where lock: "operator_lock (fl_io (ae_flow env)) (fl_held (ae_flow env)) st lc = (l, st1)" by fastforce
  from assms lock obtain p first where "session_status_of c = Anonymous" and none: "operator_credentials (ae_codec env) st1 lc cfg = Inr None"
    and f: "first_login env ac lc cfg account gen c st1 = (r, sent, first, c')" "stores = first @ [st]"
    by (auto simp: account_login_def split: sum.split_asm prod.split_asm option.split_asm if_split_asm)
  moreover have "st q = None" if "st1 q = None" for q
    using operator_lock_store [OF lock] that by (cases "st q") (auto simp: extends_def)
  ultimately show ?thesis
    using first_login_sent [OF f(1) assms(2)] by (auto simp: operator_credentials_None)
qed

lemma valid_name_join: "valid_name name \<Longrightarrow> join_path dir name = dir @ [name]"
  by (rule snapshot_join) (auto simp: valid_name_def snapshot_name_def)

lemma listed_names_Inr:
  "listed_names i es = Inr names \<Longrightarrow> i \<le> MAX_FILES \<Longrightarrow> (\<forall>name\<in>set names. valid_name name) \<and> length names \<le> MAX_FILES - i"
proof (induction i es arbitrary: names rule: listed_names.induct)
  case (3 i name es)
  from 3(2) obtain rest where r: "i \<noteq> MAX_FILES" "listed_names (i + 1) es = Inr rest"
    "names = (if valid_name name then name # rest else rest)"
    by (auto simp: result_simps split: if_split_asm)
  from r(1) 3(3) have "i + 1 \<le> MAX_FILES" by simp
  with 3(1) [OF r(1,2)] have "(\<forall>name\<in>set rest. valid_name name) \<and> length rest \<le> MAX_FILES - (i + 1)" by blast
  with r(1,3) 3(3) show ?case by auto
qed simp_all

section \<open>Properties\<close>

text \<open>
  C27: the password of an account leaves for its first login only.  A recovery that sends any
  SDK request runs for the current, anonymous session, with the readiness of the account
  confirmed, and the private directory of the selected account holds neither a saved session nor
  an SDK authorization; if it succeeds the authorization is there afterwards, so that no later
  recovery of this account sends the password again.
\<close>

theorem password_is_sent_for_the_first_login_only:
  assumes "account_recover env ac lc cfg gen identity c st = (identity', r, sent, stores, c')" "sent \<noteq> []"
  shows "client_generation c = gen \<and> session_status_of c = Anonymous \<and> ac_sdk_ready ac
    \<and> (\<exists>account scoped. select_account (ae_listing env) (ae_account env) st ac = Inr account
        \<and> scoped = lc\<lparr>lc_state_dir := account_dir (ae_digest env) lc cfg (acc_user account)\<rparr>
        \<and> st (pointer_file scoped) = None \<and> st (sdk_path scoped) = None
        \<and> (r = Inr () \<longrightarrow> hd stores (sdk_path scoped) \<noteq> None))"
proof -
  from assms obtain account where gen: "client_generation c = gen"
    and account: "select_account (ae_listing env) (ae_account env) st ac = Inr account"
    by (auto simp: account_recover_def split: sum.split_asm if_split_asm)
  obtain s st1 where s: "scoped_login (ae_digest env) (ae_mkdir env) lc cfg account st = (s, st1)" by fastforce
  from assms gen account s obtain scoped login where "s = Inr scoped" and
    l: "account_login env ac scoped cfg account gen c st1 = (r, sent, login, c')" "stores = login @ [st]"
    by (auto simp: account_recover_def Let_def split: sum.split_asm prod.split_asm if_split_asm)
  moreover have "st q = None" if "st1 q = None" for q
    using scoped_login_store [OF s] that by (cases "st q") (auto simp: extends_def)
  ultimately show ?thesis
    using account_login_sent [OF l(1) assms(2)] gen account scoped_login_store [OF s] by auto
qed

text \<open>What one recovery shows of the identity that the client keeps.\<close>

definition acted :: "client \<Rightarrow> store \<Rightarrow> recovered \<Rightarrow> bool" where
  "acted c st = (\<lambda>(r, sent, stores, c'). r = Inr () \<or> sent \<noteq> [] \<or> c' \<noteq> c \<or> stores \<noteq> [st])"

lemma account_recover_identity:
  assumes "account_recover env ac lc cfg gen identity c st = (identity', out)"
  shows "identity \<noteq> None \<Longrightarrow> identity' = identity"
    and "acted c st out \<Longrightarrow> \<exists>account. select_account (ae_listing env) (ae_account env) st ac = Inr account
           \<and> identity' = Some (hash_parts (ae_digest env) [acc_user account])"
  using assms
  by (auto simp: account_recover_def acted_def Let_def split: sum.split_asm prod.split_asm if_split_asm)

text \<open>
  The recoveries of one account client, each with its own surroundings, client and files, and the
  accounts for which one of them succeeded, sent anything, or changed the session or the files;
  the client keeps its identity from one to the next.
\<close>

type_synonym 'k recovery_try = "'k account_env \<times> generation \<times> client \<times> store"

fun acted_for ::
  "string accounts_config \<Rightarrow> string login_config \<Rightarrow> session_config \<Rightarrow> 'k recovery_try list \<Rightarrow> string option \<Rightarrow> account list" where
  "acted_for ac lc cfg [] identity = []"
| "acted_for ac lc cfg ((env, gen, c, st) # tries) identity =
     (case account_recover env ac lc cfg gen identity c st of
        (identity', out) \<Rightarrow>
          (case select_account (ae_listing env) (ae_account env) st ac of
             Inr account \<Rightarrow> if acted c st out then [account] else []
           | Inl _ \<Rightarrow> []) @ acted_for ac lc cfg tries identity')"

lemma acted_for_identity:
  assumes "\<forall>(env, _)\<in>set tries. ae_digest env = digest"
  shows "\<exists>i. \<forall>account\<in>set (acted_for ac lc cfg tries identity). hash_parts digest [acc_user account] = i
    \<and> (identity \<noteq> None \<longrightarrow> Some i = identity)"
  using assms
proof (induction tries arbitrary: identity)
  case (Cons t tries)
  obtain env gen c st where t: "t = (env, gen, c, st)" by (cases t)
  obtain identity' out where run: "account_recover env ac lc cfg gen identity c st = (identity', out)" by (meson surj_pair)
  note one = account_recover_identity [OF run]
  have digest: "ae_digest env = digest" using Cons.prems t by simp
  from Cons.IH [of identity'] Cons.prems obtain i where
    i: "\<forall>account\<in>set (acted_for ac lc cfg tries identity'). hash_parts digest [acc_user account] = i
      \<and> (identity' \<noteq> None \<longrightarrow> Some i = identity')" by auto
  show ?case
  proof (cases "acted c st out")
    case False
    then have "set (acted_for ac lc cfg (t # tries) identity) = set (acted_for ac lc cfg tries identity')"
      using t run by (auto split: sum.split)
    with i one(1) show ?thesis by (intro exI [of _ i]) auto
  next
    case True
    from one(2) [OF True] obtain account where a: "select_account (ae_listing env) (ae_account env) st ac = Inr account"
      "identity' = Some (hash_parts digest [acc_user account])" using digest by auto
    then have "set (acted_for ac lc cfg (t # tries) identity) = insert account (set (acted_for ac lc cfg tries identity'))"
      using t run True by simp
    with i a(2) one(1) show ?thesis by (intro exI [of _ "hash_parts digest [acc_user account]"]) auto
  qed
qed simp


text \<open>
  C29: accounts do not share a state directory.  Unless the digest collides on their framed
  names, two accounts with the same private directory have the same user, region and origin;
  the length prefixes rule out that the parts run into each other.
\<close>

theorem account_directories_are_separate:
  assumes "scoped_login digest mkdir lc cfg account st = (Inr a, st1)"
    and "scoped_login digest mkdir' lc cfg' account' st' = (Inr b, st2)"
    and "lc_state_dir a = lc_state_dir b"
    and "digest (framed [acc_user account, region cfg, config_origin cfg])
        = digest (framed [acc_user account', region cfg', config_origin cfg'])
      \<Longrightarrow> framed [acc_user account, region cfg, config_origin cfg] = framed [acc_user account', region cfg', config_origin cfg']"
    and "\<forall>v\<in>{acc_user account, region cfg, config_origin cfg, acc_user account', region cfg', config_origin cfg'}.
      length v < 2 ^ 64"
  shows "acc_user account = acc_user account' \<and> region cfg = region cfg' \<and> config_origin cfg = config_origin cfg'"
proof -
  have "account_dir digest lc cfg (acc_user account) = account_dir digest lc cfg' (acc_user account')"
    using scoped_login_store [OF assms(1)] scoped_login_store [OF assms(2)] assms(3) by simp
  from account_dir_inj [OF this assms(4,5)] show ?thesis .
qed

text \<open>
  only files of the account directory are read as accounts.  At most 128 are found; each is
  a direct child of the directory with a plain JSON name, and they come in order.
\<close>

theorem account_files_stay_in_the_directory:
  assumes "file_list entries st ac = Inr files"
  shows "length files \<le> MAX_FILES \<and> sorted files
    \<and> (\<forall>p\<in>set files. \<exists>name. valid_name name \<and> p = ac_directory ac @ [name])"
proof -
  from assms have v: "accounts_validate ac = Inr ()" by (auto simp: file_list_def result_simps)
  show ?thesis
  proof (cases "ac_selected ac")
    case (Some name)
    with v have name: "valid_name name" by (auto simp: accounts_validate_def split: if_split_asm)
    with assms Some valid_name_join [OF name, of "ac_directory ac"] show ?thesis
      by (auto simp: file_list_def result_simps MAX_FILES_def Let_def split: if_split_asm)
  next
    case None
    with assms consider "files = []"
      | es names where "listed_names 0 es = Inr names" "files = sort (map (\<lambda>name. ac_directory ac @ [name]) names)"
      by (auto simp: file_list_def result_simps split: if_split_asm)
    then show ?thesis
    proof cases
      case 2
      with listed_names_Inr [OF 2(1)] show ?thesis by auto
    qed simp
  qed
qed

section \<open>Witnesses\<close>

definition sample_settings :: sdk_settings where
  "sample_settings = \<lparr>ss_base_url = ''u'', ss_allowed_base_urls = [''u''], ss_app_key = ''k'',
     ss_common = map (\<lambda>name. (name, None)) COMMON_FIELDS, ss_omit_common = [], ss_country_id = 1, ss_one_sdk_version = None\<rparr>"

definition sample_account_login :: "string login_config" where
  "sample_account_login = sample_login\<lparr>lc_sdk_http := Some sample_settings\<rparr>"

definition sample_accounts :: "string accounts_config" where
  "sample_accounts = \<lparr>ac_directory = [''accounts''], ac_selected = None, ac_strategy = SingleAccount,
     ac_allow_create = False, ac_sdk_ready = True\<rparr>"

definition sample_account :: account where
  "sample_account = \<lparr>acc_user = ''u'', acc_password = ''w''\<rparr>"

definition sample_exchange_lost :: sdk_exchange where
  "sample_exchange_lost = sample_sdk_exchange\<lparr>ex_interrupted := Some (SdkTimeout, RequestSent)\<rparr>"

definition sample_account_env :: "unit account_env" where
  "sample_account_env =
     \<lparr>ae_library = sample_library, ae_sdk = sample_sdk_library, ae_codec = sample_recovery_codec,
      ae_account = (\<lambda>_. Some sample_account), ae_digest = (\<lambda>_. ''d''),
      ae_listing = (\<lambda>_. Some [Some ''b.txt'', Some ''a.json'']), ae_calls = sample_game_calls, ae_flow = sample_flow,
      ae_mkdir = True, ae_cancelled = False, ae_cancelled_sdk = False, ae_connect = (\<lambda>_. Some 0), ae_fresh = 5,
      ae_now = 0, ae_binding = 7, ae_first = sample_exchange_lost, ae_second = sample_exchange_lost\<rparr>"

definition sample_anonymous :: client where
  "sample_anonymous = sample_operator_client\<lparr>sessions := (\<lambda>_. (current_session sample_operator_client)\<lparr>s_credentials := None\<rparr>)\<rparr>"

definition sample_account_store :: store where
  "sample_account_store = [[''state''] \<mapsto> Dir 0x1C0, [''accounts''] \<mapsto> Dir 0x1C0, [''accounts'', ''a.json''] \<mapsto> File 0x180 ''a'']"

lemma sample_names: "valid_name ''a.json''" "\<not> valid_name ''b.txt''"
proof -
  show "valid_name ''a.json''"
    by (simp add: valid_name_def starts_with_def ends_with_def component_count_def is_ascii_control_def byte_def
        enumerate_eq_zip char_of_def bit_0)
  show "\<not> valid_name ''b.txt''" by (simp add: valid_name_def ends_with_def)
qed

lemma sample_file_list:
  "file_list (ae_listing sample_account_env) sample_account_store sample_accounts = Inr [[''accounts'', ''a.json'']]"
  using sample_names
  by (simp add: file_list_def sample_account_env_def sample_account_store_def sample_accounts_def accounts_validate_def
      private_dir_def shared_mode_def MAX_FILES_def numeral_eq_Suc)

theorem account_files_stay_in_the_directory_witness:
  "sorted [[''accounts'', ''a.json'']] \<and> (\<exists>name. valid_name name \<and> [''accounts'', ''a.json''] = [''accounts'', name])"
  using account_files_stay_in_the_directory [OF sample_file_list] by (simp add: sample_accounts_def)

lemma sample_select:
  "select_account (ae_listing sample_account_env) (ae_account sample_account_env) sample_account_store sample_accounts
     = Inr sample_account"
proof -
  have "trim ''u'' = ''u''" by code_simp
  then show ?thesis
    using sample_file_list
    by (simp add: select_account_def the_file_def private_read_def shared_mode_def sample_account_def)
      (simp add: sample_account_store_def sample_account_env_def shared_mode_def sample_account_def)
qed

lemma sample_scoped:
  "account_dir (\<lambda>_. ''d'') sample_account_login sample_config user = [''state'', ''account-64'']"
proof -
  have "hex_name ''d'' = ''64''" by code_simp
  then show ?thesis by (simp add: account_dir_def sample_account_login_def sample_login_def hash_parts_def)
qed

definition sample_scoped_login :: "string login_config" where
  "sample_scoped_login = sample_account_login\<lparr>lc_state_dir := [''state'', ''account-64'']\<rparr>"

lemma sample_scoped_run:
  "scoped_login (\<lambda>_. ''d'') True sample_account_login sample_config account sample_account_store
     = (Inr sample_scoped_login, sample_account_store([''state'', ''account-64''] \<mapsto> Dir 0x1C0))"
proof -
  have "private_dir sample_account_store (lc_state_dir sample_account_login) = Inr ()"
    by (simp add: private_dir_def shared_mode_def sample_account_store_def sample_account_login_def sample_login_def)
  moreover have "sample_account_store [''state'', ''account-64''] = None" by (simp add: sample_account_store_def)
  ultimately show ?thesis
    by (simp add: scoped_login_def sample_scoped Let_def private_dir_def shared_mode_def sample_scoped_login_def)
qed

definition sample_operator_sdk :: sdk_client where
  "sample_operator_sdk = sample_sdk_client\<lparr>sk_options := default_sdk_http_options\<lparr>sdk_timeout := 30000\<rparr>, sk_binding := 7\<rparr>"

lemma sample_sdk_settings: "operator_sdk_client sample_sdk_library codec 0 7 st sample_scoped_login = Inr (sample_operator_sdk, 1)"
proof -
  have p: "common_parameters_new (map (\<lambda>name. (name, None)) COMMON_FIELDS) = Inr []"
    by (simp add: common_parameters_new_def COMMON_FIELDS_def map_filter_def)
  have "sdk_client_new sample_sdk_library \<lparr>base_url = ''u'', allowed_base_urls = [''u'']\<rparr> [] ''k''
     \<lparr>trace_id = None, one_sdk_version = None\<rparr> (default_sdk_http_options\<lparr>sdk_timeout := 30000\<rparr>) 0 7 = Inr sample_operator_sdk"
    by (simp add: sdk_client_new_def normalize_base_def sample_sdk_library_def sample_sdk_client_def sample_operator_sdk_def
      default_sdk_http_options_def header_value_bad_def strip_tokens.simps starts_with_def)
  with p show ?thesis
    by (simp add: operator_sdk_client_def sample_scoped_login_def sample_account_login_def sample_login_def settings_client_def
      sample_settings_def as_config_def app_key_new_def)
qed

lemma sample_request_built:
  "\<exists>q. build_sdk_request sample_sdk_library sample_operator_sdk RSA_PATH [] True None (Some 5) ''i'' = Inr q"
proof -
  have u: "utf8_valid []" by (simp add: utf8_valid.simps)
  have d: "dec_of_nat 5 = ''5''" by code_simp
  have "\<exists>body. client_form sample_sdk_library sample_operator_sdk [] True None 5 = Inr body"
    by (simp add: client_form_def user_fields_def sample_operator_sdk_def sample_sdk_client_def sample_sdk_library_def
        sign_form_def decoded_def u d form_body_def signature_text_def Let_def)
  then show ?thesis
    by (auto simp: build_sdk_request_def telemetry_header_def sample_operator_sdk_def sample_sdk_client_def)
qed

lemma sample_password_sent:
  "\<exists>e q. password_authorization sample_library sample_sdk_library codec 0 7 st sample_config sample_scoped_login email password
     cancelled sample_exchange_lost ex2 = (Inl e, [q])"
proof -
  obtain q where q: "build_sdk_request sample_sdk_library sample_operator_sdk RSA_PATH [] True None (Some 5) ''i'' = Inr q"
    using sample_request_built by blast
  have "\<exists>c'. sdk_send sample_sdk_library sample_operator_sdk RSA_PATH [] True None sample_exchange_lost
      = (sdk_fail SdkTimeout, [q], c')"
    using q by (simp add: sdk_send_def sample_exchange_lost_def sample_sdk_exchange_def Let_def)
  then show ?thesis
    by (auto simp: password_authorization_def sample_sdk_settings fetch_rsa_def sdk_answer_def result_simps)
qed

lemma sample_account_run:
  "\<exists>identity r q stores c. account_recover sample_account_env sample_accounts sample_account_login sample_config 0 None
     sample_anonymous sample_account_store = (identity, r, [q], stores, c)"
proof -
  let ?st1 = "sample_account_store([''state'', ''account-64''] \<mapsto> Dir 0x1C0)"
  let ?st2 = "?st1([''state'', ''account-64'', ''operator.lock''] \<mapsto> File 0x180 [])"
  have gen: "client_generation sample_anonymous = 0" "session_status_of sample_anonymous = Anonymous"
    by (simp_all add: client_generation_def session_status_of_def current_session_def sample_anonymous_def
        sample_operator_client_def)
  have lock: "operator_lock True {} ?st1 sample_scoped_login = (Inr [''state'', ''account-64'', ''operator.lock''], ?st2)"
    by (simp add: operator_lock_def private_dir_def sample_scoped_login_def sample_account_store_def shared_mode_def Let_def)
  have none: "operator_credentials sample_recovery_codec ?st2 sample_scoped_login sample_config = Inr None"
    by (simp add: operator_credentials_None pointer_file_def sample_scoped_login_def sample_account_store_def)
  have valid: "config_validate sample_library sample_config = Inr ()"
    by (simp add: config_validate_def config_rejected_def metadata_def meta_insert_def origin_def sample_session_defs byte_def
        starts_with_def Let_def)
  have ready: "operator_validate sample_library sample_sdk_library sample_recovery_codec 0 7 ?st2 sample_scoped_login
      sample_config = Inr ()"
    by (simp add: operator_validate_def valid sample_sdk_settings)
      (simp add: sample_scoped_login_def sample_account_login_def sample_login_def validate_sources_def private_dir_def
        sample_account_store_def shared_mode_def operator_context_def sample_context_def)
  obtain e q where "password_authorization sample_library sample_sdk_library sample_recovery_codec 0 7 ?st2 sample_config
      sample_scoped_login (acc_user sample_account) (acc_password sample_account) False sample_exchange_lost sample_exchange_lost
      = (Inl e, [q])"
    using sample_password_sent by blast
  moreover have "?st2 (sdk_path sample_scoped_login) = None"
    by (simp add: sdk_path_def sample_scoped_login_def sample_account_store_def)
  ultimately have "initial_sdk sample_account_env sample_scoped_login sample_config sample_account ?st2
      = (fail Authentication, [q], ?st2)"
    by (simp add: initial_sdk_def sample_account_env_def)
  with ready have "first_login sample_account_env sample_accounts sample_scoped_login sample_config sample_account 0
      sample_anonymous ?st2 = (fail Authentication, [q], [?st2, ?st2], sample_anonymous)"
    by (simp add: first_login_def) (simp add: sample_accounts_def sample_account_env_def)
  with lock none gen(2) have "account_login sample_account_env sample_accounts sample_scoped_login sample_config sample_account 0
      sample_anonymous ?st1 = (fail Authentication, [q], [?st2, ?st2, ?st1], sample_anonymous)"
    by (simp add: account_login_def) (simp add: sample_account_env_def sample_flow_def)
  with gen(1) sample_select sample_scoped_run show ?thesis
    by (simp add: account_recover_def Let_def) (simp add: sample_account_env_def)
qed

theorem password_is_sent_for_the_first_login_only_witness:
  "\<exists>identity r q stores c. account_recover sample_account_env sample_accounts sample_account_login sample_config 0 None
     sample_anonymous sample_account_store = (identity, r, [q], stores, c) \<and> ac_sdk_ready sample_accounts
     \<and> session_status_of sample_anonymous = Anonymous"
  using sample_account_run password_is_sent_for_the_first_login_only by blast


theorem account_directories_are_separate_witness:
  "\<exists>a b st1 st2. scoped_login (\<lambda>_. ''d'') True sample_account_login sample_config sample_account sample_account_store = (Inr a, st1)
     \<and> scoped_login (\<lambda>_. ''d'') True sample_account_login sample_config (sample_account\<lparr>acc_password := ''z''\<rparr>) sample_account_store
         = (Inr b, st2)
     \<and> lc_state_dir a = lc_state_dir b \<and> acc_user sample_account = acc_user (sample_account\<lparr>acc_password := ''z''\<rparr>)"
proof -
  note run = sample_scoped_run [of sample_account] sample_scoped_run [of "sample_account\<lparr>acc_password := ''z''\<rparr>"]
  have "acc_user sample_account = acc_user (sample_account\<lparr>acc_password := ''z''\<rparr>)"
    using account_directories_are_separate [OF run(1,2)] by (simp add: sample_account_def sample_config_def)
  with run show ?thesis by blast
qed

end
