(* ===== verification/Query_Params.thy ===== *)
theory Query_Params
  imports Json Queries
begin

text \<open>
  The query string of a request (\<open>server/src/query_params.rs\<close>): strict escaping, declared
  parameters only, typed scalars, and the JSON object handed to the query's own validation.
  Percent decoding and the form parser are library functions and parameters here.
\<close>

definition MAX_QUERY_BYTES :: nat where
  "MAX_QUERY_BYTES = 8192"

definition MAX_PARAMETERS :: nat where
  "MAX_PARAMETERS = 256"

text \<open>
  \<open>fields\<close>: the leaves of the request message with their dotted names.  The recursion follows
  the descriptors, so it is bounded by a depth; \<open>None\<close> is the assertion that fails on a
  repeated nested message, or a nesting deeper than the bound.  The requests of the allowlist
  nest at most one message deep.
\<close>

fun collect :: "nat \<Rightarrow> descriptor_pool \<Rightarrow> string \<Rightarrow> string \<Rightarrow> (string \<times> field_descriptor) list option" where
  "collect 0 pool prefix message = None"
| "collect (Suc depth) pool prefix message =
     foldr (\<lambda>f rest.
       (case rest of
          None \<Rightarrow> None
        | Some out \<Rightarrow>
            (case f_kind f of
               KMessage nested \<Rightarrow>
                 if f_is_list f \<or> f_is_map f then None
                 else map_option (\<lambda>inner. inner @ out)
                        (collect depth pool (prefix @ f_json_name f @ ''.'') nested)
             | _ \<Rightarrow> Some ((prefix @ f_json_name f, f) # out))))
       (fields_of pool message) (Some [])"

definition query_fields :: "descriptor_pool \<Rightarrow> string \<Rightarrow> (string \<times> field_descriptor) list option" where
  "query_fields pool message = collect 8 pool [] message"

text \<open>Every percent sign is followed by two hexadecimal digits.\<close>

fun well_escaped :: "string \<Rightarrow> bool" where
  "well_escaped [] = True"
| "well_escaped (c # s) =
     ((c = CHR ''%'' \<longrightarrow> (case s of a # b # _ \<Rightarrow> is_ascii_hexdigit a \<and> is_ascii_hexdigit b | _ \<Rightarrow> False))
      \<and> well_escaped s)"

definition digits :: "string \<Rightarrow> bool \<Rightarrow> bool" where
  "digits text negatable =
     all_digits (if negatable then (case strip_prefix text ''-'' of Some r \<Rightarrow> r | None \<Rightarrow> text) else text)"

definition invalid :: "'a outcome" where
  "invalid = fail InvalidRequest"

definition scalar :: "field_kind \<Rightarrow> string \<Rightarrow> json outcome" where
  "scalar k text =
     (let integer = (\<lambda>make parsed. case parsed of None \<Rightarrow> invalid | Some v \<Rightarrow> Inr (make (dec_of_int v))) in
      if k = KString then Inr (String text)
      else if k \<in> {KInt64, KSint64, KSfixed64} \<and> digits text True then integer String (parse_i64 text)
      else if k \<in> {KUint64, KFixed64} \<and> digits text False
      then integer String (map_option int (parse_u64 text))
      else if k \<in> {KInt32, KSint32, KSfixed32} \<and> digits text True then integer Number (parse_i32 text)
      else if k \<in> {KUint32, KFixed32} \<and> digits text False
      then integer Number (map_option int (parse_u32 text))
      else (case k of
              KEnum _ \<Rightarrow> if digits text True then integer Number (parse_i32 text) else Inr (String text)
            | KBool \<Rightarrow> if text = ''true'' \<or> text = ''false'' then Inr (Bool (text = ''true'')) else invalid
            | _ \<Rightarrow> invalid))"

text \<open>\<open>insert\<close>; the path is never empty, because splitting a key gives at least one part.\<close>

fun insert_param ::
  "(string \<times> json) list \<Rightarrow> string list \<Rightarrow> json \<Rightarrow> bool \<Rightarrow> (string \<times> json) list outcome" where
  "insert_param obj [] value repeated = invalid"
| "insert_param obj [k] value repeated =
     (if repeated then
        (case (case map_of obj k of None \<Rightarrow> Array [] | Some v \<Rightarrow> v) of
           Array vs \<Rightarrow> Inr (alist_put k (Array (vs @ [value])) obj)
         | _ \<Rightarrow> invalid)
      else if map_of obj k \<noteq> None then invalid
      else Inr (alist_put k value obj))"
| "insert_param obj (k # k' # path) value repeated =
     (case (case map_of obj k of None \<Rightarrow> Object [] | Some v \<Rightarrow> v) of
        Object inner \<Rightarrow>
          and_then (insert_param inner (k' # path) value repeated) (\<lambda>inner'.
            Inr (alist_put k (Object inner') obj))
      | _ \<Rightarrow> invalid)"

text \<open>The loop over the pairs of the form parser, from the pair of number \<open>index\<close> on.\<close>

fun add_params ::
  "(string \<times> field_descriptor) list \<Rightarrow> nat \<Rightarrow> (string \<times> string) list \<Rightarrow> (string \<times> json) list \<Rightarrow>
     (string \<times> json) list outcome" where
  "add_params allowed index [] obj = Inr obj"
| "add_params allowed index ((key, value) # pairs) obj =
     (if MAX_PARAMETERS \<le> index then invalid
      else (case map_of allowed key of
              None \<Rightarrow> invalid
            | Some f \<Rightarrow>
                and_then (scalar (f_kind f) value) (\<lambda>v.
                and_then (insert_param obj (split_on (CHR ''.'') key) v (f_is_list f)) (\<lambda>obj'.
                  add_params allowed (index + 1) pairs obj'))))"

text \<open>
  \<open>parse\<close>; \<open>None\<close> only where \<open>fields\<close> does not return.  \<open>utf8_decodes\<close> says that the percent
  decoded bytes are UTF-8, \<open>form_parse\<close> is the form parser, \<open>decode\<close> the typed decoding.
\<close>

definition params_object ::
  "(string \<Rightarrow> bool) \<Rightarrow> (string \<Rightarrow> (string \<times> string) list) \<Rightarrow> (string \<times> field_descriptor) list \<Rightarrow> string \<Rightarrow>
     string \<Rightarrow> (string \<times> json) list outcome" where
  "params_object utf8_decodes form_parse allowed name raw =
     (if MAX_QUERY_BYTES < length raw then invalid
      else if \<not> well_escaped raw then invalid
      else if \<not> utf8_decodes raw then invalid
      else add_params allowed 0 (form_parse raw)
             (if name = ''circle-search'' then [(''options'', Object [])] else []))"

definition parse_query ::
  "descriptor_pool \<Rightarrow> (string \<Rightarrow> bool) \<Rightarrow> (string \<Rightarrow> (string \<times> string) list) \<Rightarrow>
     (api_method \<Rightarrow> json \<Rightarrow> query option) \<Rightarrow> string \<Rightarrow> string option \<Rightarrow> query outcome option" where
  "parse_query pool utf8_decodes form_parse decode name raw =
     (let raw = (case raw of None \<Rightarrow> [] | Some r \<Rightarrow> r) in
      case find_method name of
        None \<Rightarrow> Some invalid
      | Some m \<Rightarrow>
          (case query_fields pool (m_input m) of
             None \<Rightarrow> None
           | Some allowed \<Rightarrow>
               Some (and_then (params_object utf8_decodes form_parse allowed name raw) (\<lambda>obj.
                       query_from_json decode name (Object obj)))))"

text \<open>The parameters an OpenAPI description marks as required.\<close>

definition required_fields :: "(string \<times> string list) list" where
  "required_fields =
     [(''announcement'', [''id'']),
      (''arena-ranking'', [''arenaSeasonId'', ''rankingStart'', ''rankingEnd'']),
      (''deck-trend'', [''musicId'', ''arenaSeasonId'']),
      (''circle'', [''circleId'']),
      (''challenge-ranking'', [''challengeMusicId'']),
      (''event-deck'', [''eventId'', ''playerId'']),
      (''event-ranking'', [''eventId'', ''ranks'']),
      (''profile'', [''playerProfileId'']),
      (''probability'', [''gachaId'']),
      (''music-ranking'', [''musicId'']),
      (''favorite-status'', [''playerId'']),
      (''profiles'', [''accountIds''])]"

definition required :: "string \<Rightarrow> string \<Rightarrow> bool" where
  "required method field =
     (case map_of required_fields method of None \<Rightarrow> False | Some fs \<Rightarrow> field \<in> set fs)"

section \<open>Fields\<close>

lemma collect_returns:
  assumes "\<And>d f n. f \<in> set (fields_of pool d) \<Longrightarrow> f_kind f = KMessage n \<Longrightarrow>
      rank n < (rank d :: nat) \<and> \<not> f_is_list f \<and> \<not> f_is_map f"
    and "rank message < depth"
  shows "\<exists>out. collect depth pool prefix message = Some out
    \<and> (\<forall>(name, f) \<in> set out. \<forall>n. f_kind f \<noteq> KMessage n)"
  using assms(2)
proof (induction depth arbitrary: prefix message)
  case (Suc depth)
  let ?step = "\<lambda>f rest. (case rest of
          None \<Rightarrow> None
        | Some out \<Rightarrow>
            (case f_kind f of
               KMessage nested \<Rightarrow>
                 if f_is_list f \<or> f_is_map f then None
                 else map_option (\<lambda>inner. inner @ out)
                        (collect depth pool (prefix @ f_json_name f @ ''.'') nested)
             | _ \<Rightarrow> Some ((prefix @ f_json_name f, f) # out)))"
  have "\<exists>out. foldr ?step fs (Some []) = Some out \<and> (\<forall>(name, f) \<in> set out. \<forall>n. f_kind f \<noteq> KMessage n)"
    if "set fs \<subseteq> set (fields_of pool message)" for fs
    using that
  proof (induction fs)
    case (Cons f fs)
    then obtain out where out: "foldr ?step fs (Some []) = Some out"
      "\<forall>(name, f) \<in> set out. \<forall>n. f_kind f \<noteq> KMessage n" by auto
    show ?case
    proof (cases "\<exists>n. f_kind f = KMessage n")
      case True
      then obtain n where n: "f_kind f = KMessage n" by blast
      with Cons.prems assms(1) [of f message n] Suc.prems
      have f: "rank n < depth" "\<not> f_is_list f" "\<not> f_is_map f" by auto
      from Suc.IH [OF f(1)] obtain inner where
        "collect depth pool (prefix @ f_json_name f @ ''.'') n = Some inner"
        "\<forall>(name, f) \<in> set inner. \<forall>n. f_kind f \<noteq> KMessage n" by blast
      with n f out show ?thesis by auto
    next
      case False
      with out show ?thesis by (auto split: field_kind.splits)
    qed
  qed simp
  then show ?case by simp
qed simp

section \<open>Scalars\<close>

definition int_range :: "field_kind \<Rightarrow> (int \<times> int) option" where
  "int_range k =
     (if k \<in> {KInt64, KSint64, KSfixed64} then Some (- 9223372036854775808, 9223372036854775807)
      else if k \<in> {KUint64, KFixed64} then Some (0, 18446744073709551615)
      else if k \<in> {KInt32, KSint32, KSfixed32} then Some (- 2147483648, 2147483647)
      else if k \<in> {KUint32, KFixed32} then Some (0, 4294967295)
      else None)"

definition integer_json :: "field_kind \<Rightarrow> int \<Rightarrow> json" where
  "integer_json k v =
     (if k \<in> {KInt64, KSint64, KSfixed64, KUint64, KFixed64} then String (dec_of_int v)
      else Number (dec_of_int v))"

lemma digits_dec_of_nat: "digits (dec_of_nat n) b"
  using dec_of_nat_no_sign(2) [of n] by (simp add: digits_def strip_prefix_def)

lemma digits_dec_of_int: "digits (dec_of_int v) True" "0 \<le> v \<Longrightarrow> digits (dec_of_int v) False"
  by (auto simp: dec_of_int_def digits_dec_of_nat) (simp add: digits_def strip_prefix_def starts_with_def)

lemma parse_unsigned_dec_of_int:
  "0 \<le> v \<Longrightarrow> v < int bound \<Longrightarrow> parse_unsigned bound (dec_of_int v) = Some (nat v)"
  by (simp add: dec_of_int_def parse_unsigned_dec_of_nat)

lemmas scalar_unfold = int_range_def scalar_def integer_json_def invalid_def

lemma scalar_integer_accepts:
  assumes "int_range k = Some (lo, hi)" "lo \<le> v" "v \<le> hi"
  shows "scalar k (dec_of_int v) = Inr (integer_json k v)"
proof -
  have "k \<in> {KInt64, KSint64, KSfixed64} \<Longrightarrow> ?thesis"
    using assms by (elim insertE emptyE)
      (simp_all add: scalar_unfold digits_dec_of_int parse_signed_dec_of_int)
  moreover have "k \<in> {KInt32, KSint32, KSfixed32} \<Longrightarrow> ?thesis"
    using assms by (elim insertE emptyE)
      (simp_all add: scalar_unfold digits_dec_of_int parse_signed_dec_of_int)
  moreover have "k \<in> {KUint64, KFixed64, KUint32, KFixed32} \<Longrightarrow> ?thesis"
    using assms by (elim insertE emptyE)
      (simp_all add: scalar_unfold digits_dec_of_int parse_unsigned_dec_of_int)
  ultimately show ?thesis using assms(1) by (auto simp: int_range_def split: if_split_asm)
qed

lemma scalar_integer:
  "k \<in> {KInt64, KSint64, KSfixed64} \<Longrightarrow> scalar k text = Inr j \<longleftrightarrow>
     digits text True \<and> (\<exists>v. parse_i64 text = Some v \<and> j = String (dec_of_int v))"
  "k \<in> {KUint64, KFixed64} \<Longrightarrow> scalar k text = Inr j \<longleftrightarrow>
     digits text False \<and> (\<exists>v. parse_u64 text = Some v \<and> j = String (dec_of_int (int v)))"
  "k \<in> {KInt32, KSint32, KSfixed32} \<Longrightarrow> scalar k text = Inr j \<longleftrightarrow>
     digits text True \<and> (\<exists>v. parse_i32 text = Some v \<and> j = Number (dec_of_int v))"
  "k \<in> {KUint32, KFixed32} \<Longrightarrow> scalar k text = Inr j \<longleftrightarrow>
     digits text False \<and> (\<exists>v. parse_u32 text = Some v \<and> j = Number (dec_of_int (int v)))"
proof -
  note parsed = scalar_def invalid_def Let_def
  show "k \<in> {KInt64, KSint64, KSfixed64} \<Longrightarrow> scalar k text = Inr j \<longleftrightarrow>
     digits text True \<and> (\<exists>v. parse_i64 text = Some v \<and> j = String (dec_of_int v))"
    by (elim insertE emptyE; cases "parse_i64 text"; force simp: parsed)
  show "k \<in> {KUint64, KFixed64} \<Longrightarrow> scalar k text = Inr j \<longleftrightarrow>
     digits text False \<and> (\<exists>v. parse_u64 text = Some v \<and> j = String (dec_of_int (int v)))"
    by (elim insertE emptyE; cases "parse_u64 text"; force simp: parsed)
  show "k \<in> {KInt32, KSint32, KSfixed32} \<Longrightarrow> scalar k text = Inr j \<longleftrightarrow>
     digits text True \<and> (\<exists>v. parse_i32 text = Some v \<and> j = Number (dec_of_int v))"
    by (elim insertE emptyE; cases "parse_i32 text"; force simp: parsed)
  show "k \<in> {KUint32, KFixed32} \<Longrightarrow> scalar k text = Inr j \<longleftrightarrow>
     digits text False \<and> (\<exists>v. parse_u32 text = Some v \<and> j = Number (dec_of_int (int v)))"
    by (elim insertE emptyE; cases "parse_u32 text"; force simp: parsed)
qed

lemma scalar_integer_in_range:
  assumes "int_range k = Some (lo, hi)" "scalar k text = Inr j"
  shows "\<exists>v. lo \<le> v \<and> v \<le> hi \<and> j = integer_json k v"
proof -
  consider (i64) "k \<in> {KInt64, KSint64, KSfixed64}" | (u64) "k \<in> {KUint64, KFixed64}"
    | (i32) "k \<in> {KInt32, KSint32, KSfixed32}" | (u32) "k \<in> {KUint32, KFixed32}"
    using assms(1) by (auto simp: int_range_def split: if_split_asm)
  then show ?thesis
  proof cases
    case i64
    then obtain v where "parse_i64 text = Some v" "j = String (dec_of_int v)"
      using assms(2) by (auto simp only: scalar_integer)
    then show ?thesis using i64 assms(1) parse_signed_bound [where s = "text"]
      by (intro exI [of _ "v"]) (fastforce simp: int_range_def integer_json_def)
  next
    case u64
    then obtain v where "parse_u64 text = Some v" "j = String (dec_of_int (int v))"
      using assms(2) by (auto simp only: scalar_integer)
    then show ?thesis using u64 assms(1) parse_unsigned_bound [where s = "text"]
      by (intro exI [of _ "int v"]) (fastforce simp: int_range_def integer_json_def)
  next
    case i32
    then obtain v where "parse_i32 text = Some v" "j = Number (dec_of_int v)"
      using assms(2) by (auto simp only: scalar_integer)
    then show ?thesis using i32 assms(1) parse_signed_bound [where s = "text"]
      by (intro exI [of _ "v"]) (fastforce simp: int_range_def integer_json_def)
  next
    case u32
    then obtain v where "parse_u32 text = Some v" "j = Number (dec_of_int (int v))"
      using assms(2) by (auto simp only: scalar_integer)
    then show ?thesis using u32 assms(1) parse_unsigned_bound [where s = "text"]
      by (intro exI [of _ "int v"]) (fastforce simp: int_range_def integer_json_def)
  qed
qed

section \<open>Parameters\<close>

abbreviation part_of :: "string \<Rightarrow> string \<Rightarrow> bool" where
  "part_of k key \<equiv> \<exists>rest. key = k @ CHR ''.'' # rest"

text \<open>The values of the pairs of one key, converted in order.\<close>

definition values_of :: "field_descriptor \<Rightarrow> string \<Rightarrow> (string \<times> string) list \<Rightarrow> client_error + json list" where
  "values_of f k pairs = map_results (\<lambda>kv. scalar (f_kind f) (snd kv)) (filter (\<lambda>kv. fst kv = k) pairs)"

lemma insert_param_other:
  "insert_param obj path v repeated = Inr obj' \<Longrightarrow> path = p # ps \<Longrightarrow> p \<noteq> k \<Longrightarrow> map_of obj' k = map_of obj k"
  by (induction obj path v repeated rule: insert_param.induct)
    (auto simp: invalid_def result_simps Let_def split: if_split_asm option.splits json.splits)

lemma insert_param_single:
  "insert_param obj [k] v repeated = Inr obj' \<longleftrightarrow>
     (if repeated then \<exists>vs. (map_of obj k = None \<and> vs = [] \<or> map_of obj k = Some (Array vs))
          \<and> obj' = alist_put k (Array (vs @ [v])) obj
      else map_of obj k = None \<and> obj' = alist_put k v obj)"
  by (auto simp: invalid_def split: option.splits json.splits)

lemma split_on_head:
  assumes "split_on c key = p # ps"
  shows "ps = [] \<and> key = p \<or> ps \<noteq> [] \<and> (\<exists>rest. key = p @ c # rest)"
  using join_split_on [of c key] assms by (cases ps) auto

lemma step_other:
  assumes "insert_param obj (split_on (CHR ''.'') key) v repeated = Inr obj'" "key \<noteq> k" "\<not> part_of k key"
  shows "map_of obj' k = map_of obj k"
proof -
  obtain p ps where p: "split_on (CHR ''.'') key = p # ps"
    using split_on_nonempty by (metis list.exhaust)
  with split_on_head [OF p] assms have "p \<noteq> k" by auto
  with assms(1) p show ?thesis by (auto intro: insert_param_other)
qed

lemma add_params_step:
  "add_params fs index ((key, val) # pairs) obj = Inr out \<longleftrightarrow>
     (\<exists>f v obj'. index < MAX_PARAMETERS \<and> map_of fs key = Some f \<and> scalar (f_kind f) val = Inr v
        \<and> insert_param obj (split_on (CHR ''.'') key) v (f_is_list f) = Inr obj'
        \<and> add_params fs (index + 1) pairs obj' = Inr out)"
  by (auto simp: invalid_def result_simps split: option.splits)

lemma add_params_declared:
  "add_params fs index pairs obj = Inr out \<Longrightarrow> fst ` set pairs \<subseteq> dom (map_of fs)"
proof (induction pairs arbitrary: index obj)
  case (Cons kv pairs)
  then obtain obj' where "add_params fs (index + 1) pairs obj' = Inr out" "fst kv \<in> dom (map_of fs)"
    by (cases kv) (auto simp: add_params_step simp del: add_params.simps)
  with Cons.IH [of "index + 1" obj'] show ?case by simp
qed simp

lemma add_params_bounded:
  "add_params fs index pairs obj = Inr out \<Longrightarrow> index \<le> MAX_PARAMETERS \<Longrightarrow> index + length pairs \<le> MAX_PARAMETERS"
proof (induction pairs arbitrary: index obj)
  case (Cons kv pairs)
  then obtain obj' where "index < MAX_PARAMETERS" "add_params fs (index + 1) pairs obj' = Inr out"
    by (cases kv) (auto simp: add_params_step simp del: add_params.simps)
  with Cons.IH [of "index + 1" obj'] show ?case by simp
qed simp

lemma add_params_repeated:
  assumes "map_of fs k = Some f" "f_is_list f" "CHR ''.'' \<notin> set k" "\<And>key. key \<in> dom (map_of fs) \<Longrightarrow> \<not> part_of k key"
  shows "add_params fs index pairs obj = Inr out \<Longrightarrow>
    (case map_of obj k of None \<Rightarrow> Inr [] | Some j \<Rightarrow> ok_or (as_array j) e) = Inr ws \<Longrightarrow>
    \<exists>vs. values_of f k pairs = Inr vs
      \<and> map_of out k = (if map_of obj k = None \<and> vs = [] then None else Some (Array (ws @ vs)))"
proof (induction pairs arbitrary: index obj ws)
  case Nil
  then show ?case by (auto simp: values_of_def result_simps split: option.splits)
next
  case (Cons kv pairs)
  obtain key val where kv [simp]: "kv = (key, val)" by (cases kv)
  from Cons.prems(1) obtain g v obj' where s: "map_of fs key = Some g" "scalar (f_kind g) val = Inr v"
    "insert_param obj (split_on (CHR ''.'') key) v (f_is_list g) = Inr obj'"
    "add_params fs (index + 1) pairs obj' = Inr out"
    by (auto simp: add_params_step simp del: add_params.simps)
  show ?case
  proof (cases "key = k")
    case True
    with s(1) assms have g: "g = f" "split_on (CHR ''.'') key = [k]" by (simp_all add: split_on_no_sep)
    with s(3) assms(2) obtain us where us: "map_of obj k = None \<and> us = [] \<or> map_of obj k = Some (Array us)"
      "obj' = alist_put k (Array (us @ [v])) obj"
      by (auto simp: insert_param_single simp del: insert_param.simps)
    then have "us = ws" using Cons.prems(2) by auto
    with Cons.IH [OF s(4), of "ws @ [v]"] us obtain vs where
      "values_of f k pairs = Inr vs" "map_of out k = Some (Array (ws @ v # vs))" by auto
    with True s(2) g show ?thesis by (simp add: values_of_def)
  next
    case False
    with step_other [OF s(3)] assms(4) [of key] s(1) have same: "map_of obj' k = map_of obj k" by auto
    with Cons.IH [OF s(4), of ws] Cons.prems(2) False show ?thesis by (simp add: values_of_def)
  qed
qed

lemma add_params_singular:
  assumes "map_of fs k = Some f" "\<not> f_is_list f" "CHR ''.'' \<notin> set k" "\<And>key. key \<in> dom (map_of fs) \<Longrightarrow> \<not> part_of k key"
  shows "add_params fs index pairs obj = Inr out \<Longrightarrow>
    \<exists>vs. values_of f k pairs = Inr vs \<and> length vs \<le> (if map_of obj k = None then 1 else 0)
      \<and> map_of out k = (if vs = [] then map_of obj k else Some (hd vs))"
proof (induction pairs arbitrary: index obj)
  case Nil
  then show ?case by (simp add: values_of_def)
next
  case (Cons kv pairs)
  obtain key val where kv [simp]: "kv = (key, val)" by (cases kv)
  from Cons.prems obtain g v obj' where s: "map_of fs key = Some g" "scalar (f_kind g) val = Inr v"
    "insert_param obj (split_on (CHR ''.'') key) v (f_is_list g) = Inr obj'"
    "add_params fs (index + 1) pairs obj' = Inr out"
    by (auto simp: add_params_step simp del: add_params.simps)
  show ?case
  proof (cases "key = k")
    case True
    with s(1) assms have g: "g = f" "split_on (CHR ''.'') key = [k]" by (simp_all add: split_on_no_sep)
    with s(3) assms(2) have "map_of obj k = None" "obj' = alist_put k v obj"
      by (auto simp: insert_param_single simp del: insert_param.simps)
    with Cons.IH [OF s(4)] True s(2) g show ?thesis by (simp add: values_of_def)
  next
    case False
    with step_other [OF s(3)] assms(4) [of key] s(1) have "map_of obj' k = map_of obj k" by auto
    moreover have "values_of f k (kv # pairs) = values_of f k pairs" using False by (simp add: values_of_def)
    ultimately show ?thesis using Cons.IH [OF s(4)] by (simp only:)
  qed
qed

lemma lossless_parameters:
  assumes "add_params fs 0 pairs obj = Inr out"
    and "map_of fs k = Some f" "CHR ''.'' \<notin> set k" "list_all (\<lambda>(key, _). \<not> starts_with key (k @ ''.'')) fs"
    and "map_of obj k = None"
  shows "length pairs \<le> MAX_PARAMETERS \<and> fst ` set pairs \<subseteq> dom (map_of fs)
    \<and> (\<exists>vs. values_of f k pairs = Inr vs
        \<and> map_of out k = (if vs = [] then None else Some (if f_is_list f then Array vs else hd vs))
        \<and> (\<not> f_is_list f \<longrightarrow> length vs \<le> 1))"
proof -
  have parts: "\<not> part_of k key" if "key \<in> dom (map_of fs)" for key
    using assms(4) that by (auto simp: list_all_iff starts_with_def dest!: map_of_SomeD)
  have "\<exists>vs. values_of f k pairs = Inr vs
        \<and> map_of out k = (if vs = [] then None else Some (if f_is_list f then Array vs else hd vs))
        \<and> (\<not> f_is_list f \<longrightarrow> length vs \<le> 1)"
  proof (cases "f_is_list f")
    case True
    have "\<exists>vs. values_of f k pairs = Inr vs
        \<and> map_of out k = (if map_of obj k = None \<and> vs = [] then None else Some (Array ([] @ vs)))"
      by (rule add_params_repeated [OF assms(2) True assms(3) parts assms(1), where e = undefined])
        (simp_all add: assms(5))
    then show ?thesis unfolding if_P [OF True] assms(5) by (simp only: append_Nil True simp_thms)
  next
    case False
    from add_params_singular [OF assms(2) False assms(3) parts assms(1)] obtain vs where
      vs: "values_of f k pairs = Inr vs" "length vs \<le> 1" "map_of out k = (if vs = [] then None else Some (hd vs))"
      by (auto simp: assms(5))
    show ?thesis
      by (intro exI [of _ vs] conjI impI) (use vs False in simp_all)
  qed
  with add_params_bounded [OF assms(1)] add_params_declared [OF assms(1)] show ?thesis by simp
qed

section \<open>Properties\<close>

text \<open>
  C19: numbers in a query string are exact.  Every integer in the range of a field's type is
  read back from its decimal text as itself, and whatever text is accepted for an integer
  field yields the canonical decimal text of a number in that range.
\<close>

theorem query_integers_round_trip:
  assumes "int_range k = Some (lo, hi)"
  shows "(\<forall>v. lo \<le> v \<longrightarrow> v \<le> hi \<longrightarrow> scalar k (dec_of_int v) = Inr (integer_json k v))
    \<and> (\<forall>s j. scalar k s = Inr j \<longrightarrow> (\<exists>v. lo \<le> v \<and> v \<le> hi \<and> j = integer_json k v \<and> scalar k (dec_of_int v) = Inr j))"
  using scalar_integer_accepts [OF assms] scalar_integer_in_range [OF assms] by metis

theorem query_integers_round_trip_witness:
  "scalar KInt64 (dec_of_int 9007199254740993) = Inr (integer_json KInt64 9007199254740993)"
  using query_integers_round_trip [of KInt64 "- 9223372036854775808" 9223372036854775807]
  by (simp add: int_range_def)


definition sample_fields :: "(string \<times> field_descriptor) list" where
  "sample_fields =
     [(''eventId'', \<lparr>f_name = ''event_id'', f_json_name = ''eventId'', f_is_list = False, f_is_map = False, f_kind = KInt64\<rparr>),
      (''ranks'', \<lparr>f_name = ''ranks'', f_json_name = ''ranks'', f_is_list = True, f_is_map = False, f_kind = KInt32\<rparr>)]"


text \<open>
  listing the parameters of a request always returns.  If nested messages go down
  along some rank and are never repeated, the depth of 8 is enough for every request of rank
  at most 7, and the list names no message.
\<close>

theorem query_fields_returns:
  assumes "\<And>d f n. f \<in> set (fields_of pool d) \<Longrightarrow> f_kind f = KMessage n \<Longrightarrow>
      rank n < (rank d :: nat) \<and> \<not> f_is_list f \<and> \<not> f_is_map f"
    and "rank message < 8"
  shows "\<exists>out. query_fields pool message = Some out \<and> (\<forall>(name, f) \<in> set out. \<forall>n. f_kind f \<noteq> KMessage n)"
  unfolding query_fields_def using assms by (rule collect_returns [where rank = rank])

definition sample_search_pool :: descriptor_pool where
  "sample_search_pool d =
     (if d = ''app.circle.SearchRequest''
      then Some [\<lparr>f_name = ''options'', f_json_name = ''options'', f_is_list = False, f_is_map = False,
                  f_kind = KMessage ''entity.SearchOptions''\<rparr>]
      else if d = ''entity.SearchOptions''
      then Some [\<lparr>f_name = ''name'', f_json_name = ''name'', f_is_list = False, f_is_map = False, f_kind = KString\<rparr>]
      else None)"

theorem query_fields_returns_witness:
  "\<exists>out. query_fields sample_search_pool ''app.circle.SearchRequest'' = Some out"
proof -
  have "\<exists>out. query_fields sample_search_pool ''app.circle.SearchRequest'' = Some out
      \<and> (\<forall>(name, f) \<in> set out. \<forall>n. f_kind f \<noteq> KMessage n)"
    by (rule query_fields_returns [where rank = "\<lambda>d. if d = ''app.circle.SearchRequest'' then 1 else 0"])
      (auto simp: sample_search_pool_def fields_of_def split: if_split_asm)
  then show ?thesis by blast
qed

end
