(* ===== verification/Projection.thy ===== *)
theory Projection
  imports Json Queries
begin

text \<open>
  The fail-closed field policy of public responses (\<open>server/src/projection.rs\<close>): the table of
  public fields per message, and the recursive copy that keeps nothing else.
\<close>

datatype response_mode = Disabled | Public | Raw

definition default_response_mode :: response_mode where
  "default_response_mode = Public"

definition public_fields :: "(string \<times> string list) list" where
  "public_fields =
     [(''app.announcement.GetResponse'', [''announcement'']),
      (''app.announcement.GetListResponse'', [''announcements'', ''externalContents'']),
      (''entity.Announcement'',
        [''id'', ''category'', ''title'', ''bannerPath'', ''bannerUrl'', ''body'', ''startAt'',
         ''endAt'', ''sortOrder'', ''pickupBannerPath'', ''pickupBannerUrl'', ''pickupStartAt'',
         ''pickupEndAt'', ''lastUpdatedAt'', ''stylesheetId'']),
      (''entity.AnnouncementExternalContent'', [''id'', ''bannerPath'']),
      (''app.arena.ArenaRankingResponse'', [''ranking'', ''maxRank'']),
      (''entity.ArenaRankingEntry'', [''profile'', ''deck'', ''rank'', ''point'']),
      (''entity.PlayerSimpleProfile'',
        [''id'', ''name'', ''rankExp'', ''lastUpdatedAt'', ''favoriteMemberCard'', ''profileId'',
         ''favoriteMemberCardMasterId'', ''profileCard'']),
      (''entity.DeckMemberCardDetail'',
        [''cardId'', ''exp'', ''awakeCount'', ''cardRank'', ''liveSkillLevel'',
         ''performanceSkillLevel'']),
      (''entity.SimpleProfileCard'', [''slot'', ''name'', ''thumbnailUrl'']),
      (''entity.DeckDetail'', [''id'', ''name'', ''cards'', ''totalPower'']),
      (''entity.DeckCardDetail'',
        [''slotIndex'', ''performanceOrderIndex'', ''memberCard'', ''supportCard'']),
      (''entity.DeckSupportCardDetail'', [''cardId'', ''exp'', ''rank'']),
      (''app.arena.DeckTrendResponse'', [''leaders'', ''members'', ''supports'']),
      (''entity.ArenaDeckTrendMemberCard'', [''memberCardId'']),
      (''entity.ArenaDeckTrendSupportCard'', [''supportCardId'']),
      (''app.circle.GetCircleResponse'', [''circle'']),
      (''entity.CircleDetailWithPlayerList'', [''detail'', ''players'', ''circleRanking'']),
      (''entity.Circle'',
        [''id'', ''name'', ''description'', ''joinRule'', ''playStyle'', ''totalPoint'',
         ''weeklyTotalPoint'', ''memberCount'', ''masterLastLoginAt'', ''currentRank'',
         ''nextRankPoint'']),
      (''entity.CirclePlayer'',
        [''playerId'', ''circleId'', ''auth'', ''point'', ''weeklyTotalPoint'', ''profile'']),
      (''app.circle.SearchResponse'', [''circles'']),
      (''entity.CircleWithMasterPlayer'', [''circle'', ''profile'']),
      (''app.event.GetChallengeMusicRankingResponse'', [''players'']),
      (''app.livemusic.GetRankingResponse'', [''players'']),
      (''app.event.ChallengeLiveRankingPlayer'', [''playerData'', ''score'', ''highScoreDeck'']),
      (''app.livemusic.LiveRankingPlayer'', [''playerData'', ''score'', ''highScoreDeck'']),
      (''app.event.GetDeckResponse'', [''deck'']),
      (''app.event.GetRankingListResponse'', [''ranking'']),
      (''app.event.EventRankingEntry'', [''profile'', ''rank'', ''point'']),
      (''app.friend.FindByProfileIDResponse'', [''playerProfile'']),
      (''app.gacha.ProbabilityResponse'',
        [''lot'', ''prize'', ''ensuredLot'', ''ensuredPrize'', ''probabilities'', ''products'',
         ''ensuredProducts'']),
      (''entity.LotProbability'', [''lotId'', ''probabilityPercent'']),
      (''entity.PrizeProbability'', [''prizeId'', ''probabilityPercent'']),
      (''entity.Probability'', [''lot'', ''prize'']),
      (''app.player.GetPlayerFavoriteStatusResponse'', [''totalFavorite'']),
      (''app.playerext.GetPlayerListResponse'', [''players'']),
      (''entity.PlayerBriefInfo'',
        [''accountId'', ''playerId'', ''nickname'', ''level'', ''chatFrameId'', ''chatBubbleId'',
         ''chatThemeId'', ''avatarId''])]"

definition allowed :: "string \<Rightarrow> string list" where
  "allowed message = (case map_of public_fields message of None \<Rightarrow> [] | Some fs \<Rightarrow> fs)"

definition permitted :: "response_mode \<Rightarrow> string \<Rightarrow> bool" where
  "permitted mode method \<longleftrightarrow> mode \<noteq> Public \<or> method \<noteq> ''circle-recommendations''"

definition map_value_kind :: "descriptor_pool \<Rightarrow> field_kind \<Rightarrow> field_kind outcome" where
  "map_value_kind pool k =
     (case k of
        KMessage entry \<Rightarrow>
          and_then (ok_or (field_by_name pool entry ''value'') (client_error_new Protocol)) (\<lambda>f. Inr (f_kind f))
      | _ \<Rightarrow> fail Protocol)"

lemma and_then_cong [fundef_cong]:
  "r = r' \<Longrightarrow> (\<And>x. r' = Inr x \<Longrightarrow> f x = f' x) \<Longrightarrow> and_then r f = and_then r' f'"
  by (cases r') simp_all

lemma map_results_cong [fundef_cong]:
  "xs = xs' \<Longrightarrow> (\<And>x. x \<in> set xs' \<Longrightarrow> f x = f' x) \<Longrightarrow> map_results f xs = map_results f' xs'"
  by (induction xs' arbitrary: xs) auto

text \<open>
  \<open>object\<close>, the part of its loop that copies one field, and \<open>scalar\<close>.  The loop runs over the
  table's names, not over the input's.
\<close>

function (sequential)
  project_object :: "descriptor_pool \<Rightarrow> string \<Rightarrow> json \<Rightarrow> json outcome" and
  project_field :: "descriptor_pool \<Rightarrow> field_descriptor \<Rightarrow> json \<Rightarrow> json outcome" and
  project_scalar :: "descriptor_pool \<Rightarrow> field_kind \<Rightarrow> json \<Rightarrow> json outcome"
where
  "project_object pool desc value =
     (case as_object value of
        None \<Rightarrow> fail Protocol
      | Some input \<Rightarrow>
          and_then (map_results (\<lambda>name.
            (case map_of input name of
               None \<Rightarrow> Inr []
             | Some v \<Rightarrow>
                 and_then (ok_or (field_by_json_name pool desc name) (client_error_new Protocol)) (\<lambda>f.
                 and_then (project_field pool f v) (\<lambda>p. Inr [(name, p)])))) (allowed desc))
            (\<lambda>entries. Inr (Object (concat entries))))"
| "project_field pool f v =
     (if f_is_map f then
        and_then (map_value_kind pool (f_kind f)) (\<lambda>k.
          (case as_object v of
             None \<Rightarrow> fail Protocol
           | Some kvs \<Rightarrow>
               and_then (map_results (\<lambda>kv. and_then (project_scalar pool k (snd kv)) (\<lambda>p. Inr (fst kv, p))) kvs)
                 (\<lambda>m. Inr (Object m))))
      else if f_is_list f then
        (case as_array v of
           None \<Rightarrow> fail Protocol
         | Some vs \<Rightarrow> and_then (map_results (\<lambda>w. project_scalar pool (f_kind f) w) vs) (\<lambda>ws. Inr (Array ws)))
      else project_scalar pool (f_kind f) v)"
| "project_scalar pool (KMessage desc) v = project_object pool desc v"
| "project_scalar pool _ v = Inr v"
  by pat_completeness auto
termination
  by (relation "measures [\<lambda>x. case x of Inl (_, _, v) \<Rightarrow> size v
        | Inr (Inl (_, _, v)) \<Rightarrow> size v | Inr (Inr (_, _, v)) \<Rightarrow> size v,
      \<lambda>x. case x of Inl _ \<Rightarrow> 0 | Inr (Inl _) \<Rightarrow> 2 | Inr (Inr _) \<Rightarrow> 1]")
    (auto simp: result_simps dest!: size_object_lookup size_array_entry
      intro: order_less_le_trans [OF size_object_entry])

declare project_object.simps [simp del] project_field.simps [simp del]

definition project :: "descriptor_pool \<Rightarrow> string \<Rightarrow> json \<Rightarrow> json outcome" where
  "project pool method value =
     and_then (ok_or (find_method method) (client_error_new Protocol)) (\<lambda>m.
     and_then (ok_or (pool (m_output m)) (client_error_new Protocol)) (\<lambda>_.
       project_object pool (m_output m) value))"

section \<open>What a public value is\<close>

text \<open>
  The policy as a predicate: every entry of an object is a public field of its message and its
  value is public for that field; other kinds carry any value.
\<close>

inductive
  public_object :: "descriptor_pool \<Rightarrow> string \<Rightarrow> json \<Rightarrow> bool" and
  public_field :: "descriptor_pool \<Rightarrow> field_descriptor \<Rightarrow> json \<Rightarrow> bool" and
  public_scalar :: "descriptor_pool \<Rightarrow> field_kind \<Rightarrow> json \<Rightarrow> bool"
  for pool :: descriptor_pool
where
  object: "(\<And>k v. (k, v) \<in> set kvs \<Longrightarrow> k \<in> set (allowed d)
      \<and> (\<exists>f. field_by_json_name pool d k = Some f \<and> public_field pool f v)) \<Longrightarrow>
    public_object pool d (Object kvs)"
| map: "f_is_map f \<Longrightarrow> map_value_kind pool (f_kind f) = Inr k \<Longrightarrow>
    (\<And>key w. (key, w) \<in> set kvs \<Longrightarrow> public_scalar pool k w) \<Longrightarrow> public_field pool f (Object kvs)"
| list: "\<not> f_is_map f \<Longrightarrow> f_is_list f \<Longrightarrow> (\<And>w. w \<in> set ws \<Longrightarrow> public_scalar pool (f_kind f) w) \<Longrightarrow>
    public_field pool f (Array ws)"
| single: "\<not> f_is_map f \<Longrightarrow> \<not> f_is_list f \<Longrightarrow> public_scalar pool (f_kind f) v \<Longrightarrow> public_field pool f v"
| message: "public_object pool d v \<Longrightarrow> public_scalar pool (KMessage d) v"
| plain: "(\<And>d. k \<noteq> KMessage d) \<Longrightarrow> public_scalar pool k v"

lemma map_results_member:
  "map_results f xs = Inr ys \<Longrightarrow> y \<in> set ys \<Longrightarrow> \<exists>x\<in>set xs. f x = Inr y"
  by (induction xs arbitrary: ys) (auto simp: result_simps)

text \<open>The entries of a projected object, one by one.\<close>

lemma project_object_entry:
  assumes "project_object pool d value = Inr out"
  shows "\<exists>input kvs. value = Object input \<and> out = Object kvs
    \<and> (\<forall>k v. (k, v) \<in> set kvs \<longrightarrow> k \<in> set (allowed d) \<and> (\<exists>w f. map_of input k = Some w
          \<and> field_by_json_name pool d k = Some f \<and> project_field pool f w = Inr v))"
proof -
  let ?F = "\<lambda>input name. (case map_of input name of None \<Rightarrow> Inr []
             | Some v \<Rightarrow> and_then (ok_or (field_by_json_name pool d name) (client_error_new Protocol)) (\<lambda>f.
                 and_then (project_field pool f v) (\<lambda>p. Inr [(name, p)])))"
  obtain input entries where i: "value = Object input" "map_results (?F input) (allowed d) = Inr entries"
    "out = Object (concat entries)"
    using assms by (auto simp: project_object.simps result_simps split: option.splits)
  have "k \<in> set (allowed d) \<and> (\<exists>w f. map_of input k = Some w
          \<and> field_by_json_name pool d k = Some f \<and> project_field pool f w = Inr v)"
    if kv: "(k, v) \<in> set (concat entries)" for k v
  proof -
    have "\<exists>e\<in>set entries. (k, v) \<in> set e" using kv by (simp only: set_concat UN_iff)
    then obtain e where "e \<in> set entries" "(k, v) \<in> set e" by blast
    with map_results_member [OF i(2)] obtain name where "name \<in> set (allowed d)" "?F input name = Inr e"
      by blast
    with \<open>(k, v) \<in> set e\<close> show ?thesis by (auto simp: result_simps split: option.splits)
  qed
  with i show ?thesis by blast
qed

lemma project_field_cases:
  assumes "project_field pool f v = Inr out"
  shows "(\<exists>k kvs m. f_is_map f \<and> map_value_kind pool (f_kind f) = Inr k \<and> v = Object kvs \<and> out = Object m
            \<and> map_results (\<lambda>kv. and_then (project_scalar pool k (snd kv)) (\<lambda>p. Inr (fst kv, p))) kvs = Inr m)
    \<or> (\<exists>vs ws. \<not> f_is_map f \<and> f_is_list f \<and> v = Array vs \<and> out = Array ws
            \<and> map_results (\<lambda>w. project_scalar pool (f_kind f) w) vs = Inr ws)
    \<or> \<not> f_is_map f \<and> \<not> f_is_list f \<and> project_scalar pool (f_kind f) v = Inr out"
  using assms
  by (auto simp: project_field.simps result_simps split: if_split_asm option.splits)

lemma projection_public:
  "project_object pool d v = Inr out \<Longrightarrow> public_object pool d out"
  "project_field pool f v = Inr out \<Longrightarrow> public_field pool f out"
  "project_scalar pool k v = Inr out \<Longrightarrow> public_scalar pool k out"
proof (induction "size v" arbitrary: d f k v out rule: less_induct)
  case less
  have object: "public_object pool d out" if o: "project_object pool d v = Inr out" for d out
  proof -
    obtain input kvs where kvs: "v = Object input" "out = Object kvs"
      "\<forall>k v. (k, v) \<in> set kvs \<longrightarrow> k \<in> set (allowed d) \<and> (\<exists>w f. map_of input k = Some w
          \<and> field_by_json_name pool d k = Some f \<and> project_field pool f w = Inr v)"
      using project_object_entry [OF o] by blast
    have "public_field pool f w'" if "map_of input k = Some w" "project_field pool f w = Inr w'" for k w w' f
      using less.hyps(2) [of w] size_object_lookup [OF that(1)] that(2) kvs(1) by blast
    with kvs show ?thesis by (auto intro!: public_object_public_field_public_scalar.object) metis
  qed
  have scalar: "public_scalar pool k out" if "project_scalar pool k v = Inr out" for k out
  proof (cases "\<exists>d. k = KMessage d")
    case True
    then obtain d where "k = KMessage d" by blast
    with that object show ?thesis by (auto intro: public_object_public_field_public_scalar.message)
  next
    case False
    then show ?thesis by (intro public_object_public_field_public_scalar.plain) auto
  qed
  have field: "public_field pool f out" if "project_field pool f v = Inr out" for f out
    using project_field_cases [OF that]
  proof (elim disjE exE conjE)
    fix k kvs m
    assume m: "f_is_map f" "map_value_kind pool (f_kind f) = Inr k" "v = Object kvs" "out = Object m"
      "map_results (\<lambda>kv. and_then (project_scalar pool k (snd kv)) (\<lambda>p. Inr (fst kv, p))) kvs = Inr m"
    have "public_scalar pool k w" if "(key, w) \<in> set m" for key w
    proof -
      from map_results_member [OF m(5) that] obtain kv where
        kv: "kv \<in> set kvs" "project_scalar pool k (snd kv) = Inr w" by (auto simp: result_simps)
      then have "size (snd kv) < size v" using m(3) size_object_entry [of "fst kv" "snd kv" kvs] by simp
      with less.hyps(3) kv(2) show ?thesis by blast
    qed
    with m show ?thesis by (auto intro: public_object_public_field_public_scalar.map)
  next
    fix vs ws
    assume m: "\<not> f_is_map f" "f_is_list f" "v = Array vs" "out = Array ws"
      "map_results (\<lambda>w. project_scalar pool (f_kind f) w) vs = Inr ws"
    have "public_scalar pool (f_kind f) w" if "w \<in> set ws" for w
    proof -
      from map_results_member [OF m(5) that] obtain u where
        "u \<in> set vs" "project_scalar pool (f_kind f) u = Inr w" by blast
      then show ?thesis using m(3) size_array_entry [of u vs] less.hyps(3) by blast
    qed
    with m show ?thesis by (auto intro: public_object_public_field_public_scalar.list)
  qed (auto intro: public_object_public_field_public_scalar.single scalar)
  {
    case 1 then show ?case by (rule object)
  next
    case 2 then show ?case by (rule field)
  next
    case 3 then show ?case by (rule scalar)
  }
qed

section \<open>Projecting twice\<close>

lemma public_fields_distinct: "list_all (\<lambda>(_, fs). distinct fs) public_fields"
  by (simp add: public_fields_def)

lemma allowed_distinct: "distinct (allowed d)"
proof (cases "map_of public_fields d")
  case (Some fs)
  then have "(d, fs) \<in> set public_fields" by (rule map_of_SomeD)
  with public_fields_distinct Some show ?thesis by (auto simp: allowed_def list_all_iff)
qed (simp add: allowed_def)

lemma map_results_fixed:
  "list_all2 (\<lambda>x y. g x = Inr y) xs ys \<Longrightarrow> map_results g xs = Inr ys"
  by (induction xs ys rule: list_all2_induct) simp_all

lemma map_results_again:
  assumes "map_results f xs = Inr ys" "\<And>x y. x \<in> set xs \<Longrightarrow> f x = Inr y \<Longrightarrow> g y = Inr y"
  shows "map_results g ys = Inr ys"
  using assms
proof (induction xs arbitrary: ys)
  case (Cons x xs)
  from Cons.prems(1) obtain y zs where y: "f x = Inr y" "map_results f xs = Inr zs" "ys = y # zs"
    by (auto simp: result_simps)
  have "map_results g zs = Inr zs"
    by (rule Cons.IH [OF y(2)]) (rule Cons.prems(2), simp_all)
  with y Cons.prems(2) [of x y] show ?case by simp
qed simp

text \<open>Entries collected name by name are found again under their names.\<close>

lemma collected_lookup:
  assumes "list_all2 (\<lambda>name e. e = [] \<or> (\<exists>p. e = [(name, p)])) names entries" "distinct names"
  shows "list_all2 (\<lambda>name e. map_of (concat entries) name = map_option snd (if e = [] then None else Some (hd e)))
    names entries"
  using assms
proof (induction names entries rule: list_all2_induct)
  case (Cons name names e entries)
  have names: "fst ` set (concat entries) \<subseteq> set names"
    using Cons.hyps(2)
  proof (induction names entries rule: list_all2_induct)
    case (Cons n ns x xs)
    then show ?case by auto
  qed simp
  have new: "map_of (concat entries) name = None"
    using names Cons.prems by (auto simp: map_of_eq_None_iff)
  have rest: "list_all2 (\<lambda>name e. map_of (concat entries) name = map_option snd (if e = [] then None else Some (hd e)))
    names entries" using Cons by simp
  have "list_all2 (\<lambda>n x. map_of (e @ concat entries) n = map_option snd (if x = [] then None else Some (hd x)))
    names entries"
    using rest
  proof (rule list.rel_mono_strong)
    fix n x
    assume "n \<in> set names" "x \<in> set entries" "map_of (concat entries) n = map_option snd (if x = [] then None else Some (hd x))"
    moreover from this Cons.prems have "n \<noteq> name" by auto
    ultimately show "map_of (e @ concat entries) n = map_option snd (if x = [] then None else Some (hd x))"
      using Cons.hyps(1) by auto
  qed
  with Cons.hyps(1) new show ?case by auto
qed simp

lemma projection_idempotent:
  "project_object pool d v = Inr out \<Longrightarrow> project_object pool d out = Inr out"
  "project_field pool f v = Inr out \<Longrightarrow> project_field pool f out = Inr out"
  "project_scalar pool k v = Inr out \<Longrightarrow> project_scalar pool k out = Inr out"
proof (induction "size v" arbitrary: d f k v out rule: less_induct)
  case less
  have object: "project_object pool d out = Inr out" if o: "project_object pool d v = Inr out" for d out
  proof -
    define F where "F = (\<lambda>input name. (case map_of input name of None \<Rightarrow> Inr []
             | Some v \<Rightarrow> and_then (ok_or (field_by_json_name pool d name) (client_error_new Protocol)) (\<lambda>f.
                 and_then (project_field pool f v) (\<lambda>p. Inr [(name, p)]))))"
    have unfold: "project_object pool d (Object i) =
        and_then (map_results (F i) (allowed d)) (\<lambda>entries. Inr (Object (concat entries)))" for i
      by (simp add: project_object.simps F_def)
    obtain input where input: "v = Object input"
      using o by (auto simp: project_object.simps result_simps split: option.splits)
    with o obtain entries where e: "map_results (F input) (allowed d) = Inr entries"
      "out = Object (concat entries)" by (auto simp: unfold result_simps)
    have all: "list_all2 (\<lambda>name e. F input name = Inr e) (allowed d) entries"
      using e(1) by (rule map_results_Inr)
    have shape: "list_all2 (\<lambda>name e. e = [] \<or> (\<exists>p. e = [(name, p)])) (allowed d) entries"
      using all by (rule list_all2_mono) (auto simp: F_def result_simps split: option.splits)
    note lookup = collected_lookup [OF shape allowed_distinct]
    have again: "F (concat entries) name = Inr x"
      if "F input name = Inr x" "map_of (concat entries) name = map_option snd (if x = [] then None else Some (hd x))"
      for name x
    proof (cases "map_of input name")
      case None
      with that show ?thesis by (simp add: F_def)
    next
      case (Some w)
      with that(1) obtain f p where f: "field_by_json_name pool d name = Some f" "project_field pool f w = Inr p"
        "x = [(name, p)]" by (auto simp: F_def result_simps)
      have "project_field pool f p = Inr p"
        using less.hyps(2) [of w] size_object_lookup [OF Some] f(2) input by blast
      with f that(2) show ?thesis by (simp add: F_def)
    qed
    have "list_all2 (\<lambda>name x. F (concat entries) name = Inr x) (allowed d) entries"
      using all lookup again by (simp add: list_all2_conv_all_nth)
    then show ?thesis by (simp add: e(2) unfold map_results_fixed)
  qed
  have scalar: "project_scalar pool k out = Inr out" if "project_scalar pool k v = Inr out" for k out
    using that object by (cases k) auto
  have field: "project_field pool f out = Inr out" if "project_field pool f v = Inr out" for f out
    using project_field_cases [OF that]
  proof (elim disjE exE conjE)
    fix k kvs m
    assume m: "f_is_map f" "map_value_kind pool (f_kind f) = Inr k" "v = Object kvs" "out = Object m"
      "map_results (\<lambda>kv. and_then (project_scalar pool k (snd kv)) (\<lambda>p. Inr (fst kv, p))) kvs = Inr m"
    have "map_results (\<lambda>kv. and_then (project_scalar pool k (snd kv)) (\<lambda>p. Inr (fst kv, p))) m = Inr m"
    proof (rule map_results_again [OF m(5)])
      fix x y
      assume x: "x \<in> set kvs" "and_then (project_scalar pool k (snd x)) (\<lambda>p. Inr (fst x, p)) = Inr y"
      then have "size (snd x) < size v" using m(3) size_object_entry [of "fst x" "snd x" kvs] by simp
      with less.hyps(3) x(2) show "and_then (project_scalar pool k (snd y)) (\<lambda>p. Inr (fst y, p)) = Inr y"
        by (auto simp: result_simps)
    qed
    with m show ?thesis by (simp add: project_field.simps)
  next
    fix vs ws
    assume m: "\<not> f_is_map f" "f_is_list f" "v = Array vs" "out = Array ws"
      "map_results (\<lambda>w. project_scalar pool (f_kind f) w) vs = Inr ws"
    have "map_results (\<lambda>w. project_scalar pool (f_kind f) w) ws = Inr ws"
    proof (rule map_results_again [OF m(5)])
      fix x y
      assume "x \<in> set vs" "project_scalar pool (f_kind f) x = Inr y"
      then show "project_scalar pool (f_kind f) y = Inr y"
        using m(3) size_array_entry [of x vs] less.hyps(3) by blast
    qed
    with m show ?thesis by (simp add: project_field.simps)
  next
    assume s: "\<not> f_is_map f" "\<not> f_is_list f" "project_scalar pool (f_kind f) v = Inr out"
    then show ?thesis using scalar [OF s(3)] by (simp add: project_field.simps)
  qed
  {
    case 1 then show ?case by (rule object)
  next
    case 2 then show ?case by (rule field)
  next
    case 3 then show ?case by (rule scalar)
  }
qed

section \<open>Properties\<close>

lemma project_Inr:
  "project pool method v = Inr out \<longleftrightarrow>
     (\<exists>m. find_method method = Some m \<and> pool (m_output m) \<noteq> None \<and> project_object pool (m_output m) v = Inr out)"
  by (auto simp: project_def result_simps)

text \<open>
  C17: the projection is fail-closed.  Whatever the upstream answer contains, every
  entry at every level of the projected answer is a field that the table allows for the
  message at that position and that the message's descriptor declares; an unexpected shape is
  an error, never copied.
\<close>

theorem projection_keeps_only_public_fields:
  assumes "project pool method v = Inr out"
  shows "\<exists>m kvs. find_method method = Some m \<and> out = Object kvs \<and> public_object pool (m_output m) out
    \<and> fst ` set kvs \<subseteq> set (allowed (m_output m))"
proof -
  obtain m where m: "find_method method = Some m" "project_object pool (m_output m) v = Inr out"
    using assms by (auto simp: project_Inr)
  from project_object_entry [OF m(2)] obtain kvs where "out = Object kvs"
    "fst ` set kvs \<subseteq> set (allowed (m_output m))" by fastforce
  with m projection_public(1) [OF m(2)] show ?thesis by blast
qed

definition sample_descriptors :: descriptor_pool where
  "sample_descriptors d =
     (if d = ''app.player.GetPlayerFavoriteStatusResponse''
      then Some [\<lparr>f_name = ''total_favorite'', f_json_name = ''totalFavorite'', f_is_list = False,
                  f_is_map = False, f_kind = KInt64\<rparr>]
      else None)"

lemma sample_projection:
  "project sample_descriptors ''favorite-status''
     (Object [(''isSentFavorite'', Bool True), (''totalFavorite'', String ''9'')])
   = Inr (Object [(''totalFavorite'', String ''9'')])"
  by (simp add: project_def find_method_def METHODS_def sample_descriptors_def project_object.simps
      project_field.simps allowed_def public_fields_def field_by_json_name_def fields_of_def)

theorem projection_keeps_only_public_fields_witness:
  "\<exists>m. find_method ''favorite-status'' = Some m
     \<and> public_object sample_descriptors (m_output m) (Object [(''totalFavorite'', String ''9'')])"
  using projection_keeps_only_public_fields [OF sample_projection] by blast

text \<open>
  C21: projecting a projected answer changes nothing, so the public form of an answer
  does not depend on whether it was stored before or after the projection.
\<close>

theorem projection_is_idempotent:
  assumes "project pool method v = Inr out"
  shows "project pool method out = Inr out"
  using assms projection_idempotent(1) by (auto simp: project_Inr)

theorem projection_is_idempotent_witness:
  "project sample_descriptors ''favorite-status'' (Object [(''totalFavorite'', String ''9'')])
   = Inr (Object [(''totalFavorite'', String ''9'')])"
  by (rule projection_is_idempotent [OF sample_projection])

end
