(* ===== verification/Regions.thy ===== *)
theory Regions
  imports Session_Pool Json
begin

text \<open>
  Region routing (\<open>server/src/regions.rs\<close>): the regions in their derived order, the region of a
  session and of a profile number, and the table of backends, each with a pool of its own.  The
  ordered map of the source is an association list kept sorted by its keys.
\<close>

section \<open>Regions\<close>

datatype region = Tw | En | Kr | Jp

fun region_rank :: "region \<Rightarrow> nat" where
  "region_rank Tw = 0"
| "region_rank En = 1"
| "region_rank Kr = 2"
| "region_rank Jp = 3"

lemma region_rank_inject [simp]: "region_rank r = region_rank s \<longleftrightarrow> r = s"
  by (cases r; cases s; simp)

instantiation region :: linorder
begin

definition less_eq_region :: "region \<Rightarrow> region \<Rightarrow> bool" where
  "less_eq_region r s \<longleftrightarrow> region_rank r \<le> region_rank s"

definition less_region :: "region \<Rightarrow> region \<Rightarrow> bool" where
  "less_region r s \<longleftrightarrow> region_rank r < region_rank s"

instance
  by standard (auto simp: less_eq_region_def less_region_def simp flip: region_rank_inject)

end

fun as_str :: "region \<Rightarrow> string" where
  "as_str Tw = ''tw''"
| "as_str En = ''en''"
| "as_str Kr = ''kr''"
| "as_str Jp = ''jp''"

definition from_session :: "string \<Rightarrow> region option" where
  "from_session name =
     (if name = ''hk'' \<or> name = ''tw'' \<or> name = ''hk-tw-mo'' then Some Tw
      else if name = ''en'' then Some En
      else if name = ''kr'' then Some Kr
      else if name = ''jp'' then Some Jp
      else None)"

definition from_profile_id :: "string \<Rightarrow> string + region \<times> int" where
  "from_profile_id i =
     (if length i \<noteq> 11 \<or> \<not> list_all is_ascii_digit i then Inl ''invalid_profile_id''
      else (let region = (if i ! 0 = CHR ''2'' then Some Tw
                          else if i ! 0 = CHR ''3'' then Some En
                          else if i ! 0 = CHR ''4'' then Some Kr
                          else None) in
            case region of
              None \<Rightarrow> Inl ''unsupported_profile_region''
            | Some r \<Rightarrow> and_then (ok_or (parse_i64 i) ''invalid_profile_id'') (\<lambda>n. Inr (r, n))))"

section \<open>The backends\<close>

record 'p region_clients =
  backends :: "(region \<times> 'p) list"
  default_region :: "region option"

definition default_clients :: "'p region_clients" where
  "default_clients = \<lparr>backends = [], default_region = None\<rparr>"

fun insert_pools :: "(region \<times> 'p) list \<Rightarrow> (region \<times> 'p) list \<Rightarrow> (region \<times> 'p) list outcome" where
  "insert_pools result [] = Inr result"
| "insert_pools result ((r, p) # pools) =
     (if map_of result r \<noteq> None then fail InvalidConfig
      else insert_pools (btree_insert r p result) pools)"

definition with_pools :: "region option \<Rightarrow> (region \<times> 'p) list \<Rightarrow> 'p region_clients outcome" where
  "with_pools dflt pools =
     and_then (insert_pools (backends (default_clients :: 'p region_clients)) pools) (\<lambda>result.
       if (case dflt of None \<Rightarrow> False | Some r \<Rightarrow> map_of result r = None) then fail InvalidConfig
       else Inr \<lparr>backends = result, default_region = dflt\<rparr>)"

text \<open>\<open>new\<close>: a pool of one session for every backend, all with the same options.\<close>

definition clients_new ::
  "region option \<Rightarrow> (region \<times> 's) list \<Rightarrow> cache_options \<Rightarrow> bool \<Rightarrow> 's pool region_clients outcome" where
  "clients_new dflt clients opts stopped =
     and_then (options_validate opts) (\<lambda>_.
     and_then (map_results (\<lambda>(r, c). and_then (pool_new opts [c] stopped) (\<lambda>p. Inr (r, p))) clients) (\<lambda>pools.
       with_pools dflt pools))"

definition region_cache :: "'p region_clients \<Rightarrow> region \<Rightarrow> 'p option" where
  "region_cache rc r = map_of (backends rc) r"

definition default_cache :: "'p region_clients \<Rightarrow> 'p option" where
  "default_cache rc = Option.bind (default_region rc) (region_cache rc)"

text \<open>\<open>status\<close>: one entry per backend; the pool's own status document is \<open>pool_status\<close>.\<close>

definition regions_status :: "('p \<Rightarrow> json) \<Rightarrow> 'p region_clients \<Rightarrow> json" where
  "regions_status pool_status rc = Object (map (\<lambda>(r, p). (as_str r, pool_status p)) (backends rc))"

section \<open>Facts\<close>

lemma as_str_inject [simp]: "as_str r = as_str s \<longleftrightarrow> r = s"
  by (cases r; cases s; simp)

lemma from_session_as_str [simp]: "from_session (as_str r) = Some r"
  by (cases r) (simp_all add: from_session_def)

lemma insert_pools_Inr:
  "insert_pools result pools = Inr out \<Longrightarrow> sorted_wrt (<) (map fst result) \<Longrightarrow>
     sorted_wrt (<) (map fst out) \<and> distinct (map fst pools) \<and> fst ` set pools \<inter> fst ` set result = {}
     \<and> map_of out = map_of result ++ map_of pools"
proof (induction pools arbitrary: result)
  case (Cons x pools)
  obtain r p where x: "x = (r, p)" by (cases x)
  with Cons.prems(1) have step: "r \<notin> fst ` set result" "insert_pools (btree_insert r p result) pools = Inr out"
    by (auto simp: map_of_eq_None_iff split: if_split_asm)
  from Cons.IH [OF step(2) sorted_btree_insert [OF Cons.prems(2)]]
  have rest: "sorted_wrt (<) (map fst out)" "distinct (map fst pools)"
    "fst ` set pools \<inter> insert r (fst ` set result) = {}"
    "map_of out = (map_of result)(r \<mapsto> p) ++ map_of pools"
    unfolding keys_btree_insert map_of_btree_insert by blast+
  then have "r \<notin> dom (map_of pools)" by (auto simp: dom_map_of_conv_image_fst)
  then have "(map_of result)(r \<mapsto> p) ++ map_of pools = map_of result ++ (map_of pools)(r \<mapsto> p)"
    by (simp add: map_add_upd_left)
  then have "map_of out = map_of result ++ map_of (x # pools)"
    unfolding rest(4) x by (simp only: map_of.simps fst_conv snd_conv)
  moreover have "distinct (map fst (x # pools))" "fst ` set (x # pools) \<inter> fst ` set result = {}"
    using rest(2,3) step(1) x by auto
  ultimately show ?case using rest(1) by blast
qed simp

lemma insert_pools_Inl:
  "insert_pools result pools = Inl e \<Longrightarrow>
     e = client_error_new InvalidConfig
     \<and> (\<not> distinct (map fst pools) \<or> fst ` set pools \<inter> fst ` set result \<noteq> {})"
proof (induction pools arbitrary: result)
  case (Cons x pools)
  obtain r p where x: "x = (r, p)" by (cases x)
  show ?case
  proof (cases "map_of result r")
    case None
    with Cons.prems x have "insert_pools (btree_insert r p result) pools = Inl e" by simp
    from Cons.IH [OF this] show ?thesis using x by auto
  next
    case (Some q)
    then have "r \<in> fst ` set result" by (metis fst_conv image_eqI map_of_SomeD)
    with Cons.prems x Some show ?thesis by auto
  qed
qed simp

lemma with_pools_Inr:
  assumes "with_pools d pools = Inr rc"
  shows "distinct (map fst pools)" "region_cache rc = map_of pools" "sorted_wrt (<) (map fst (backends rc))"
    "default_region rc = d" "\<And>r. d = Some r \<Longrightarrow> r \<in> fst ` set pools"
proof -
  from assms obtain out where out: "insert_pools [] pools = Inr out" "rc = \<lparr>backends = out, default_region = d\<rparr>"
    "\<not> (case d of None \<Rightarrow> False | Some r \<Rightarrow> map_of out r = None)"
    by (auto simp: with_pools_def default_clients_def result_simps split: if_split_asm)
  from insert_pools_Inr [OF out(1)] have i: "sorted_wrt (<) (map fst out)" "distinct (map fst pools)"
    "map_of out = map_of pools" by auto
  with out show "distinct (map fst pools)" "region_cache rc = map_of pools" "sorted_wrt (<) (map fst (backends rc))"
    "default_region rc = d" by (auto simp: region_cache_def)
  show "r \<in> fst ` set pools" if "d = Some r" for r
    using out(3) that i(3) by (metis (mono_tags) map_of_eq_None_iff option.simps(5))
qed

lemma with_pools_Inl:
  assumes "with_pools d pools = Inl e"
  shows "e = client_error_new InvalidConfig
    \<and> (\<not> distinct (map fst pools) \<or> (\<exists>r. d = Some r \<and> r \<notin> fst ` set pools))"
proof (cases "insert_pools [] pools")
  case (Inl e')
  with assms insert_pools_Inl [OF Inl] show ?thesis by (auto simp: with_pools_def default_clients_def)
next
  case (Inr out)
  from insert_pools_Inr [OF this] have "map_of out = map_of pools" by auto
  with assms Inr show ?thesis
    by (auto simp: with_pools_def default_clients_def map_of_eq_None_iff split: if_split_asm option.split_asm)
qed

lemma profile_number:
  assumes "length i = 11" "list_all is_ascii_digit i"
  shows "parse_i64 i = Some (int (digits_value i))"
    "digits_value i div 10 ^ 10 = digit_value (i ! 0)"
proof -
  obtain c s where i: "i = c # s" "length s = 10" using assms(1) by (cases i) auto
  with assms(2) have d: "is_ascii_digit c" "list_all is_ascii_digit s" by auto
  then have c: "digit_value c \<le> 9" "c \<noteq> CHR ''+''" "c \<noteq> CHR ''-''"
    by (auto simp: digit_value_def is_ascii_digit_def byte_def)
  have v: "digits_value i = digit_value c * 10 ^ 10 + digits_value s" "digits_value s < 10 ^ 10"
    using digits_value_Cons [of c s] digits_value_less [OF d(2)] i by simp_all
  with c i have "digits_value i < 9223372036854775808" by simp
  with c i assms show "parse_i64 i = Some (int (digits_value i))"
    by (simp add: parse_signed_def parse_unsigned_def starts_with_def all_digits_def)
  show "digits_value i div 10 ^ 10 = digit_value (i ! 0)"
    using v i by simp
qed

section \<open>Properties\<close>

text \<open>
  a profile number names its region.  Exactly the eleven digit texts between
  20000000000 and 49999999999 are accepted, with the number they denote, and the leading digit
  alone decides the region.
\<close>

theorem profile_id_names_its_region:
  "from_profile_id i = Inr (r, n) \<longleftrightarrow>
     length i = 11 \<and> list_all is_ascii_digit i \<and> n = int (digits_value i)
     \<and> n div 10000000000 = (case r of Tw \<Rightarrow> 2 | En \<Rightarrow> 3 | Kr \<Rightarrow> 4 | Jp \<Rightarrow> - 1)"
proof (cases "length i = 11 \<and> list_all is_ascii_digit i")
  case True
  note p = profile_number [OF conjunct1 [OF True] conjunct2 [OF True]]
  have "is_ascii_digit (i ! 0)" using True by (auto simp: list_all_length)
  then have "48 \<le> byte (i ! 0)" by (simp add: is_ascii_digit_def)
  then have digit: "i ! 0 = c \<longleftrightarrow> digit_value (i ! 0) = byte c - 48" if "48 \<le> byte c" for c
    using that by (auto simp: digit_value_def simp flip: byte_inject)
  have digit: "i ! 0 = CHR ''2'' \<longleftrightarrow> digit_value (i ! 0) = 2" "i ! 0 = CHR ''3'' \<longleftrightarrow> digit_value (i ! 0) = 3"
    "i ! 0 = CHR ''4'' \<longleftrightarrow> digit_value (i ! 0) = 4"
    using digit [of "CHR ''2''"] digit [of "CHR ''3''"] digit [of "CHR ''4''"] by (simp_all add: byte_def)
  have "int (digits_value i) div 10000000000 = int (digit_value (i ! 0))"
    using p(2) by (simp flip: zdiv_int)
  with True p(1) digit show ?thesis
    by (cases r) (auto simp: from_profile_id_def Let_def)
qed (auto simp: from_profile_id_def)

text \<open>
  the table of regions is exactly what it was built from.  Building it succeeds iff
  no region occurs twice and the default region is configured; then every region finds the pool
  given for it, the regions are in order, and a default region always has a pool.
\<close>

theorem region_table_is_exact:
  "case with_pools d pools of
     Inl e \<Rightarrow> e = client_error_new InvalidConfig
       \<and> (\<not> distinct (map fst pools) \<or> (\<exists>r. d = Some r \<and> r \<notin> fst ` set pools))
   | Inr rc \<Rightarrow> distinct (map fst pools) \<and> region_cache rc = map_of pools
       \<and> sorted_wrt (<) (map fst (backends rc)) \<and> (default_cache rc = None \<longleftrightarrow> d = None)"
proof (cases "with_pools d pools")
  case (Inl e)
  then show ?thesis using with_pools_Inl by auto
next
  case (Inr rc)
  note w = with_pools_Inr [OF Inr]
  have "default_cache rc = None \<longleftrightarrow> d = None"
    using w(2,4,5) by (cases d) (auto simp: default_cache_def map_of_eq_None_iff)
  with w Inr show ?thesis by simp
qed

end
