(* ===== verification/Http.thy ===== *)
theory Http
  imports Query_Params Projection Regions
begin

text \<open>
  Responses of the HTTP gateway (\<open>server/src/lib.rs\<close>): the mapping of classified errors to
  status codes, the static configuration of the gateway, and the library functions it uses.
  The content type that the framework adds to a JSON body is left out.
\<close>

record http_response =
  rs_status :: nat
  rs_headers :: "(string \<times> string) list"
  rs_body :: "json option"

text \<open>The serialized names of the error kinds.\<close>

fun kind_name :: "error_kind \<Rightarrow> string" where
  "kind_name InvalidConfig = ''invalid_config''"
| "kind_name InvalidRequest = ''invalid_request''"
| "kind_name AuthenticationRequired = ''authentication_required''"
| "kind_name Authentication = ''authentication''"
| "kind_name Maintenance = ''maintenance''"
| "kind_name Version = ''version''"
| "kind_name DeviceConflict = ''device_conflict''"
| "kind_name Business = ''business''"
| "kind_name Transport = ''transport''"
| "kind_name Protocol = ''protocol''"
| "kind_name Timeout = ''timeout''"
| "kind_name Cancelled = ''cancelled''"
| "kind_name QueueFull = ''queue_full''"
| "kind_name SessionChanged = ''session_changed''"

definition error_body :: "string \<Rightarrow> json" where
  "error_body k = Object [(''error'', Object [(''kind'', String k)])]"

fun error_status :: "error_kind \<Rightarrow> nat" where
  "error_status InvalidRequest = 400"
| "error_status QueueFull = 429"
| "error_status Timeout = 504"
| "error_status Maintenance = 503"
| "error_status Authentication = 503"
| "error_status AuthenticationRequired = 503"
| "error_status Version = 503"
| "error_status DeviceConflict = 503"
| "error_status SessionChanged = 503"
| "error_status Cancelled = 503"
| "error_status InvalidConfig = 502"
| "error_status Business = 502"
| "error_status Transport = 502"
| "error_status Protocol = 502"

text \<open>\<open>HttpError\<close> as a response: nothing of the error but its kind.\<close>

definition http_error :: "client_error \<Rightarrow> http_response" where
  "http_error e = \<lparr>rs_status = error_status (kind e), rs_headers = [(''cache-control'', ''no-store'')],
                   rs_body = Some (error_body (kind_name (kind e)))\<rparr>"

definition error_response :: "nat \<Rightarrow> string \<Rightarrow> http_response" where
  "error_response status k = \<lparr>rs_status = status, rs_headers = [], rs_body = Some (error_body k)\<rparr>"

definition method_not_allowed :: http_response where
  "method_not_allowed =
     \<lparr>rs_status = 405, rs_headers = [(''allow'', ''GET''), (''cache-control'', ''no-store'')], rs_body = None\<rparr>"

text \<open>
  \<open>ApiState\<close> without its counters: \<open>'p\<close> is the type of session pools.  The record
  \<open>web_library\<close> holds the functions of other crates: the descriptor pool, UTF-8 validity of
  percent-decoded text, the form parser and serializer, the typed decoding of a request, and
  the SHA-256 digest.
\<close>

record 'p api_state =
  api_cache :: 'p
  key_hash :: string
  api_mode :: response_mode
  access_log :: bool
  profiles :: "'p region_clients"

record web_library =
  lib_pool :: descriptor_pool
  lib_utf8 :: "string \<Rightarrow> bool"
  lib_form_parse :: "string \<Rightarrow> (string \<times> string) list"
  lib_form_encode :: "(string \<times> string) list \<Rightarrow> string"
  lib_decode :: "api_method \<Rightarrow> json \<Rightarrow> query option"
  lib_sha256 :: "string \<Rightarrow> string"

lemma error_status_error: "400 \<le> error_status k \<and> error_status k < 600"
  by (cases k) simp_all

lemma kind_name_inject [simp]: "kind_name k = kind_name k' \<longleftrightarrow> k = k'"
  by (cases k; cases k'; simp)

end
