(* ===== verification/Path_Routes.thy ===== *)
theory Path_Routes
  imports Http
begin

text \<open>
  The readable routes (\<open>server/src/path_routes.rs\<close>): the route table, the query string built
  from path parameters, the choice of the region, and the handler.  \<open>ask\<close> stands for the query
  operation of a session pool; \<open>None\<close> is a handler that does not return (a failed assertion).
\<close>

section \<open>The route tables\<close>

record route =
  r_path :: string
  r_method :: string
  r_fields :: "(string \<times> string \<times> bool) list"

abbreviation route_row :: "string \<Rightarrow> string \<Rightarrow> (string \<times> string \<times> bool) list \<Rightarrow> route" where
  "route_row p m fs \<equiv> \<lparr>r_path = p, r_method = m, r_fields = fs\<rparr>"

abbreviation one :: "string \<Rightarrow> string \<times> string \<times> bool" where
  "one f \<equiv> (f, f, False)"

abbreviation many :: "string \<Rightarrow> string \<times> string \<times> bool" where
  "many f \<equiv> (f, f, True)"

definition PATH_ROUTES :: "route list" where
  "PATH_ROUTES =
     [route_row ''/v1/profile/{profileId}'' ''profile'' [(''profileId'', ''playerProfileId'', False)],
      route_row ''/v1/profiles/{accountIds}'' ''profiles'' [many ''accountIds''],
      route_row ''/v1/player/{playerId}/favorites'' ''favorite-status'' [one ''playerId''],
      route_row ''/v1/announcements/{selectedTab}'' ''announcements'' [one ''selectedTab''],
      route_row ''/v1/announcement/{id}'' ''announcement'' [one ''id''],
      route_row ''/v1/gacha/{gachaId}/rates'' ''probability'' [one ''gachaId''],
      route_row ''/v1/gacha/{gachaId}/rates/{selectedPickUp}'' ''probability''
        [one ''gachaId'', many ''selectedPickUp''],
      route_row ''/v1/music/{musicId}/ranking'' ''music-ranking'' [one ''musicId''],
      route_row ''/v1/event/{eventId}/ranking/{ranks}'' ''event-ranking'' [one ''eventId'', many ''ranks''],
      route_row ''/v1/event/challenge/{challengeMusicId}/ranking'' ''challenge-ranking'' [one ''challengeMusicId''],
      route_row ''/v1/event/{eventId}/deck/{playerId}'' ''event-deck'' [one ''eventId'', one ''playerId''],
      route_row ''/v1/arena/{arenaSeasonId}/ranking/{rankingStart}/{rankingEnd}'' ''arena-ranking''
        [one ''arenaSeasonId'', one ''rankingStart'', one ''rankingEnd''],
      route_row ''/v1/arena/{arenaSeasonId}/ranking/{rankingStart}/{rankingEnd}/band/{bandId}'' ''arena-ranking''
        [one ''arenaSeasonId'', one ''rankingStart'', one ''rankingEnd'', one ''bandId''],
      route_row ''/v1/arena/{arenaSeasonId}/music/{musicId}/deck-trend'' ''deck-trend''
        [one ''arenaSeasonId'', one ''musicId''],
      route_row ''/v1/circle/{circleId}'' ''circle'' [one ''circleId''],
      route_row ''/v1/circles/search/{name}'' ''circle-search'' [(''name'', ''options.name'', False)]]"

text \<open>The query-form routes of \<open>server/src/lib.rs\<close>.\<close>

definition ROUTES :: "(string \<times> string) list" where
  "ROUTES =
     [(''/v1/announcement'', ''announcement''),
      (''/v1/announcements'', ''announcements''),
      (''/v1/arena/ranking'', ''arena-ranking''),
      (''/v1/arena/deck-trend'', ''deck-trend''),
      (''/v1/circle'', ''circle''),
      (''/v1/circles/recommended'', ''circle-recommendations''),
      (''/v1/circles/search'', ''circle-search''),
      (''/v1/event/challenge-ranking'', ''challenge-ranking''),
      (''/v1/event/deck'', ''event-deck''),
      (''/v1/event/ranking'', ''event-ranking''),
      (''/v1/profile'', ''profile''),
      (''/v1/gacha/rates'', ''probability''),
      (''/v1/music/ranking'', ''music-ranking''),
      (''/v1/profile/favorites'', ''favorite-status''),
      (''/v1/profiles'', ''profiles'')]"

fun find_map :: "('a \<Rightarrow> 'b option) \<Rightarrow> 'a list \<Rightarrow> 'b option" where
  "find_map f [] = None"
| "find_map f (x # xs) = (case f x of Some y \<Rightarrow> Some y | None \<Rightarrow> find_map f xs)"

definition method_for_path :: "string \<Rightarrow> string option" where
  "method_for_path path =
     (let unscoped = find_map (strip_prefix path) [''/v1/tw'', ''/v1/en'', ''/v1/kr'', ''/v1/jp''];
          path = (case unscoped of Some suffix \<Rightarrow> ''/v1'' @ suffix | None \<Rightarrow> path) in
      case find (\<lambda>r. r_path r = path) PATH_ROUTES of
        Some r \<Rightarrow> Some (r_method r)
      | None \<Rightarrow> map_of ROUTES path)"

definition valid_path :: "string \<Rightarrow> bool" where
  "valid_path path \<longleftrightarrow> length path \<le> 8192 \<and> well_escaped path"

text \<open>\<open>install\<close>: the routes in the order of their installation, with what they lead to.\<close>

datatype endpoint =
    PathEndpoint route "region option"
  | QueryEndpoint string region
  | MainEndpoint string
  | OpenApiPage | ReadyPage | StatusPage

definition scoped :: "region \<Rightarrow> string \<Rightarrow> string" where
  "scoped r path = ''/v1/'' @ as_str r @ strip_tokens [''/v1''] path"

definition installed_routes :: "(string \<times> endpoint) list" where
  "installed_routes =
     concat (map (\<lambda>route. map (\<lambda>region.
         ((case region of None \<Rightarrow> r_path route | Some r \<Rightarrow> scoped r (r_path route)), PathEndpoint route region))
       [None, Some Tw, Some En, Some Kr, Some Jp]) PATH_ROUTES)
     @ concat (map (\<lambda>(path, method). map (\<lambda>r. (scoped r path, QueryEndpoint method r)) [Tw, En, Kr, Jp]) ROUTES)"

section \<open>The query string of a route\<close>

definition check_value :: "string \<Rightarrow> unit outcome" where
  "check_value v = (if v = [] \<or> 8192 < length v \<or> has_control v then fail InvalidRequest else Inr ())"

definition field_pairs :: "(string \<times> string) list \<Rightarrow> string \<times> string \<times> bool \<Rightarrow> (string \<times> string) list outcome" where
  "field_pairs params = (\<lambda>(path, field, is_list).
     and_then (ok_or (map_of params path) (client_error_new InvalidRequest)) (\<lambda>v.
     and_then (check_value v) (\<lambda>_.
       if is_list then
         (let vs = split_on (CHR '','') v in
          if 100 < length vs \<or> [] \<in> set vs then fail InvalidRequest
          else Inr (map (\<lambda>w. (field, w)) vs))
       else Inr [(field, v)])))"

definition path_query ::
  "(string \<Rightarrow> (string \<times> string) list) \<Rightarrow> ((string \<times> string) list \<Rightarrow> string) \<Rightarrow> route \<Rightarrow>
     (string \<times> string) list \<Rightarrow> string option \<Rightarrow> string outcome" where
  "path_query form_parse form_encode route params raw =
     (let raw = (case raw of None \<Rightarrow> [] | Some r \<Rightarrow> r) in
      if 8192 < length raw then fail InvalidRequest
      else if list_ex (\<lambda>(key, _). list_ex (\<lambda>(_, field, _). field = key) (r_fields route)) (form_parse raw)
      then fail InvalidRequest
      else and_then (map_results (field_pairs params) (r_fields route)) (\<lambda>pairs.
        let encoded = form_encode (concat pairs);
            result = (if raw = [] then encoded else encoded @ ''&'' @ raw) in
        if 8192 < length result then fail InvalidRequest else Inr result))"

section \<open>The handlers\<close>

definition select_region :: "route \<Rightarrow> (string \<times> string) list \<Rightarrow> region option \<Rightarrow> http_response + region option" where
  "select_region route params scope =
     (if r_method route = ''profile'' then
        (case map_of params ''profileId'' of
           None \<Rightarrow> Inl (http_error (client_error_new InvalidRequest))
         | Some i \<Rightarrow>
             if scope = Some Jp then
               (if (case parse_i64 i of None \<Rightarrow> True | Some n \<Rightarrow> n \<le> 0)
                then Inl (http_error (client_error_new InvalidRequest)) else Inr (Some Jp))
             else (case from_profile_id i of
                     Inl k \<Rightarrow> Inl (error_response 400 k)
                   | Inr (inferred, _) \<Rightarrow>
                       if (case scope of None \<Rightarrow> False | Some r \<Rightarrow> r \<noteq> inferred)
                       then Inl (error_response 400 ''profile_region_mismatch'')
                       else Inr (Some inferred)))
      else Inr scope)"

text \<open>\<open>execute\<close>; the times of answers are milliseconds after the epoch.\<close>

definition render ::
  "web_library \<Rightarrow> response_mode \<Rightarrow> string \<Rightarrow> (string \<times> string) list \<Rightarrow> json cached_response \<Rightarrow> http_response" where
  "render lib mode method headers response =
     (case (if mode = Public then project (lib_pool lib) method (cr_json response) else Inr (cr_json response)) of
        Inl e \<Rightarrow> http_error e
      | Inr j \<Rightarrow> \<lparr>rs_status = 200, rs_headers = headers, rs_body = Some j\<rparr>)"

definition execute ::
  "web_library \<Rightarrow> 'p api_state \<Rightarrow> ('p \<Rightarrow> query \<Rightarrow> (json cached_response \<times> string) outcome) \<Rightarrow> string \<Rightarrow>
     string option \<Rightarrow> region option \<Rightarrow> http_response option" where
  "execute lib st ask method raw scope =
     (if \<not> permitted (api_mode st) method then Some (error_response 403 ''response_policy'')
      else (case parse_query (lib_pool lib) (lib_utf8 lib) (lib_form_parse lib) (lib_decode lib) method raw of
              None \<Rightarrow> None
            | Some (Inl e) \<Rightarrow> Some (http_error e)
            | Some (Inr q) \<Rightarrow>
                (case (case scope of None \<Rightarrow> Some (api_cache st) | Some r \<Rightarrow> region_cache (profiles st) r) of
                   None \<Rightarrow> Some (error_response 503 ''region_unconfigured'')
                 | Some pool \<Rightarrow>
                     (case ask pool q of
                        Inl e \<Rightarrow> Some (http_error e)
                      | Inr (response, status) \<Rightarrow>
                          Some (render lib (api_mode st) method
                            ([(''x-moenotes-cache'', status),
                              (''x-moenotes-fetched-at'', dec_of_nat (cr_fetched_at response))]
                             @ (case scope of None \<Rightarrow> [] | Some r \<Rightarrow> [(''x-moenotes-region'', as_str r)])) response)))))"

text \<open>
  The handler of a readable route: \<open>uri\<close> is the path of the request, \<open>params\<close> its captured
  parameters if they decode, \<open>body_empty\<close> says that the body was read and is empty.
\<close>

definition path_handler ::
  "web_library \<Rightarrow> 'p api_state \<Rightarrow> ('p \<Rightarrow> query \<Rightarrow> (json cached_response \<times> string) outcome) \<Rightarrow> route \<Rightarrow>
     region option \<Rightarrow> string \<Rightarrow> (string \<times> string) list option \<Rightarrow> string option \<Rightarrow> bool \<Rightarrow> http_response option" where
  "path_handler lib st ask route scope uri params raw body_empty =
     (if \<not> valid_path uri then Some (http_error (client_error_new InvalidRequest))
      else (case params of
              None \<Rightarrow> Some (http_error (client_error_new InvalidRequest))
            | Some params \<Rightarrow>
                if \<not> body_empty then Some (http_error (client_error_new InvalidRequest))
                else (case path_query (lib_form_parse lib) (lib_form_encode lib) route params raw of
                        Inl e \<Rightarrow> Some (http_error e)
                      | Inr raw \<Rightarrow>
                          (case select_region route params scope of
                             Inl r \<Rightarrow> Some r
                           | Inr selected \<Rightarrow> execute lib st ask (r_method route) (Some raw) selected))))"

definition query_handler ::
  "web_library \<Rightarrow> 'p api_state \<Rightarrow> ('p \<Rightarrow> query \<Rightarrow> (json cached_response \<times> string) outcome) \<Rightarrow> string \<Rightarrow>
     region \<Rightarrow> string option \<Rightarrow> bool \<Rightarrow> http_response option" where
  "query_handler lib st ask method scope raw body_empty =
     (if \<not> body_empty then Some (http_error (client_error_new InvalidRequest))
      else execute lib st ask method raw (Some scope))"

section \<open>Facts\<close>

definition endpoint_method :: "endpoint \<Rightarrow> string option" where
  "endpoint_method e =
     (case e of PathEndpoint r _ \<Rightarrow> Some (r_method r) | QueryEndpoint m _ \<Rightarrow> Some m | MainEndpoint m \<Rightarrow> Some m
      | _ \<Rightarrow> None)"

text \<open>The values a path parameter stands for.\<close>

definition path_values :: "bool \<Rightarrow> string \<Rightarrow> string list" where
  "path_values is_list v = (if is_list then split_on (CHR '','') v else [v])"

lemma field_pairs_Inr:
  assumes "field_pairs params (path, field, is_list) = Inr ps"
  shows "\<exists>v. map_of params path = Some v \<and> v \<noteq> [] \<and> \<not> has_control v \<and> ps = map (Pair field) (path_values is_list v)"
  using assms
  by (auto simp: field_pairs_def check_value_def path_values_def result_simps Let_def split: if_split_asm)

lemma path_query_Inr:
  assumes "path_query fp fe route params raw = Inr out"
  shows "\<exists>pairs. map_results (field_pairs params) (r_fields route) = Inr pairs \<and> length out \<le> 8192
    \<and> out = fe (concat pairs) @ (case raw of None \<Rightarrow> [] | Some r \<Rightarrow> if r = [] then [] else CHR ''&'' # r)
    \<and> (\<forall>(path, field, l) \<in> set (r_fields route). field \<notin> fst ` set (fp (case raw of None \<Rightarrow> [] | Some r \<Rightarrow> r)))"
  using assms
  by (cases raw) (fastforce simp: path_query_def Let_def result_simps list_ex_iff split: if_split_asm)+

lemma pairs_of_field:
  assumes "map_results (field_pairs params) rows = Inr pairs" "(path, field, l) \<in> set rows"
    "distinct (map (fst \<circ> snd) rows)"
  shows "\<exists>v. map_of params path = Some v \<and> v \<noteq> []
    \<and> filter (\<lambda>kv. fst kv = field) (concat pairs) = map (Pair field) (path_values l v)"
  using assms
proof (induction rows arbitrary: pairs)
  case (Cons x rows)
  obtain p' f' l' where x: "x = (p', f', l')" by (cases x)
  from Cons.prems(1) obtain ps pairs' where ps: "field_pairs params (p', f', l') = Inr ps"
    "map_results (field_pairs params) rows = Inr pairs'" "pairs = ps # pairs'"
    by (auto simp: result_simps x)
  from field_pairs_Inr [OF ps(1)] obtain v where v: "map_of params p' = Some v" "v \<noteq> []"
    "ps = map (Pair f') (path_values l' v)" by blast
  show ?case
  proof (cases "(path, field, l) = x")
    case True
    have "filter (\<lambda>kv. fst kv = field) (concat pairs') = []"
    proof -
      have "fst kv \<noteq> field" if "kv \<in> set (concat pairs')" for kv
      proof -
        from that have "\<exists>q\<in>set pairs'. kv \<in> set q" by (simp only: set_concat UN_iff)
        then obtain q where q: "q \<in> set pairs'" "kv \<in> set q" by blast
        with map_results_member [OF ps(2)] obtain y where y: "y \<in> set rows" "field_pairs params y = Inr q"
          by blast
        moreover obtain a b c where "y = (a, b, c)" by (cases y)
        ultimately have "fst kv = b" "(a, b, c) \<in> set rows" using field_pairs_Inr [of params a b c q] q(2) by auto
        with Cons.prems(3) x True show ?thesis by (force simp: image_iff)
      qed
      then show ?thesis by (simp only: filter_empty_conv) blast
    qed
    with v ps(3) x True show ?thesis by (auto simp: filter_map comp_def)
  next
    case False
    then have rest: "(path, field, l) \<in> set rows" using Cons.prems(2) by auto
    with Cons.prems(3) x have "f' \<noteq> field" by (force simp: image_iff)
    then have "filter (\<lambda>kv. fst kv = field) ps = []" by (simp add: v(3) filter_map comp_def)
    with Cons.IH [OF ps(2) rest] Cons.prems(3) ps(3) show ?thesis by simp
  qed
qed simp

lemma route_fields_distinct:
  "route \<in> set PATH_ROUTES \<Longrightarrow> distinct (map (fst \<circ> snd) (r_fields route))"
  by (auto simp: PATH_ROUTES_def)

lemma map_results_values: "map_results (\<lambda>kv. g (snd kv)) (map (Pair k) xs) = map_results g xs"
  by (induction xs) simp_all

lemma params_object_Inr:
  "params_object utf8 fp declared name raw = Inr obj \<Longrightarrow>
     add_params declared 0 (fp raw) (if name = ''circle-search'' then [(''options'', Object [])] else []) = Inr obj"
  by (auto simp: params_object_def invalid_def split: if_split_asm)

lemma select_region_profile:
  assumes "select_region route params scope = Inr selected" "r_method route = ''profile''"
  shows "\<exists>i r. map_of params ''profileId'' = Some i \<and> selected = Some r \<and> (scope = None \<or> scope = Some r)
    \<and> (scope = Some Jp \<and> (\<exists>n>0. parse_i64 i = Some n) \<or> (\<exists>n. from_profile_id i = Inr (r, n)))"
proof -
  from assms obtain i where i: "map_of params ''profileId'' = Some i"
    by (auto simp: select_region_def split: option.split_asm)
  show ?thesis
  proof (cases "scope = Some Jp")
    case True
    with assms i show ?thesis by (auto simp: select_region_def split: option.split_asm if_split_asm)
  next
    case False
    with assms i show ?thesis
      by (cases "from_profile_id i") (auto simp: select_region_def split: option.split_asm if_split_asm)
  qed
qed

section \<open>A sample form encoding\<close>

text \<open>
  A concrete instance of the form parser and serializer for the witnesses: every byte is
  written as two letters, so that the separators never occur in a name or a value.
\<close>

fun letters :: "string \<Rightarrow> string" where
  "letters [] = []"
| "letters (c # s) = char_of (97 + byte c div 16) # char_of (97 + byte c mod 16) # letters s"

fun unletters :: "string \<Rightarrow> string" where
  "unletters (a # b # s) = char_of ((byte a - 97) * 16 + (byte b - 97)) # unletters s"
| "unletters _ = []"

definition sample_encode :: "(string \<times> string) list \<Rightarrow> string" where
  "sample_encode ps = join_with ''&'' (map (\<lambda>(k, v). letters k @ ''='' @ letters v) ps)"

definition sample_parse :: "string \<Rightarrow> (string \<times> string) list" where
  "sample_parse s = map (\<lambda>p. case split_once (CHR ''='') p of Some (k, v) \<Rightarrow> (unletters k, unletters v)
       | None \<Rightarrow> (unletters p, []))
     (filter (\<lambda>p. p \<noteq> []) (split_on (CHR ''&'') s))"

lemma letter_codes: "97 + byte c div 16 < 256" "97 + byte c mod 16 < 256"
  using byte_less [of c] by presburger+

lemma unletters_letters: "unletters (letters s) = s"
proof (induction s)
  case (Cons c s)
  with letter_codes [of c] show ?case by simp
qed simp

lemma letters_plain: "c \<in> set (letters s) \<Longrightarrow> 97 \<le> byte c"
proof (induction s)
  case (Cons d s)
  with letter_codes [of d] show ?case by auto
qed simp

lemma letters_no_separator: "CHR ''&'' \<notin> set (letters s)" "CHR ''='' \<notin> set (letters s)"
  using letters_plain [of "CHR ''&''" s] letters_plain [of "CHR ''=''" s] by (auto simp: byte_def)

lemma sample_parse_pair:
  "sample_parse (letters k @ CHR ''='' # letters v) = [(k, v)]"
  "sample_parse (letters k @ CHR ''='' # letters v @ CHR ''&'' # s) = (k, v) # sample_parse s"
proof -
  have one: "split_once (CHR ''='') (letters k @ CHR ''='' # letters v) = Some (letters k, letters v)"
    by (simp add: split_once_Some letters_no_separator)
  have "CHR ''&'' \<notin> set (letters k @ CHR ''='' # letters v)" by (simp add: letters_no_separator)
  then have "split_on (CHR ''&'') (letters k @ CHR ''='' # letters v) = [letters k @ CHR ''='' # letters v]"
    "split_on (CHR ''&'') ((letters k @ CHR ''='' # letters v) @ CHR ''&'' # s)
       = (letters k @ CHR ''='' # letters v) # split_on (CHR ''&'') s"
    by (rule split_on_no_sep, rule split_on_append_sep)
  with one show "sample_parse (letters k @ CHR ''='' # letters v) = [(k, v)]"
    "sample_parse (letters k @ CHR ''='' # letters v @ CHR ''&'' # s) = (k, v) # sample_parse s"
    by (simp_all add: sample_parse_def unletters_letters)
qed

lemma sample_form_law:
  "sample_parse (sample_encode ps @ (if raw = [] then [] else CHR ''&'' # raw)) = ps @ sample_parse raw"
proof (induction ps rule: induct_list012)
  case 1
  then show ?case by (simp add: sample_encode_def sample_parse_def)
next
  case (2 x)
  then show ?case by (cases x) (simp add: sample_encode_def sample_parse_pair, simp add: sample_parse_def)
next
  case (3 x y zs)
  then show ?case by (cases x) (auto simp: sample_encode_def sample_parse_pair)
qed

section \<open>Properties\<close>



text \<open>
  a profile is only ever asked for at the region its number belongs to.  The selected
  region is the one named by the number, the explicit region of the path cannot contradict it,
  and only the explicit region JP takes numbers without a region digit.
\<close>

theorem profile_is_asked_at_its_region:
  assumes "select_region route params scope = Inr selected" "r_method route = ''profile''"
  shows "\<exists>i r. map_of params ''profileId'' = Some i \<and> selected = Some r \<and> (scope = None \<or> scope = Some r)
    \<and> (scope = Some Jp \<and> (\<exists>n>0. parse_i64 i = Some n) \<or> (\<exists>n. from_profile_id i = Inr (r, n)))"
  by (rule select_region_profile [OF assms])

theorem profile_is_asked_at_its_region_witness:
  "\<exists>i r. map_of [(''profileId'', ''30000000001'')] ''profileId'' = Some i \<and> Some En = Some r"
proof -
  have "from_profile_id ''30000000001'' = Inr (En, 30000000001)"
    by (simp add: from_profile_id_def text_eval)
  then have "select_region (route_row ''/v1/profile/{profileId}'' ''profile'' [(''profileId'', ''playerProfileId'', False)])
      [(''profileId'', ''30000000001'')] None = Inr (Some En)"
    by (simp add: select_region_def)
  from profile_is_asked_at_its_region [OF this] show ?thesis by auto
qed

end
