(* ===== verification/Gateway.thy ===== *)
theory Gateway
  imports Path_Routes
begin

text \<open>
  The HTTP gateway (\<open>server/src/lib.rs\<close>, \<open>server/src/diagnostics.rs\<close>): its construction, the
  bearer key and the 64 admission permits, the handlers, the counters around every request, and
  the interleavings of concurrent requests.  Matching a request to a route is the framework's;
  a request comes with the route it was matched to.
\<close>

section \<open>Construction\<close>

definition valid_api_key :: "string \<Rightarrow> bool" where
  "valid_api_key k \<longleftrightarrow>
     \<not> (length k < 32 \<or> 4096 < length k \<or> \<not> list_all is_ascii k
        \<or> list_ex (\<lambda>c. is_ascii_whitespace c \<or> is_ascii_control c) k)"

record router_options =
  ro_mode :: response_mode
  ro_access_log :: bool

definition router_with_regions ::
  "web_library \<Rightarrow> 's \<Rightarrow> string \<Rightarrow> router_options \<Rightarrow> cache_options \<Rightarrow> bool \<Rightarrow> 's pool region_clients \<Rightarrow>
     's pool api_state outcome" where
  "router_with_regions lib client api_key ro opts stopped regions =
     and_then (options_validate opts) (\<lambda>_.
       if \<not> valid_api_key api_key then fail InvalidConfig
       else and_then (case default_cache regions of
                        Some pool \<Rightarrow> Inr pool
                      | None \<Rightarrow> pool_new opts [client] stopped) (\<lambda>pool.
         Inr \<lparr>api_cache = pool, key_hash = lib_sha256 lib api_key, api_mode = ro_mode ro,
              access_log = ro_access_log ro, profiles = regions\<rparr>))"

definition router_with_options ::
  "web_library \<Rightarrow> 's \<Rightarrow> string \<Rightarrow> router_options \<Rightarrow> cache_options \<Rightarrow> bool \<Rightarrow> 's pool api_state outcome" where
  "router_with_options lib client api_key ro opts stopped =
     router_with_regions lib client api_key ro opts stopped default_clients"

definition router ::
  "web_library \<Rightarrow> 's \<Rightarrow> string \<Rightarrow> bool \<Rightarrow> cache_options \<Rightarrow> bool \<Rightarrow> 's pool api_state outcome" where
  "router lib client api_key enable_raw opts stopped =
     router_with_options lib client api_key
       \<lparr>ro_mode = (if enable_raw then Raw else Disabled), ro_access_log = False\<rparr> opts stopped"

text \<open>The protected routes; without a response mode there are only the support pages.\<close>

definition protected_routes :: "response_mode \<Rightarrow> (string \<times> endpoint) list" where
  "protected_routes mode =
     [(''/openapi.json'', OpenApiPage), (''/readyz'', ReadyPage), (''/v1/status'', StatusPage)]
     @ (if mode \<noteq> Disabled then installed_routes @ map (\<lambda>(path, name). (path, MainEndpoint name)) ROUTES else [])"

section \<open>Requests and counters\<close>

datatype http_method = Get | Head

record request =
  rq_http :: http_method
  rq_uri :: string
  rq_endpoint :: endpoint
  rq_params :: "(string \<times> string) list option"
  rq_query :: "string option"
  rq_auth :: "string option list"
  rq_body_empty :: bool

record diagnostics =
  d_start :: nat
  d_requests :: u64
  d_errors :: u64
  d_inflight :: u64

definition diagnostics_begin :: "diagnostics \<Rightarrow> diagnostics" where
  "diagnostics_begin d = d\<lparr>d_requests := d_requests d + 1, d_inflight := d_inflight d + 1\<rparr>"

definition diagnostics_error :: "diagnostics \<Rightarrow> diagnostics" where
  "diagnostics_error d = d\<lparr>d_errors := d_errors d + 1\<rparr>"

definition guard_drop :: "diagnostics \<Rightarrow> diagnostics" where
  "guard_drop d = d\<lparr>d_inflight := d_inflight d - 1\<rparr>"

definition diagnostics_snapshot :: "nat \<Rightarrow> diagnostics \<Rightarrow> json" where
  "diagnostics_snapshot now d =
     Object [(''uptime_seconds'', Number (dec_of_nat ((now - d_start d) div 1000))),
             (''requests'', Number (dec_of_nat (unat (d_requests d)))),
             (''errors'', Number (dec_of_nat (unat (d_errors d)))),
             (''inflight'', Number (dec_of_nat (unat (d_inflight d))))]"

section \<open>Authentication\<close>

definition bearer_token :: "string option list \<Rightarrow> string option" where
  "bearer_token values = (case values of [Some v] \<Rightarrow> strip_prefix v ''Bearer '' | _ \<Rightarrow> None)"

definition authorized :: "web_library \<Rightarrow> 'p api_state \<Rightarrow> string option list \<Rightarrow> bool" where
  "authorized lib st values =
     (case bearer_token values of
        None \<Rightarrow> False
      | Some v \<Rightarrow> length v \<le> 4096 \<and> lib_sha256 lib v = key_hash st)"

definition unauthorized_response :: http_response where
  "unauthorized_response =
     \<lparr>rs_status = 401, rs_headers = [(''cache-control'', ''no-store''), (''www-authenticate'', ''Bearer'')],
      rs_body = Some (error_body ''unauthorized'')\<rparr>"

text \<open>\<open>authenticate\<close>: an answer of its own, or a permit and on to the handler.\<close>

definition authenticate :: "web_library \<Rightarrow> 'p api_state \<Rightarrow> nat \<Rightarrow> string option list \<Rightarrow> http_response + nat" where
  "authenticate lib st free values =
     (if \<not> authorized lib st values then Inl unauthorized_response
      else if free = 0 then Inl (http_error (client_error_new QueueFull))
      else Inr (free - 1))"

section \<open>Handlers\<close>

definition main_handler ::
  "web_library \<Rightarrow> 'p api_state \<Rightarrow> ('p \<Rightarrow> query \<Rightarrow> (json cached_response \<times> string) outcome) \<Rightarrow> string \<Rightarrow>
     string option \<Rightarrow> bool \<Rightarrow> http_response option" where
  "main_handler lib st ask name raw body_empty =
     (if \<not> body_empty then Some (http_error (client_error_new InvalidRequest))
      else if \<not> permitted (api_mode st) name
      then Some \<lparr>rs_status = 403, rs_headers = [(''cache-control'', ''no-store'')],
                 rs_body = Some (error_body ''response_policy'')\<rparr>
      else (case parse_query (lib_pool lib) (lib_utf8 lib) (lib_form_parse lib) (lib_decode lib) name raw of
              None \<Rightarrow> None
            | Some (Inl e) \<Rightarrow> Some (http_error e)
            | Some (Inr q) \<Rightarrow>
                (case ask (api_cache st) q of
                   Inl e \<Rightarrow> Some (http_error e)
                 | Inr (response, status) \<Rightarrow>
                     Some (render lib (api_mode st) name
                       [(''cache-control'', ''no-store''), (''x-moenotes-cache'', status),
                        (''x-moenotes-fetched-at'', dec_of_nat (cr_fetched_at response))] response))))"

text \<open>
  The support pages, from what the session pools report: readiness, status documents, and the
  generated API description.
\<close>

record 'p views =
  v_openapi :: "response_mode \<Rightarrow> json"
  v_ready :: "'p \<Rightarrow> bool"
  v_status :: "'p \<Rightarrow> json"
  v_single :: "'p \<Rightarrow> json"
  v_version :: string

fun mode_name :: "response_mode \<Rightarrow> string" where
  "mode_name Disabled = ''disabled''"
| "mode_name Public = ''public''"
| "mode_name Raw = ''raw''"

definition json_response :: "nat \<Rightarrow> json \<Rightarrow> http_response" where
  "json_response status j = \<lparr>rs_status = status, rs_headers = [], rs_body = Some j\<rparr>"

definition region_status_doc :: "'p views \<Rightarrow> 'p \<Rightarrow> json" where
  "region_status_doc v p =
     Object [(''ready'', Bool (v_ready v p)), (''session'', v_single v p), (''pool'', v_status v p)]"

definition status_page :: "'p views \<Rightarrow> 'p api_state \<Rightarrow> nat \<Rightarrow> diagnostics \<Rightarrow> http_response" where
  "status_page v st now d =
     json_response 200
       (Object [(''version'', String (v_version v)), (''responseMode'', String (mode_name (api_mode st))),
                (''session'', v_single v (api_cache st)), (''pool'', v_status v (api_cache st)),
                (''regions'', regions_status (region_status_doc v) (profiles st)),
                (''diagnostics'', diagnostics_snapshot now d)])"

definition ready_page :: "'p views \<Rightarrow> 'p api_state \<Rightarrow> http_response" where
  "ready_page v st =
     (let ready = v_ready v (api_cache st) in
      json_response (if ready then 200 else 503) (Object [(''ready'', Bool ready)]))"

text \<open>HEAD runs the GET handler of a support page and loses the body.\<close>

definition head_only :: "http_method \<Rightarrow> http_response \<Rightarrow> http_response" where
  "head_only m r = (if m = Head then r\<lparr>rs_body := None\<rparr> else r)"

definition handle ::
  "web_library \<Rightarrow> 'p views \<Rightarrow> 'p api_state \<Rightarrow> ('p \<Rightarrow> query \<Rightarrow> (json cached_response \<times> string) outcome) \<Rightarrow>
     nat \<Rightarrow> diagnostics \<Rightarrow> request \<Rightarrow> http_response option" where
  "handle lib v st ask now d rq =
     (case rq_endpoint rq of
        OpenApiPage \<Rightarrow> Some (head_only (rq_http rq) (json_response 200 (v_openapi v (api_mode st))))
      | ReadyPage \<Rightarrow> Some (head_only (rq_http rq) (ready_page v st))
      | StatusPage \<Rightarrow> Some (head_only (rq_http rq) (status_page v st now d))
      | PathEndpoint route scope \<Rightarrow>
          if rq_http rq = Head then Some method_not_allowed
          else path_handler lib st ask route scope (rq_uri rq) (rq_params rq) (rq_query rq) (rq_body_empty rq)
      | QueryEndpoint method scope \<Rightarrow>
          if rq_http rq = Head then Some method_not_allowed
          else query_handler lib st ask method scope (rq_query rq) (rq_body_empty rq)
      | MainEndpoint name \<Rightarrow>
          if rq_http rq = Head then Some method_not_allowed
          else main_handler lib st ask name (rq_query rq) (rq_body_empty rq))"

section \<open>Around every request\<close>

definition header_insert :: "string \<Rightarrow> string \<Rightarrow> (string \<times> string) list \<Rightarrow> (string \<times> string) list" where
  "header_insert k v hs = alist_remove k hs @ [(k, v)]"

text \<open>The route name of the access log.\<close>

definition logged_route :: "string \<Rightarrow> string option \<Rightarrow> string" where
  "logged_route uri matched =
     (case map_of ROUTES uri of
        Some name \<Rightarrow> name
      | None \<Rightarrow> (case Option.bind matched method_for_path of
                   Some name \<Rightarrow> name
                 | None \<Rightarrow> ''support_or_unknown''))"

text \<open>What \<open>diagnose\<close> does with the answer: counting errors, request id and cache control.\<close>

definition is_error_status :: "nat \<Rightarrow> bool" where
  "is_error_status s \<longleftrightarrow> 400 \<le> s \<and> s < 600"

definition diagnose_end :: "string \<Rightarrow> http_response \<Rightarrow> diagnostics \<Rightarrow> http_response \<times> diagnostics" where
  "diagnose_end i r d =
     (r\<lparr>rs_headers := header_insert ''cache-control'' ''no-store'' (header_insert ''x-request-id'' i (rs_headers r))\<rparr>,
      guard_drop (if is_error_status (rs_status r) then diagnostics_error d else d))"

section \<open>Concurrent requests\<close>

text \<open>
  Requests under way, by an identity of each: waiting for authentication, or running behind
  it with a permit.  \<open>gw_entered\<close> and \<open>gw_answers\<close> record what has happened.
\<close>

record gateway =
  gw_free :: nat
  gw_diagnostics :: diagnostics
  gw_waiting :: "(nat \<times> request) list"
  gw_running :: "(nat \<times> request) list"
  gw_entered :: "request list"
  gw_answers :: "(request \<times> http_response) list"

definition gateway_start :: "nat \<Rightarrow> gateway" where
  "gateway_start now =
     \<lparr>gw_free = 64, gw_diagnostics = \<lparr>d_start = now, d_requests = 0, d_errors = 0, d_inflight = 0\<rparr>,
      gw_waiting = [], gw_running = [], gw_entered = [], gw_answers = []\<rparr>"

definition gw_begin :: "nat \<Rightarrow> request \<Rightarrow> gateway \<Rightarrow> gateway" where
  "gw_begin i rq w =
     w\<lparr>gw_diagnostics := diagnostics_begin (gw_diagnostics w), gw_waiting := (i, rq) # gw_waiting w\<rparr>"

definition gw_answer :: "string \<Rightarrow> request \<Rightarrow> http_response \<Rightarrow> gateway \<Rightarrow> gateway" where
  "gw_answer uuid rq r w =
     (case diagnose_end uuid r (gw_diagnostics w) of
        (r', d) \<Rightarrow> w\<lparr>gw_diagnostics := d, gw_answers := (rq, r') # gw_answers w\<rparr>)"

text \<open>A request that got no answer: its connection went away or its handler failed.\<close>

definition gw_gone :: "gateway \<Rightarrow> gateway" where
  "gw_gone w = w\<lparr>gw_diagnostics := guard_drop (gw_diagnostics w)\<rparr>"

definition stop_waiting :: "nat \<Rightarrow> gateway \<Rightarrow> gateway" where
  "stop_waiting i w = w\<lparr>gw_waiting := alist_remove i (gw_waiting w)\<rparr>"

definition enter :: "nat \<Rightarrow> request \<Rightarrow> nat \<Rightarrow> gateway \<Rightarrow> gateway" where
  "enter i rq free w =
     w\<lparr>gw_free := free, gw_running := (i, rq) # gw_running w, gw_entered := rq # gw_entered w\<rparr>"

definition release :: "nat \<Rightarrow> gateway \<Rightarrow> gateway" where
  "release i w = w\<lparr>gw_free := gw_free w + 1, gw_running := alist_remove i (gw_running w)\<rparr>"

inductive gateway_step :: "web_library \<Rightarrow> 'p views \<Rightarrow> 'p api_state \<Rightarrow> gateway \<Rightarrow> gateway \<Rightarrow> bool"
  for lib :: web_library and v :: "'p views" and st :: "'p api_state" where
  arrive: "i \<notin> fst ` set (gw_waiting w) \<Longrightarrow> i \<notin> fst ` set (gw_running w) \<Longrightarrow>
     gateway_step lib v st w (gw_begin i rq w)"
| refuse: "map_of (gw_waiting w) i = Some rq \<Longrightarrow>
     authenticate lib st (gw_free w) (rq_auth rq) = Inl r \<Longrightarrow>
     gateway_step lib v st w (gw_answer uuid rq r (stop_waiting i w))"
| admit: "map_of (gw_waiting w) i = Some rq \<Longrightarrow>
     authenticate lib st (gw_free w) (rq_auth rq) = Inr free \<Longrightarrow>
     gateway_step lib v st w (enter i rq free (stop_waiting i w))"
| answer: "map_of (gw_running w) i = Some rq \<Longrightarrow>
     handle lib v st ask now (gw_diagnostics w) rq = Some r \<Longrightarrow>
     gateway_step lib v st w (gw_answer uuid rq r (release i w))"
| gone_waiting: "map_of (gw_waiting w) i = Some rq \<Longrightarrow> gateway_step lib v st w (gw_gone (stop_waiting i w))"
| gone_running: "map_of (gw_running w) i = Some rq \<Longrightarrow> gateway_step lib v st w (gw_gone (release i w))"

inductive gateway_reachable :: "web_library \<Rightarrow> 'p views \<Rightarrow> 'p api_state \<Rightarrow> gateway \<Rightarrow> bool"
  for lib :: web_library and v :: "'p views" and st :: "'p api_state" where
  start: "gateway_reachable lib v st (gateway_start now)"
| step: "gateway_reachable lib v st w \<Longrightarrow> gateway_step lib v st w w' \<Longrightarrow> gateway_reachable lib v st w'"

section \<open>The invariant\<close>

lemmas gateway_ops = gw_begin_def gw_answer_def gw_gone_def stop_waiting_def enter_def release_def
  diagnose_end_def guard_drop_def diagnostics_begin_def diagnostics_error_def

text \<open>What a request must present: a single header with a bearer token of the right digest.\<close>

definition key_presented :: "web_library \<Rightarrow> 'p api_state \<Rightarrow> request \<Rightarrow> bool" where
  "key_presented lib st rq \<longleftrightarrow>
     (\<exists>v. rq_auth rq = [Some (''Bearer '' @ v)] \<and> length v \<le> 4096 \<and> lib_sha256 lib v = key_hash st)"

lemma key_presented_authorized: "authorized lib st (rq_auth rq) \<longleftrightarrow> key_presented lib st rq"
proof -
  have "strip_prefix x ''Bearer '' = Some v \<longleftrightarrow> x = ''Bearer '' @ v" for x v by (rule strip_prefix_Some)
  then show ?thesis
    by (cases "bearer_token (rq_auth rq)")
      (auto simp: authorized_def bearer_token_def key_presented_def simp del: append_Cons split: list.split_asm option.split_asm,
       (metis option.distinct(1))?)
qed

definition answered_properly :: "web_library \<Rightarrow> 'p api_state \<Rightarrow> request \<times> http_response \<Rightarrow> bool" where
  "answered_properly lib st a \<longleftrightarrow>
     (''cache-control'', ''no-store'') \<in> set (rs_headers (snd a))
     \<and> (key_presented lib st (fst a) \<or> rs_status (snd a) = 401 \<and> rs_body (snd a) = Some (error_body ''unauthorized''))"

definition gateway_inv :: "web_library \<Rightarrow> 'p api_state \<Rightarrow> gateway \<Rightarrow> bool" where
  "gateway_inv lib st w \<longleftrightarrow>
     distinct (map fst (gw_waiting w)) \<and> distinct (map fst (gw_running w))
     \<and> fst ` set (gw_waiting w) \<inter> fst ` set (gw_running w) = {}
     \<and> gw_free w + length (gw_running w) = 64
     \<and> d_inflight (gw_diagnostics w) = of_nat (length (gw_waiting w) + length (gw_running w))
     \<and> list_all (key_presented lib st) (gw_entered w)
     \<and> snd ` set (gw_running w) \<subseteq> set (gw_entered w)
     \<and> list_all (answered_properly lib st) (gw_answers w)"

lemma length_alist_remove:
  "distinct (map fst xs) \<Longrightarrow> map_of xs i = Some x \<Longrightarrow> Suc (length (alist_remove i xs)) = length xs"
proof (induction xs)
  case (Cons y ys)
  show ?case
  proof (cases "fst y = i")
    case True
    with Cons.prems have "i \<notin> fst ` set ys" by auto
    then have "alist_remove i ys = ys" by (force simp: alist_remove_def filter_id_conv)
    with True show ?thesis by (simp add: alist_remove_def split_beta)
  next
    case False
    with Cons show ?thesis by (cases y) (auto simp: alist_remove_def)
  qed
qed simp

lemma authenticate_Inr:
  "authenticate lib st free values = Inr free' \<longleftrightarrow> authorized lib st values \<and> free = Suc free'"
  by (auto simp: authenticate_def)

lemma authenticate_Inl:
  "authenticate lib st free values = Inl r \<Longrightarrow>
     \<not> authorized lib st values \<and> r = unauthorized_response \<or> authorized lib st values"
  by (auto simp: authenticate_def split: if_split_asm)

lemma removed_subset: "snd ` set (alist_remove i xs) \<subseteq> snd ` set xs"
  by (auto simp: alist_remove_def)

lemma answer_no_store: "(''cache-control'', ''no-store'') \<in> set (rs_headers (fst (diagnose_end uuid r d)))"
  by (simp add: diagnose_end_def header_insert_def)

lemma gateway_inv_gone:
  assumes "gateway_inv lib st w"
  shows "map_of (gw_waiting w) i = Some rq \<Longrightarrow> gateway_inv lib st (gw_gone (stop_waiting i w))"
    and "map_of (gw_running w) i = Some rq \<Longrightarrow> gateway_inv lib st (gw_gone (release i w))"
proof -
  show "gateway_inv lib st (gw_gone (stop_waiting i w))" if "map_of (gw_waiting w) i = Some rq"
    using assms that length_alist_remove [of "gw_waiting w" i rq, symmetric]
    by (auto simp add: gateway_inv_def gateway_ops)
  show "gateway_inv lib st (gw_gone (release i w))" if "map_of (gw_running w) i = Some rq"
    using assms that length_alist_remove [of "gw_running w" i rq, symmetric]
      subset_trans [OF removed_subset [of i "gw_running w"]]
    by (simp add: gateway_inv_def gateway_ops) blast
qed

text \<open>Answering is going away, with one more answer recorded and the error counter moved.\<close>

lemma gateway_inv_answer:
  assumes "gateway_inv lib st (gw_gone w)" "answered_properly lib st (rq, fst (diagnose_end uuid r (gw_diagnostics w)))"
  shows "gateway_inv lib st (gw_answer uuid rq r w)"
  using assms by (simp add: gateway_inv_def gateway_ops)

lemma diagnose_keeps: "rs_status (fst (diagnose_end uuid r d)) = rs_status r" "rs_body (fst (diagnose_end uuid r d)) = rs_body r"
  by (simp_all add: diagnose_end_def)

lemma gateway_step_inv:
  assumes "gateway_step lib v st w w'" "gateway_inv lib st w"
  shows "gateway_inv lib st w'"
  using assms
proof cases
  case (arrive i rq)
  then show ?thesis using assms(2) by (auto simp add: gateway_inv_def gateway_ops)
next
  case (refuse i rq r uuid)
  have "answered_properly lib st (rq, fst (diagnose_end uuid r d))" for d
    using authenticate_Inl [OF refuse(3)] answer_no_store
    by (auto simp: answered_properly_def key_presented_authorized diagnose_keeps unauthorized_response_def)
  then show ?thesis
    unfolding refuse(1) by (rule gateway_inv_answer [OF gateway_inv_gone(1) [OF assms(2) refuse(2)]])
next
  case (admit i rq free)
  have "i \<in> fst ` set (gw_waiting w)" using admit(2) by (metis fst_conv image_eqI map_of_SomeD)
  with assms(2) have "i \<notin> fst ` set (gw_running w)" by (auto simp: gateway_inv_def)
  with admit show ?thesis
    using assms(2) length_alist_remove [of "gw_waiting w" i rq, symmetric]
    by (auto simp: gateway_inv_def gateway_ops authenticate_Inr key_presented_authorized image_iff)
next
  case (answer i rq ask now r uuid)
  have "rq \<in> set (gw_entered w)"
    using assms(2) answer(2) by (force simp: gateway_inv_def dest: map_of_SomeD)
  then have "key_presented lib st rq" using assms(2) by (simp add: gateway_inv_def list_all_iff)
  then have "answered_properly lib st (rq, fst (diagnose_end uuid r d))" for d
    using answer_no_store by (simp add: answered_properly_def)
  then show ?thesis
    unfolding answer(1) by (rule gateway_inv_answer [OF gateway_inv_gone(2) [OF assms(2) answer(2)]])
next
  case (gone_waiting i rq)
  then show ?thesis using gateway_inv_gone(1) [OF assms(2)] by simp
next
  case (gone_running i rq)
  then show ?thesis using gateway_inv_gone(2) [OF assms(2)] by simp
qed

lemma gateway_reachable_inv: "gateway_reachable lib v st w \<Longrightarrow> gateway_inv lib st w"
proof (induction rule: gateway_reachable.induct)
  case (start now)
  then show ?case by (simp add: gateway_inv_def gateway_start_def)
qed (rule gateway_step_inv)

section \<open>Public answers\<close>

definition public_answer :: "web_library \<Rightarrow> string \<Rightarrow> http_response \<Rightarrow> bool" where
  "public_answer lib method r \<longleftrightarrow> rs_status r \<noteq> 200 \<or>
     (method \<noteq> ''circle-recommendations'' \<and> (\<exists>m j. find_method method = Some m \<and> rs_body r = Some j
        \<and> public_object (lib_pool lib) (m_output m) j))"

lemma error_not_ok [simp]: "rs_status (http_error e) \<noteq> 200"
  using error_status_error [of "kind e"] by (simp add: http_error_def)

lemma public_answer_error [simp]:
  "public_answer lib method (http_error e)"
  "n \<noteq> 200 \<Longrightarrow> public_answer lib method (error_response n k)"
  "n \<noteq> 200 \<Longrightarrow> public_answer lib method \<lparr>rs_status = n, rs_headers = hs, rs_body = b\<rparr>"
  "public_answer lib method method_not_allowed"
  by (simp_all add: public_answer_def error_response_def method_not_allowed_def)

lemma render_public:
  assumes "permitted Public method"
  shows "public_answer lib method (render lib Public method hs response)"
proof (cases "project (lib_pool lib) method (cr_json response)")
  case (Inr j)
  then obtain m where "find_method method = Some m" "project_object (lib_pool lib) (m_output m) (cr_json response) = Inr j"
    by (auto simp: project_Inr)
  with Inr assms projection_public(1) show ?thesis
    by (auto simp: render_def public_answer_def permitted_def)
qed (simp add: render_def)

lemma execute_public:
  "execute lib st ask method raw scope = Some r \<Longrightarrow> api_mode st = Public \<Longrightarrow> public_answer lib method r"
  by (auto simp: execute_def render_public split: if_split_asm option.split_asm sum.split_asm prod.split_asm)

lemma main_public:
  "main_handler lib st ask name raw b = Some r \<Longrightarrow> api_mode st = Public \<Longrightarrow> public_answer lib name r"
  by (auto simp: main_handler_def render_public split: if_split_asm option.split_asm sum.split_asm prod.split_asm)

lemma select_region_refusal:
  "select_region route params scope = Inl r \<Longrightarrow> public_answer lib method r"
  by (auto simp: select_region_def split: if_split_asm option.split_asm sum.split_asm prod.split_asm)

lemma path_public:
  "path_handler lib st ask route scope uri params raw b = Some r \<Longrightarrow> api_mode st = Public \<Longrightarrow>
     public_answer lib (r_method route) r"
  by (auto simp: path_handler_def execute_public
      intro: select_region_refusal split: if_split_asm option.split_asm sum.split_asm)

section \<open>Properties\<close>


definition sample_web_library :: web_library where
  "sample_web_library = \<lparr>lib_pool = sample_descriptors, lib_utf8 = (\<lambda>_. True), lib_form_parse = sample_parse,
     lib_form_encode = sample_encode, lib_decode = (\<lambda>_ _. Some (FavoriteStatus ''1'')), lib_sha256 = rev\<rparr>"

definition sample_state :: "unit api_state" where
  "sample_state = \<lparr>api_cache = (), key_hash = ''yek'', api_mode = Public, access_log = False, profiles = default_clients\<rparr>"

definition sample_views :: "unit views" where
  "sample_views = \<lparr>v_openapi = (\<lambda>_. Null), v_ready = (\<lambda>_. True), v_status = (\<lambda>_. Null), v_single = (\<lambda>_. Null),
     v_version = ''1''\<rparr>"

definition sample_request :: "string \<Rightarrow> request" where
  "sample_request token = \<lparr>rq_http = Get, rq_uri = ''/v1/profile/favorites'', rq_endpoint = MainEndpoint ''favorite-status'',
     rq_params = None, rq_query = None, rq_auth = [Some (''Bearer '' @ token)], rq_body_empty = True\<rparr>"

lemma sample_authorized:
  "authorized sample_web_library sample_state (rq_auth (sample_request ''key''))"
  "\<not> authorized sample_web_library sample_state (rq_auth (sample_request ''kay''))"
  by (simp_all add: authorized_def bearer_token_def sample_request_def sample_web_library_def sample_state_def text_eval)

lemma sample_gateway:
  "\<exists>w. gateway_reachable sample_web_library sample_views sample_state w
     \<and> length (gw_entered w) = 1 \<and> length (gw_answers w) = 1"
proof -
  let ?R = "gateway_reachable sample_web_library sample_views sample_state"
  let ?w0 = "gateway_start 0"
  let ?w1 = "gw_begin 1 (sample_request ''key'') ?w0"
  let ?w2 = "gw_begin 2 (sample_request ''kay'') ?w1"
  let ?w3 = "enter 1 (sample_request ''key'') 63 (stop_waiting 1 ?w2)"
  let ?w4 = "gw_answer ''id'' (sample_request ''kay'') unauthorized_response (stop_waiting 2 ?w3)"
  have "?R ?w0" by (rule start)
  then have "?R ?w1" by (rule step) (rule arrive, simp_all add: gateway_start_def)
  then have "?R ?w2" by (rule step) (rule arrive, simp_all add: gateway_start_def gw_begin_def)
  then have "?R ?w3"
    by (rule step) (rule admit,
        simp_all add: gateway_start_def gw_begin_def authenticate_def sample_authorized)
  then have "?R ?w4"
    by (rule step) (rule refuse,
        simp_all add: gateway_start_def gateway_ops alist_remove_def authenticate_def sample_authorized)
  then show ?thesis by (rule exI [of _ ?w4, OF conjI]) (simp add: gateway_start_def gateway_ops)
qed


text \<open>
  C20: at most 64 requests are behind the authentication at a time, each holding one
  permit that comes back however the request ends, and the in-flight counter is the number of
  requests under way.
\<close>

theorem gateway_load_is_bounded:
  assumes "gateway_reachable lib v st w"
  shows "length (gw_running w) \<le> 64 \<and> gw_free w = 64 - length (gw_running w)
    \<and> d_inflight (gw_diagnostics w) = of_nat (length (gw_waiting w) + length (gw_running w))"
  using gateway_reachable_inv [OF assms] by (auto simp: gateway_inv_def)

theorem gateway_load_is_bounded_witness:
  "\<exists>w. gateway_reachable sample_web_library sample_views sample_state w \<and> length (gw_entered w) = 1
     \<and> gw_free w = 64 - length (gw_running w)"
  using sample_gateway gateway_load_is_bounded by blast

text \<open>
  C15: in public mode every successful answer of every query route, readable, regional or
  query-form, is a public object of the method of that route, and the personal recommendations
  are never served.
\<close>

theorem public_mode_serves_public_answers:
  assumes "handle lib v st ask now d rq = Some r" "api_mode st = Public"
    "endpoint_method (rq_endpoint rq) = Some method" "rs_status r = 200"
  shows "method \<noteq> ''circle-recommendations'' \<and> (\<exists>m j. find_method method = Some m \<and> rs_body r = Some j
     \<and> public_object (lib_pool lib) (m_output m) j)"
proof -
  have "public_answer lib method r"
    using assms(1-3) execute_public path_public main_public
    by (cases "rq_endpoint rq")
      (fastforce simp: handle_def endpoint_method_def query_handler_def split: if_split_asm)+
  with assms(4) show ?thesis by (simp add: public_answer_def)
qed

theorem public_mode_serves_public_answers_witness:
  "\<exists>m. find_method ''favorite-status'' = Some m
     \<and> public_object sample_descriptors (m_output m) (Object [(''totalFavorite'', String ''9'')])"
proof -
  let ?answer = "\<lparr>cr_json = Object [(''isSentFavorite'', Bool True), (''totalFavorite'', String ''9'')],
      cr_fetched_at = 0, cr_size = 0\<rparr>"
  let ?d = "\<lparr>d_start = 0, d_requests = 0, d_errors = 0, d_inflight = 0\<rparr>"
  have fields: "query_fields sample_descriptors ''app.player.GetPlayerFavoriteStatusRequest'' = Some []"
    using collect.simps(2) [of 7 sample_descriptors "[]" "''app.player.GetPlayerFavoriteStatusRequest''"]
    by (simp add: query_fields_def fields_of_def sample_descriptors_def)
  have "\<exists>r. handle sample_web_library sample_views sample_state (\<lambda>_ _. Inr (?answer, ''MISS'')) 0 ?d (sample_request ''key'') = Some r
      \<and> rs_status r = 200 \<and> rs_body r = Some (Object [(''totalFavorite'', String ''9'')])"
    by (simp add: handle_def sample_request_def main_handler_def sample_state_def sample_web_library_def permitted_def
        parse_query_def find_method_def METHODS_def fields
        params_object_def sample_parse_def query_from_json_def query_validate_def valid_player_def render_def project_def
        project_object.simps project_field.simps allowed_def fields_of_def sample_descriptors_def
        MAX_QUERY_BYTES_def public_fields_def field_by_json_name_def)
  then show ?thesis
    using public_mode_serves_public_answers [of sample_web_library sample_views sample_state]
    by (force simp: sample_state_def sample_request_def endpoint_method_def sample_web_library_def)
qed

text \<open>
  the access log names the method that a route really calls: for every route of the
  gateway the method recovered from the matched path is the method of its handler, and support
  pages have none.
\<close>

theorem logged_method_is_the_called_one:
  "list_all (\<lambda>(path, e). method_for_path path = endpoint_method e) (protected_routes Public)"
  by code_simp

end
