(* ===== verification/Config.thy ===== *)
theory Config
  imports Accounts Gateway
begin

text \<open>
  The configuration of the server (\<open>server/src/config.rs\<close>, \<open>config_file.rs\<close>): the settings with
  their defaults, the checks and the resolution of relative paths, the regional settings, and the
  rule that a file with inline secrets is private.  TOML parsing and the derived deserialisation
  into the settings are parameters.  Before resolution paths are texts, afterwards component lists.
\<close>

section \<open>TOML values\<close>

datatype toml =
    TString string
  | TInteger int
  | TFloat string
  | TBoolean bool
  | TDatetime string
  | TArray "toml list"
  | TTable "(string \<times> toml) list"

definition toml_get :: "toml \<Rightarrow> string \<Rightarrow> toml option" where
  "toml_get v k = (case v of TTable t \<Rightarrow> map_of t k | _ \<Rightarrow> None)"

definition toml_text :: "toml \<Rightarrow> string option" where
  "toml_text v = (case v of TString s \<Rightarrow> Some s | _ \<Rightarrow> None)"

definition toml_table :: "toml \<Rightarrow> (string \<times> toml) list option" where
  "toml_table v = (case v of TTable t \<Rightarrow> Some t | _ \<Rightarrow> None)"

definition nonempty_text :: "toml \<Rightarrow> bool" where
  "nonempty_text v \<longleftrightarrow> (case toml_text v of Some s \<Rightarrow> s \<noteq> [] | None \<Rightarrow> False)"

section \<open>The settings\<close>

record version_sync_config =
  vs_enabled :: bool
  vs_interval_seconds :: nat
  vs_follow_client_updates :: bool

definition default_version_sync :: version_sync_config where
  "default_version_sync = \<lparr>vs_enabled = True, vs_interval_seconds = 60, vs_follow_client_updates = False\<rparr>"

record recovery_config =
  rc_enabled :: bool
  rc_cooldown_seconds :: nat

definition default_recovery :: recovery_config where
  "default_recovery = \<lparr>rc_enabled = False, rc_cooldown_seconds = 300\<rparr>"

record 'e region_config =
  rg_session :: session_config
  rg_credentials_file :: "'e list option"
  rg_login :: "'e login_config option"
  rg_accounts :: "'e accounts_config option"
  rg_recovery :: recovery_config
  rg_version_sync :: version_sync_config

record 'e config =
  cf_listen :: string
  cf_enable_experimental_raw :: bool
  cf_response_mode :: "response_mode option"
  cf_access_log :: bool
  cf_login :: "'e login_config option"
  cf_accounts :: "'e accounts_config option"
  cf_recovery :: recovery_config
  cf_version_sync :: version_sync_config
  cf_api_key_file :: "'e list"
  cf_api_key :: "string option"
  cf_credentials_file :: "'e list option"
  cf_session :: session_config
  cf_regions :: "(region \<times> 'e region_config) list"
  cf_timeout_seconds :: nat
  cf_minimum_interval_ms :: nat
  cf_queue_capacity :: nat
  cf_cache_ttl_seconds :: nat
  cf_cache_capacity :: nat

text \<open>A configuration with a session and nothing else: every other field has its default.\<close>

definition default_config :: "session_config \<Rightarrow> 'e config" where
  "default_config session =
     \<lparr>cf_listen = ''127.0.0.1:8080'', cf_enable_experimental_raw = False, cf_response_mode = None, cf_access_log = True,
      cf_login = None, cf_accounts = None, cf_recovery = default_recovery, cf_version_sync = default_version_sync,
      cf_api_key_file = [], cf_api_key = None, cf_credentials_file = None, cf_session = session, cf_regions = [],
      cf_timeout_seconds = 10, cf_minimum_interval_ms = 1000, cf_queue_capacity = 32, cf_cache_ttl_seconds = 15,
      cf_cache_capacity = 1024\<rparr>"

definition for_region :: "'e config \<Rightarrow> 'e region_config \<Rightarrow> 'e config" where
  "for_region c g =
     c\<lparr>cf_regions := [], cf_session := rg_session g, cf_credentials_file := rg_credentials_file g, cf_login := rg_login g,
       cf_accounts := rg_accounts g, cf_recovery := rg_recovery g, cf_version_sync := rg_version_sync g\<rparr>"

definition regional_settings :: "'e config \<Rightarrow> 'e region_config" where
  "regional_settings c =
     \<lparr>rg_session = cf_session c, rg_credentials_file = cf_credentials_file c, rg_login = cf_login c,
      rg_accounts = cf_accounts c, rg_recovery = cf_recovery c, rg_version_sync = cf_version_sync c\<rparr>"

definition config_mode :: "'e config \<Rightarrow> response_mode" where
  "config_mode c =
     (case cf_response_mode c of Some m \<Rightarrow> m | None \<Rightarrow> if cf_enable_experimental_raw c then Raw else Public)"

definition config_client_options :: "'e config \<Rightarrow> client_options" where
  "config_client_options c =
     \<lparr>timeout = 1000 * cf_timeout_seconds c, minimum_interval = cf_minimum_interval_ms c,
      queue_capacity = cf_queue_capacity c\<rparr>"

section \<open>Files\<close>

text \<open>
  Opening a file follows links; the kernel gives up after forty of them.  The failure tells
  whether nothing was found.
\<close>

fun follow :: "nat \<Rightarrow> store \<Rightarrow> path \<Rightarrow> bool + node" where
  "follow n st p =
     (case st p of
        None \<Rightarrow> Inl True
      | Some (Symlink q) \<Rightarrow> (case n of 0 \<Rightarrow> Inl False | Suc m \<Rightarrow> follow m st q)
      | Some found \<Rightarrow> Inr found)"

declare follow.simps [simp del]

definition open_file :: "store \<Rightarrow> path \<Rightarrow> bool + node" where
  "open_file st p = follow 40 st p"

definition read_config :: "store \<Rightarrow> path \<Rightarrow> bool + string" where
  "read_config st p =
     (case open_file st p of
        Inl e \<Rightarrow> Inl e
      | Inr (File _ content) \<Rightarrow> if 65536 < length content \<or> \<not> utf8_valid content then Inl False else Inr content
      | Inr _ \<Rightarrow> Inl False)"

fun drop_line_ends :: "string \<Rightarrow> string" where
  "drop_line_ends [] = []"
| "drop_line_ends (c # s) = (if byte c = 10 \<or> byte c = 13 then drop_line_ends s else c # s)"

definition read_api_key :: "store \<Rightarrow> path \<Rightarrow> string outcome" where
  "read_api_key st p =
     (case open_file st p of
        Inr (File mode content) \<Rightarrow>
          if 4096 < length content \<or> shared_mode mode \<or> \<not> utf8_valid content then fail InvalidConfig
          else Inr (rev (drop_line_ends (rev content)))
      | _ \<Rightarrow> fail InvalidConfig)"

definition validate_api_key :: "string \<Rightarrow> unit outcome" where
  "validate_api_key key =
     (if \<not> (32 \<le> length key \<and> length key \<le> 4096)
         \<or> \<not> list_all is_ascii key
         \<or> list_ex (\<lambda>b. is_ascii_whitespace b \<or> is_ascii_control b) key
      then fail InvalidConfig else Inr ())"

definition config_api_key :: "store \<Rightarrow> string config \<Rightarrow> string outcome" where
  "config_api_key st c =
     and_then (case cf_api_key c of Some key \<Rightarrow> Inr key | None \<Rightarrow> read_api_key st (cf_api_key_file c)) (\<lambda>key.
     and_then (validate_api_key key) (\<lambda>_. Inr key))"

text \<open>\<open>absolute\<close>: the path of a text, from the current directory if that can be told.\<close>

definition absolute_path :: "path option \<Rightarrow> string \<Rightarrow> path outcome" where
  "absolute_path cwd file =
     (if starts_with file ''/'' then Inr (join_path [] file)
      else and_then (ok_or cwd (client_error_new InvalidConfig)) (\<lambda>dir. Inr (join_path dir file)))"

section \<open>Inline secrets\<close>

text \<open>A table gives an item inline and by file.\<close>

definition given_twice :: "toml \<Rightarrow> string \<times> string \<Rightarrow> bool" where
  "given_twice v = (\<lambda>(inline, file). toml_get v inline \<noteq> None \<and> toml_get v file \<noteq> None)"

definition login_twice :: "toml \<Rightarrow> bool" where
  "login_twice v =
     (case toml_get v ''login'' of
        None \<Rightarrow> False
      | Some login \<Rightarrow>
          list_ex (given_twice login) [(''context'', ''context_file''), (''sdk_http'', ''sdk_http_file'')])"

definition has_inline :: "toml \<Rightarrow> bool" where
  "has_inline v \<longleftrightarrow>
     (case toml_get v ''api_key'' of Some k \<Rightarrow> nonempty_text k | None \<Rightarrow> False)
     \<or> (case toml_get v ''login'' of
          None \<Rightarrow> False
        | Some login \<Rightarrow>
            (case Option.bind (toml_get login ''context'') toml_table of
               Some t \<Rightarrow> list_ex (\<lambda>(_, x). nonempty_text x) t | None \<Rightarrow> False)
            \<or> (case Option.bind (toml_get login ''sdk_http'') (\<lambda>h. toml_get h ''app_key'') of
                 Some k \<Rightarrow> nonempty_text k | None \<Rightarrow> False)
            \<or> (case Option.bind (Option.bind (toml_get login ''sdk_http'') (\<lambda>h. toml_get h ''common'')) toml_table of
                 Some t \<Rightarrow> list_ex (\<lambda>(_, x). nonempty_text x) t | None \<Rightarrow> False))"

definition private_file :: "store \<Rightarrow> path \<Rightarrow> unit outcome" where
  "private_file st p =
     (case st p of
        Some (File mode _) \<Rightarrow> if shared_mode mode then fail InvalidConfig else Inr ()
      | _ \<Rightarrow> fail InvalidConfig)"

lemma toml_get_size: "toml_get v k = Some x \<Longrightarrow> size x < size v"
proof -
  have "map_of t k = Some x \<Longrightarrow> size x < size_list (size_prod (\<lambda>_. 0) size) t + Suc 0" for t
    by (induction t) (auto split: if_split_asm)
  then show "toml_get v k = Some x \<Longrightarrow> size x < size v"
    by (cases v) (auto simp: toml_get_def)
qed

lemma toml_table_size: "(k, x) \<in> set t \<Longrightarrow> size x < size (TTable t)"
  by (induction t) auto

text \<open>\<open>secure\<close> is the answer about the configuration file itself.\<close>

function check_inline_permissions :: "unit outcome \<Rightarrow> toml \<Rightarrow> unit outcome" where
  "check_inline_permissions secure v =
     and_then (case toml_get v ''regions'' of
                 None \<Rightarrow> Inr []
               | Some (TTable regions) \<Rightarrow>
                   map_results (\<lambda>(_, g).
                     and_then (check_inline_permissions secure g) (\<lambda>_.
                       if login_twice g then fail InvalidConfig else Inr ())) regions
               | Some _ \<Rightarrow> fail InvalidConfig) (\<lambda>_.
       if has_inline v then secure else Inr ())"
  by pat_completeness auto
termination
proof (relation "measure (\<lambda>(_, v). size v)")
  fix secure :: "unit outcome" and v x t z k g
  assume "toml_get v ''regions'' = Some x" "x = TTable t" "z \<in> set t" "(k, g) = z"
  then show "((secure, g), secure, v) \<in> measure (\<lambda>(_, v). size v)"
    using toml_get_size [of v "''regions''" x] toml_table_size [of k g t] by simp
qed simp

declare check_inline_permissions.simps [simp del]

section \<open>Validation and resolution\<close>

definition settings_rejected :: "char config \<Rightarrow> bool" where
  "settings_rejected c \<longleftrightarrow>
     16384 < cf_cache_capacity c
     \<or> 3600 < cf_cache_ttl_seconds c
     \<or> 60000 < cf_minimum_interval_ms c
     \<or> 4096 < cf_queue_capacity c
     \<or> cf_timeout_seconds c = 0
     \<or> 120 < cf_timeout_seconds c
     \<or> rc_cooldown_seconds (cf_recovery c) < 60
     \<or> 86400 < rc_cooldown_seconds (cf_recovery c)
     \<or> \<not> (30 \<le> vs_interval_seconds (cf_version_sync c) \<and> vs_interval_seconds (cf_version_sync c) \<le> 86400)
     \<or> rc_enabled (cf_recovery c) \<and> cf_login c = None
     \<or> cf_login c \<noteq> None \<and> cf_credentials_file c \<noteq> None
     \<or> region (cf_session c) \<noteq> ''jp'' \<and> cf_accounts c \<noteq> None \<and> cf_login c = None
     \<or> region (cf_session c) \<noteq> ''jp'' \<and> cf_accounts c \<noteq> None
        \<and> (case cf_login c of None \<Rightarrow> False | Some l \<Rightarrow> \<not> has_sdk_http l)
     \<or> region (cf_session c) = ''jp'' \<and> (cf_login c \<noteq> None \<or> rc_enabled (cf_recovery c))
     \<or> cf_accounts c \<noteq> None \<and> cf_credentials_file c \<noteq> None
     \<or> (cf_api_key c \<noteq> None) = (cf_api_key_file c \<noteq> [])
     \<or> cf_enable_experimental_raw c
        \<and> (case cf_response_mode c of None \<Rightarrow> False | Some m \<Rightarrow> m \<noteq> Raw)"

text \<open>
  Joining leaves an absolute path as it is, so relative and absolute paths need no distinction
  here; an empty text stays empty where it means that there is no file.
\<close>

definition resolve_optional :: "path \<Rightarrow> string \<Rightarrow> path" where
  "resolve_optional parent v = (if v = [] then [] else join_path parent v)"

definition resolve_login :: "path \<Rightarrow> char login_config \<Rightarrow> string login_config outcome" where
  "resolve_login parent l =
     and_then (validate_sources l) (\<lambda>_.
       Inr \<lparr>lc_context_file = resolve_optional parent (lc_context_file l), lc_context = lc_context l,
            lc_sdk_http_file = map_option (join_path parent) (lc_sdk_http_file l), lc_sdk_http = lc_sdk_http l,
            lc_state_dir = join_path parent (lc_state_dir l)\<rparr>)"

definition resolve_accounts :: "path \<Rightarrow> string \<Rightarrow> char accounts_config \<Rightarrow> string accounts_config outcome" where
  "resolve_accounts parent rname a =
     (if ac_strategy a = RoundRobin \<and> from_session rname = None then fail InvalidConfig
      else (let a = (if rname = ''jp'' \<and> starts_with (ac_directory a) ''/''
                        \<and> join_path [] (ac_directory a) = [''accounts'', ''international'']
                     then a\<lparr>ac_directory := ''/accounts/jp''\<rparr> else a) in
            and_then (accounts_validate a) (\<lambda>_.
              Inr \<lparr>ac_directory = join_path parent (ac_directory a), ac_selected = ac_selected a,
                   ac_strategy = ac_strategy a, ac_allow_create = ac_allow_create a, ac_sdk_ready = ac_sdk_ready a\<rparr>)))"

definition transposed :: "('a \<Rightarrow> 'b outcome) \<Rightarrow> 'a option \<Rightarrow> 'b option outcome" where
  "transposed f v = (case v of None \<Rightarrow> Inr None | Some x \<Rightarrow> and_then (f x) (\<lambda>y. Inr (Some y)))"

definition validate_and_resolve :: "library \<Rightarrow> path option \<Rightarrow> string \<Rightarrow> char config \<Rightarrow> string config outcome" where
  "validate_and_resolve lib cwd file c =
     (if settings_rejected c then fail InvalidConfig
      else and_then (config_validate lib (cf_session c)) (\<lambda>_.
           and_then (absolute_path cwd file) (\<lambda>p.
           let parent = parent_of p in
           and_then (transposed (resolve_login parent) (cf_login c)) (\<lambda>login.
           and_then (transposed (resolve_accounts parent (region (cf_session c))) (cf_accounts c)) (\<lambda>accounts.
             Inr \<lparr>cf_listen = cf_listen c, cf_enable_experimental_raw = cf_enable_experimental_raw c,
                  cf_response_mode = cf_response_mode c, cf_access_log = cf_access_log c,
                  cf_login = login, cf_accounts = accounts, cf_recovery = cf_recovery c,
                  cf_version_sync = cf_version_sync c,
                  cf_api_key_file = resolve_optional parent (cf_api_key_file c), cf_api_key = cf_api_key c,
                  cf_credentials_file = map_option (join_path parent) (cf_credentials_file c),
                  cf_session = cf_session c, cf_regions = [],
                  cf_timeout_seconds = cf_timeout_seconds c, cf_minimum_interval_ms = cf_minimum_interval_ms c,
                  cf_queue_capacity = cf_queue_capacity c, cf_cache_ttl_seconds = cf_cache_ttl_seconds c,
                  cf_cache_capacity = cf_cache_capacity c\<rparr>)))))"

text \<open>
  The identity of a state directory: \<open>canonical\<close> is the file system's answer, or whether
  nothing was found; then the components are normalised by themselves.
\<close>

fun normalize_parts :: "path \<Rightarrow> path \<Rightarrow> path" where
  "normalize_parts normalized [] = normalized"
| "normalize_parts normalized (c # cs) =
     normalize_parts (if c = ''..'' then butlast normalized else if c = ''.'' then normalized else normalized @ [c]) cs"

definition state_identity :: "(path \<Rightarrow> bool + path) \<Rightarrow> path \<Rightarrow> path outcome" where
  "state_identity canonical p =
     (case canonical p of
        Inr q \<Rightarrow> Inr q
      | Inl True \<Rightarrow> Inr (normalize_parts [] p)
      | Inl False \<Rightarrow> fail InvalidConfig)"

definition bare_origin :: "session_config \<Rightarrow> string" where
  "bare_origin s = rev (strip_tokens [''/''] (rev (config_origin s)))"

definition login_identity :: "(path \<Rightarrow> bool + path) \<Rightarrow> string login_config option \<Rightarrow> path list outcome" where
  "login_identity canonical login =
     (case login of
        None \<Rightarrow> Inr []
      | Some l \<Rightarrow> and_then (state_identity canonical (lc_state_dir l)) (\<lambda>dir. Inr [dir]))"

text \<open>
  The loop over the regions, with the origins and the state directories taken so far; \<open>c\<close> is the
  configuration before resolution, whose key file is resolved again to the same path.
\<close>

fun resolve_regions ::
  "library \<Rightarrow> (path \<Rightarrow> bool + path) \<Rightarrow> path option \<Rightarrow> string \<Rightarrow> char config \<Rightarrow> (region \<times> char region_config) list \<Rightarrow>
     string list \<Rightarrow> path list \<Rightarrow> (region \<times> string region_config) list outcome" where
  "resolve_regions lib canonical cwd file c [] origins dirs = Inr []"
| "resolve_regions lib canonical cwd file c ((r, g) # gs) origins dirs =
     (if from_session (region (cf_session c)) = Some r \<or> from_session (region (rg_session g)) \<noteq> Some r
      then fail InvalidConfig
      else and_then (validate_and_resolve lib cwd file (for_region c g)) (\<lambda>regional.
           let origin = bare_origin (cf_session regional) in
           if origin \<in> set origins then fail InvalidConfig
           else and_then (login_identity canonical (cf_login regional)) (\<lambda>dir.
                if list_ex (\<lambda>d. d \<in> set dirs) dir then fail InvalidConfig
                else and_then (resolve_regions lib canonical cwd file c gs (origins @ [origin]) (dirs @ dir)) (\<lambda>rest.
                       Inr ((r, regional_settings regional) # rest)))))"

record config_library =
  cl_library :: library
  cl_parse_config :: "string \<Rightarrow> char config option"
  cl_parse_toml :: "string \<Rightarrow> toml option"
  cl_canonical :: "path \<Rightarrow> bool + path"
  cl_cwd :: "path option"

definition config_from_text :: "config_library \<Rightarrow> store \<Rightarrow> string \<Rightarrow> string \<Rightarrow> string config outcome" where
  "config_from_text lib st text file =
     and_then (ok_or (cl_parse_config lib text) (client_error_new InvalidConfig)) (\<lambda>raw.
     and_then (ok_or (cl_parse_toml lib text) (client_error_new InvalidConfig)) (\<lambda>v.
       if given_twice v (''api_key'', ''api_key_file'') \<or> login_twice v then fail InvalidConfig
       else and_then (and_then (absolute_path (cl_cwd lib) file) (\<lambda>p.
              check_inline_permissions (private_file st p) v)) (\<lambda>_.
            and_then (validate_and_resolve (cl_library lib) (cl_cwd lib) file raw) (\<lambda>c.
            and_then (login_identity (cl_canonical lib) (cf_login c)) (\<lambda>dirs.
            and_then (resolve_regions (cl_library lib) (cl_canonical lib) (cl_cwd lib) file raw (cf_regions raw)
                        [bare_origin (cf_session c)] dirs) (\<lambda>regions.
              Inr (c\<lparr>cf_regions := regions\<rparr>)))))))"

definition config_read :: "config_library \<Rightarrow> store \<Rightarrow> string \<Rightarrow> string config outcome" where
  "config_read lib st file =
     and_then (absolute_path (cl_cwd lib) file) (\<lambda>p.
     and_then (map_err (\<lambda>_. client_error_new InvalidConfig) (read_config st p)) (\<lambda>text.
       config_from_text lib st text file))"

section \<open>Facts\<close>

text \<open>What the rest of the server relies on in one accepted configuration.\<close>

definition config_ok :: "string config \<Rightarrow> bool" where
  "config_ok c \<longleftrightarrow>
     cf_cache_capacity c \<le> 16384 \<and> cf_cache_ttl_seconds c \<le> 3600 \<and> cf_minimum_interval_ms c \<le> 60000
     \<and> cf_queue_capacity c \<le> 4096 \<and> 0 < cf_timeout_seconds c \<and> cf_timeout_seconds c \<le> 120
     \<and> 60 \<le> rc_cooldown_seconds (cf_recovery c) \<and> 30 \<le> vs_interval_seconds (cf_version_sync c)
     \<and> (cf_login c \<noteq> None \<or> cf_accounts c \<noteq> None \<longrightarrow> cf_credentials_file c = None)
     \<and> (rc_enabled (cf_recovery c) \<longrightarrow> cf_login c \<noteq> None)
     \<and> (region (cf_session c) \<noteq> ''jp'' \<and> cf_accounts c \<noteq> None \<longrightarrow> (\<exists>l. cf_login c = Some l \<and> has_sdk_http l))
     \<and> (region (cf_session c) = ''jp'' \<longrightarrow> cf_login c = None \<and> \<not> rc_enabled (cf_recovery c))
     \<and> (cf_api_key c \<noteq> None \<longrightarrow> cf_api_key_file c = [])
     \<and> (\<forall>a. cf_accounts c = Some a \<and> ac_strategy a = RoundRobin \<longrightarrow>
          ac_selected a = None \<and> from_session (region (cf_session c)) \<noteq> None)"

lemma transposed_Inr:
  "transposed f v = Inr w \<longleftrightarrow> (v = None \<and> w = None) \<or> (\<exists>x y. v = Some x \<and> f x = Inr y \<and> w = Some y)"
  by (cases v) (auto simp: transposed_def result_simps)

lemma resolve_login_sdk: "resolve_login parent l = Inr l' \<Longrightarrow> has_sdk_http l' = has_sdk_http l"
  by (auto simp: resolve_login_def has_sdk_http_def result_simps)

lemma resolve_accounts_Inr:
  assumes "resolve_accounts parent rname a = Inr a'"
  shows "ac_strategy a' = ac_strategy a \<and> ac_selected a' = ac_selected a
    \<and> (ac_strategy a' = RoundRobin \<longrightarrow> ac_selected a' = None \<and> from_session rname \<noteq> None)"
  using assms
  by (auto simp: resolve_accounts_def Let_def result_simps accounts_validate_def split: if_split_asm)

lemma validate_and_resolve_ok:
  assumes "validate_and_resolve lib cwd file c = Inr c'"
  shows "config_ok c' \<and> cf_session c' = cf_session c \<and> cf_regions c' = []"
proof -
  from assms have ok: "\<not> settings_rejected c" by (auto simp: validate_and_resolve_def)
  from assms obtain p login accounts where
    l: "transposed (resolve_login (parent_of p)) (cf_login c) = Inr login" and
    a: "transposed (resolve_accounts (parent_of p) (region (cf_session c))) (cf_accounts c) = Inr accounts" and
    c': "cf_login c' = login" "cf_accounts c' = accounts" "cf_credentials_file c' = map_option (join_path (parent_of p)) (cf_credentials_file c)"
      "cf_recovery c' = cf_recovery c" "cf_version_sync c' = cf_version_sync c" "cf_session c' = cf_session c" "cf_regions c' = []"
      "cf_cache_capacity c' = cf_cache_capacity c" "cf_cache_ttl_seconds c' = cf_cache_ttl_seconds c"
      "cf_minimum_interval_ms c' = cf_minimum_interval_ms c" "cf_queue_capacity c' = cf_queue_capacity c"
      "cf_timeout_seconds c' = cf_timeout_seconds c" "cf_api_key c' = cf_api_key c"
      "cf_api_key_file c' = resolve_optional (parent_of p) (cf_api_key_file c)"
    by (auto simp: validate_and_resolve_def Let_def result_simps split: if_split_asm)
  have login: "(login = None) = (cf_login c = None)" "\<And>l'. login = Some l' \<Longrightarrow> \<exists>l. cf_login c = Some l \<and> has_sdk_http l' = has_sdk_http l"
    using l resolve_login_sdk by (auto simp: transposed_Inr)
  have accounts: "(accounts = None) = (cf_accounts c = None)"
    "\<And>a'. accounts = Some a' \<Longrightarrow> ac_strategy a' = RoundRobin \<Longrightarrow> ac_selected a' = None \<and> from_session (region (cf_session c)) \<noteq> None"
    using a resolve_accounts_Inr by (auto simp: transposed_Inr)
  have sdk: "\<exists>l'. login = Some l' \<and> has_sdk_http l'" if "region (cf_session c) \<noteq> ''jp''" "accounts \<noteq> None"
    using that ok login accounts(1) by (cases login) (auto simp: settings_rejected_def)
  note accepted = ok [unfolded settings_rejected_def de_Morgan_disj not_less not_not]
  have "\<forall>a. cf_accounts c' = Some a \<and> ac_strategy a = RoundRobin \<longrightarrow>
      ac_selected a = None \<and> from_session (region (cf_session c')) \<noteq> None"
    using accounts(2) c'(2,6) by simp
  moreover have "cf_login c' \<noteq> None \<or> cf_accounts c' \<noteq> None \<longrightarrow> cf_credentials_file c' = None"
    using accepted login(1) accounts(1) c'(1-3) by auto
  moreover have "cf_api_key c' \<noteq> None \<longrightarrow> cf_api_key_file c' = []"
    using accepted c'(13,14) by (auto simp: resolve_optional_def)
  moreover have "region (cf_session c') = ''jp'' \<longrightarrow> cf_login c' = None \<and> \<not> rc_enabled (cf_recovery c')"
    "rc_enabled (cf_recovery c') \<longrightarrow> cf_login c' \<noteq> None"
    using accepted login(1) c'(1,4,6) by auto
  moreover have "cf_cache_capacity c' \<le> 16384 \<and> cf_cache_ttl_seconds c' \<le> 3600 \<and> cf_minimum_interval_ms c' \<le> 60000
     \<and> cf_queue_capacity c' \<le> 4096 \<and> 0 < cf_timeout_seconds c' \<and> cf_timeout_seconds c' \<le> 120
     \<and> 60 \<le> rc_cooldown_seconds (cf_recovery c') \<and> 30 \<le> vs_interval_seconds (cf_version_sync c')"
    using accepted c'(4,5,8-12) by simp
  moreover have "region (cf_session c') \<noteq> ''jp'' \<and> cf_accounts c' \<noteq> None \<longrightarrow> (\<exists>l. cf_login c' = Some l \<and> has_sdk_http l)"
    using sdk c'(1,2,6) by simp
  ultimately show ?thesis
    unfolding config_ok_def using c'(6,7) by blast
qed

text \<open>A regional configuration is the one \<open>for_region\<close> gives for its settings again.\<close>

lemma for_region_resolved:
  assumes "validate_and_resolve lib cwd file c = Inr c'" "validate_and_resolve lib cwd file (for_region c g) = Inr regional"
  shows "for_region (c'\<lparr>cf_regions := regions\<rparr>) (regional_settings regional) = regional"
  using assms
  by (auto simp: validate_and_resolve_def for_region_def regional_settings_def Let_def result_simps split: if_split_asm)

lemma config_ok_regions: "config_ok (c\<lparr>cf_regions := regions\<rparr>) = config_ok c"
  by (simp add: config_ok_def)

lemma login_identity_distinct: "login_identity canonical login = Inr dir \<Longrightarrow> distinct dir"
  by (auto simp: login_identity_def result_simps split: option.split_asm)

lemma resolve_regions_Inr:
  assumes "validate_and_resolve lib cwd file c = Inr c0"
  shows "resolve_regions lib canonical cwd file c gs origins dirs = Inr rs \<Longrightarrow>
    (\<forall>(r, g)\<in>set rs. config_ok (for_region c0 g) \<and> from_session (region (rg_session g)) = Some r
       \<and> from_session (region (cf_session c0)) \<noteq> Some r)
    \<and> (distinct origins \<longrightarrow> distinct (origins @ map (\<lambda>(_, g). bare_origin (rg_session g)) rs))
    \<and> (\<exists>ds. map_results (login_identity canonical) (map (\<lambda>(_, g). rg_login g) rs) = Inr ds
        \<and> (distinct dirs \<longrightarrow> distinct (dirs @ concat ds)))"
proof (induction gs arbitrary: origins dirs rs)
  case (Cons x gs)
  obtain r g where x: "x = (r, g)" by fastforce
  from Cons.prems obtain regional dir rest where
    reg: "validate_and_resolve lib cwd file (for_region c g) = Inr regional" and
    key: "from_session (region (cf_session c)) \<noteq> Some r" "from_session (region (rg_session g)) = Some r" and
    org: "bare_origin (cf_session regional) \<notin> set origins" and
    dir: "login_identity canonical (cf_login regional) = Inr dir" "set dir \<inter> set dirs = {}" and
    rest: "resolve_regions lib canonical cwd file c gs (origins @ [bare_origin (cf_session regional)]) (dirs @ dir) = Inr rest"
      "rs = (r, regional_settings regional) # rest"
    by (auto simp: x result_simps Let_def list_ex_iff split: if_split_asm)
  have same: "cf_session regional = rg_session g" "config_ok regional"
    using validate_and_resolve_ok [OF reg] by (simp_all add: for_region_def)
  have again: "for_region c0 (regional_settings regional) = regional"
    using for_region_resolved [OF assms reg, of "cf_regions c0"] by simp
  have c0: "cf_session c0 = cf_session c" using validate_and_resolve_ok [OF assms] by simp
  from Cons.IH [OF rest(1)] obtain ds where
    IH: "\<forall>(r, g)\<in>set rest. config_ok (for_region c0 g) \<and> from_session (region (rg_session g)) = Some r
       \<and> from_session (region (cf_session c0)) \<noteq> Some r"
      "distinct (origins @ [bare_origin (cf_session regional)]) \<longrightarrow>
        distinct ((origins @ [bare_origin (cf_session regional)]) @ map (\<lambda>(_, g). bare_origin (rg_session g)) rest)"
      "map_results (login_identity canonical) (map (\<lambda>(_, g). rg_login g) rest) = Inr ds"
      "distinct (dirs @ dir) \<longrightarrow> distinct ((dirs @ dir) @ concat ds)" by auto
  have head: "config_ok (for_region c0 (regional_settings regional))
      \<and> from_session (region (rg_session (regional_settings regional))) = Some r \<and> from_session (region (cf_session c0)) \<noteq> Some r"
    using again same key c0 by (simp add: regional_settings_def)
  have origins: "distinct origins \<longrightarrow> distinct (origins @ map (\<lambda>(_, g). bare_origin (rg_session g)) rs)"
    using IH(2) org rest(2) by (auto simp: regional_settings_def)
  have "map_results (login_identity canonical) (map (\<lambda>(_, g). rg_login g) rs) = Inr (dir # ds)"
    using dir(1) IH(3) rest(2) by (simp add: regional_settings_def)
  moreover have "distinct dirs \<longrightarrow> distinct (dirs @ concat (dir # ds))"
    using IH(4) dir(2) login_identity_distinct [OF dir(1)] by auto
  ultimately show ?case using head origins IH(1) rest(2) by auto
qed simp

lemma config_sound:
  assumes "config_from_text lib st text file = Inr c"
  shows "config_ok c
    \<and> (\<forall>(r, g)\<in>set (cf_regions c). config_ok (for_region c g) \<and> from_session (region (rg_session g)) = Some r
        \<and> from_session (region (cf_session c)) \<noteq> Some r)
    \<and> distinct (bare_origin (cf_session c) # map (\<lambda>(_, g). bare_origin (rg_session g)) (cf_regions c))
    \<and> (\<exists>dirs. map_results (login_identity (cl_canonical lib)) (cf_login c # map (\<lambda>(_, g). rg_login g) (cf_regions c)) = Inr dirs
        \<and> distinct (concat dirs))"
proof -
  from assms obtain raw c0 dir regions where
    c0: "validate_and_resolve (cl_library lib) (cl_cwd lib) file raw = Inr c0" and
    dir: "login_identity (cl_canonical lib) (cf_login c0) = Inr dir" and
    regions: "resolve_regions (cl_library lib) (cl_canonical lib) (cl_cwd lib) file raw (cf_regions raw)
        [bare_origin (cf_session c0)] dir = Inr regions" "c = c0\<lparr>cf_regions := regions\<rparr>"
    by (auto simp: config_from_text_def result_simps split: if_split_asm)
  from resolve_regions_Inr [OF c0 regions(1)] login_identity_distinct [OF dir] obtain ds where
    r: "\<forall>(r, g)\<in>set regions. config_ok (for_region c0 g) \<and> from_session (region (rg_session g)) = Some r
       \<and> from_session (region (cf_session c0)) \<noteq> Some r"
      "distinct ([bare_origin (cf_session c0)] @ map (\<lambda>(_, g). bare_origin (rg_session g)) regions)"
      "map_results (login_identity (cl_canonical lib)) (map (\<lambda>(_, g). rg_login g) regions) = Inr ds"
      "distinct (dir @ concat ds)" by auto
  have "config_ok c" using validate_and_resolve_ok [OF c0] regions(2) config_ok_regions by simp
  moreover have "for_region c g = for_region c0 g" for g using regions(2) by (simp add: for_region_def)
  moreover have "map_results (login_identity (cl_canonical lib)) (cf_login c # map (\<lambda>(_, g). rg_login g) (cf_regions c)) = Inr (dir # ds)"
    using dir r(3) regions(2) by simp
  ultimately show ?thesis using r(1,2,4) regions(2) by auto
qed

section \<open>Properties\<close>


text \<open>
  C32: secrets written into the configuration need a private file.  If the top level or a region
  holds an API key, a login context or SDK parameters inline, the file is accepted only if it is
  a regular file that no other user can read.
\<close>

theorem inline_secrets_need_a_private_file:
  assumes "config_from_text lib st text file = Inr c" "cl_parse_toml lib text = Some v"
    and "has_inline v \<or> (\<exists>regions r g. toml_get v ''regions'' = Some (TTable regions) \<and> (r, g) \<in> set regions \<and> has_inline g)"
  shows "\<exists>p mode content. absolute_path (cl_cwd lib) file = Inr p \<and> st p = Some (File mode content) \<and> \<not> shared_mode mode"
proof -
  from assms(1,2) obtain p where p: "absolute_path (cl_cwd lib) file = Inr p"
    "check_inline_permissions (private_file st p) v = Inr ()"
    by (auto simp: config_from_text_def result_simps split: if_split_asm)
  have top: "private_file st p = Inr ()" if "has_inline x" "check_inline_permissions (private_file st p) x = Inr ()" for x
    using that by (auto simp: check_inline_permissions.simps [of _ x] result_simps)
  have "private_file st p = Inr ()"
    using assms(3)
  proof
    assume "has_inline v"
    with top p(2) show ?thesis by blast
  next
    assume "\<exists>regions r g. toml_get v ''regions'' = Some (TTable regions) \<and> (r, g) \<in> set regions \<and> has_inline g"
    then obtain regions r g where g: "toml_get v ''regions'' = Some (TTable regions)" "(r, g) \<in> set regions" "has_inline g"
      by blast
    from p(2) g(1) obtain ys where "map_results (\<lambda>(_, g).
        and_then (check_inline_permissions (private_file st p) g) (\<lambda>_. if login_twice g then fail InvalidConfig else Inr ()))
        regions = Inr ys"
      by (auto simp: check_inline_permissions.simps [of _ v] result_simps)
    from map_results_Inr [OF this] g(2) have "check_inline_permissions (private_file st p) g = Inr ()"
      by (fastforce simp: list_all2_conv_all_nth in_set_conv_nth result_simps)
    with top g(3) show ?thesis by blast
  qed
  then show ?thesis
    using p(1) by (auto simp: private_file_def split: option.split_asm node.split_asm if_split_asm)
qed

definition sample_tw :: session_config where
  "sample_tw = sample_config\<lparr>region := ''tw'', config_origin := ''https://tw.invalid'', allowed_origins := [''https://tw.invalid'']\<rparr>"

definition sample_raw :: "char config" where
  "sample_raw = (default_config sample_config)\<lparr>cf_api_key := Some (replicate 32 (CHR ''k'')),
     cf_regions := [(Tw, \<lparr>rg_session = sample_tw, rg_credentials_file = None, rg_login = None, rg_accounts = None,
       rg_recovery = default_recovery, rg_version_sync = default_version_sync\<rparr>)]\<rparr>"

definition sample_config_library :: config_library where
  "sample_config_library = \<lparr>cl_library = sample_library, cl_parse_config = (\<lambda>_. Some sample_raw),
     cl_parse_toml = (\<lambda>_. Some (TTable [(''api_key'', TString ''kk'')])), cl_canonical = (\<lambda>_. Inl True), cl_cwd = None\<rparr>"

definition sample_config_store :: store where
  "sample_config_store = [[''etc'', ''c.toml''] \<mapsto> File 0x180 []]"

lemma sample_valid:
  "config_validate sample_library sample_config = Inr ()" "config_validate sample_library sample_tw = Inr ()"
  by (simp_all add: config_validate_def config_rejected_def metadata_def meta_insert_def origin_def sample_session_defs
      sample_tw_def byte_def starts_with_def Let_def)

lemma sample_path: "absolute_path None ''/etc/c.toml'' = Inr [''etc'', ''c.toml'']"
  by (simp add: absolute_path_def join_path_def starts_with_def)

definition sample_resolved :: "string config" where
  "sample_resolved = (default_config sample_config)\<lparr>cf_api_key := Some (replicate 32 (CHR ''k'')),
     cf_regions := [(Tw, \<lparr>rg_session = sample_tw, rg_credentials_file = None, rg_login = None, rg_accounts = None,
       rg_recovery = default_recovery, rg_version_sync = default_version_sync\<rparr>)]\<rparr>"

lemma sample_inline:
  "check_inline_permissions (private_file sample_config_store [''etc'', ''c.toml'']) (TTable [(''api_key'', TString ''kk'')]) = Inr ()"
  by (simp add: check_inline_permissions.simps toml_get_def has_inline_def nonempty_text_def toml_text_def private_file_def
      sample_config_store_def shared_mode_def)

lemma sample_from_text:
  "config_from_text sample_config_library sample_config_store [] ''/etc/c.toml'' = Inr sample_resolved"
proof -
  let ?g = "snd (hd (cf_regions sample_raw))"
  have c0: "validate_and_resolve sample_library None ''/etc/c.toml'' sample_raw = Inr (sample_resolved\<lparr>cf_regions := []\<rparr>)"
    using sample_valid(1) sample_path
    by (simp add: validate_and_resolve_def settings_rejected_def sample_raw_def sample_resolved_def default_config_def
        default_recovery_def default_version_sync_def transposed_def Let_def resolve_optional_def)
  obtain r where r: "validate_and_resolve sample_library None ''/etc/c.toml'' (for_region sample_raw ?g) = Inr r"
    "cf_login r = None" "cf_session r = sample_tw" "regional_settings r = snd (hd (cf_regions sample_resolved))"
    using sample_valid(2) sample_path
    by (simp add: validate_and_resolve_def settings_rejected_def sample_raw_def sample_resolved_def default_config_def
        default_recovery_def default_version_sync_def transposed_def Let_def for_region_def regional_settings_def)
  have origins: "bare_origin sample_config = ''https://game.invalid''" "bare_origin sample_tw = ''https://tw.invalid''"
    by (simp_all add: bare_origin_def sample_tw_def sample_config_def strip_tokens.simps starts_with_def)
  have "from_session (region sample_config) = Some En" "from_session (region sample_tw) = Some Tw"
    by (simp_all add: from_session_def sample_tw_def sample_config_def)
  then have "resolve_regions sample_library (\<lambda>_. Inl True) None ''/etc/c.toml'' sample_raw (cf_regions sample_raw)
      [bare_origin sample_config] [] = Inr (cf_regions sample_resolved)"
    using r origins by (simp add: sample_raw_def default_config_def login_identity_def) (simp add: sample_resolved_def)
  moreover have "cf_login (sample_resolved\<lparr>cf_regions := []\<rparr>) = None" "cf_session (sample_resolved\<lparr>cf_regions := []\<rparr>) = sample_config"
    by (simp_all add: sample_resolved_def default_config_def)
  ultimately show ?thesis
    using c0 sample_inline sample_path
    by (simp add: config_from_text_def sample_config_library_def given_twice_def login_twice_def toml_get_def login_identity_def)
qed


theorem inline_secrets_need_a_private_file_witness:
  "\<exists>mode content. sample_config_store [''etc'', ''c.toml''] = Some (File mode content) \<and> \<not> shared_mode mode"
proof -
  have t: "cl_parse_toml sample_config_library [] = Some (TTable [(''api_key'', TString ''kk'')])"
    by (simp add: sample_config_library_def)
  have "has_inline (TTable [(''api_key'', TString ''kk'')])"
    by (simp add: has_inline_def toml_get_def nonempty_text_def toml_text_def)
  with inline_secrets_need_a_private_file [OF sample_from_text t] sample_path show ?thesis
    by (auto simp: sample_config_library_def)
qed

end
