(* ===== verification/Startup.thy ===== *)
theory Startup
  imports Config
begin

text \<open>
  The start of the server (\<open>server/src/startup.rs\<close>): the inspection of the configuration file,
  which tells what is still missing before anything is served, and the answers of an
  unconfigured server.  An inspection step extends the list of what is missing, or fails.
\<close>

section \<open>Looking at the file\<close>

definition REQUIRED :: "string list" where
  "REQUIRED =
     [''api_key_file'', ''session.region'', ''session.origin'', ''session.allowed_origins'', ''session.platform'',
      ''session.client_version'']"

datatype startup =
    Configured "string config"
  | Unconfigured string "string list"

fun toml_path :: "toml \<Rightarrow> string list \<Rightarrow> toml option" where
  "toml_path v [] = Some v"
| "toml_path v (k # ks) = (case toml_get v k of None \<Rightarrow> None | Some x \<Rightarrow> toml_path x ks)"

definition toml_field :: "toml \<Rightarrow> string \<Rightarrow> toml option" where
  "toml_field v key = toml_path v (split_on (CHR ''.'') key)"

definition string_missing :: "toml \<Rightarrow> string \<Rightarrow> bool outcome" where
  "string_missing v key =
     (case toml_field v key of
        None \<Rightarrow> Inr True
      | Some (TString s) \<Rightarrow> Inr (trim s = [])
      | _ \<Rightarrow> fail InvalidConfig)"

definition file_missing :: "store \<Rightarrow> path \<Rightarrow> bool outcome" where
  "file_missing st p =
     (case open_file st p of
        Inr _ \<Rightarrow> Inr False
      | Inl True \<Rightarrow> Inr True
      | Inl False \<Rightarrow> fail InvalidConfig)"

definition relative_file :: "toml \<Rightarrow> string \<Rightarrow> path \<Rightarrow> path option outcome" where
  "relative_file v key parent =
     (case toml_field v key of
        None \<Rightarrow> Inr None
      | Some (TString s) \<Rightarrow> Inr (if trim s = [] then None else Some (join_path parent s))
      | _ \<Rightarrow> fail InvalidConfig)"

text \<open>A list of texts is missing if it has no text that is not blank.\<close>

definition texts_missing :: "toml \<Rightarrow> string \<Rightarrow> bool outcome" where
  "texts_missing v key =
     (case toml_field v key of
        None \<Rightarrow> Inr True
      | Some (TArray items) \<Rightarrow>
          if list_ex (\<lambda>x. toml_text x = None) items then fail InvalidConfig
          else Inr (items = [] \<or> list_all (\<lambda>x. trim (the (toml_text x)) = []) items)
      | _ \<Rightarrow> fail InvalidConfig)"

definition u32_missing :: "toml \<Rightarrow> string \<Rightarrow> bool outcome" where
  "u32_missing v key =
     (case toml_field v key of
        None \<Rightarrow> Inr True
      | Some (TInteger n) \<Rightarrow> if 0 \<le> n \<and> n < 2 ^ 32 then Inr False else fail InvalidConfig
      | _ \<Rightarrow> fail InvalidConfig)"

section \<open>Steps\<close>

type_synonym step = "string list \<Rightarrow> string list outcome"

fun run_steps :: "step list \<Rightarrow> step" where
  "run_steps [] missing = Inr missing"
| "run_steps (f # fs) missing = and_then (f missing) (run_steps fs)"

definition note_missing :: "bool outcome \<Rightarrow> string \<Rightarrow> step" where
  "note_missing absent key missing = and_then absent (\<lambda>b. Inr (if b then missing @ [key] else missing))"

definition require :: "bool \<Rightarrow> step" where
  "require b missing = (if b then Inr missing else fail InvalidConfig)"

definition when_step :: "bool \<Rightarrow> step list \<Rightarrow> step" where
  "when_step b steps = (if b then run_steps steps else Inr)"

definition is_table_or_absent :: "toml option \<Rightarrow> bool" where
  "is_table_or_absent v = (case v of None \<Rightarrow> True | Some (TTable _) \<Rightarrow> True | _ \<Rightarrow> False)"

definition structure_steps :: "(toml \<Rightarrow> version_sync_config option) \<Rightarrow> toml \<Rightarrow> step list" where
  "structure_steps parse_sync v =
     [require (list_all (\<lambda>t. is_table_or_absent (toml_get v t))
        [''session'', ''login'', ''recovery'', ''accounts'', ''version_sync'', ''regions'']),
      require (case toml_get v ''version_sync'' of
          None \<Rightarrow> True
        | Some sync \<Rightarrow>
            (case parse_sync sync of
               None \<Rightarrow> False
             | Some s \<Rightarrow> 30 \<le> vs_interval_seconds s \<and> vs_interval_seconds s \<le> 86400)),
      require (list_all (\<lambda>t. is_table_or_absent (toml_field v t)) [''login.context'', ''login.sdk_http'', ''login.sdk_http.common'']),
      require (\<not> list_ex (\<lambda>(inline, file). toml_field v inline \<noteq> None \<and> toml_field v file \<noteq> None)
        [(''api_key'', ''api_key_file''), (''login.context'', ''login.context_file''),
         (''login.sdk_http'', ''login.sdk_http_file'')])]"

definition required_steps :: "toml \<Rightarrow> step list" where
  "required_steps v =
     map (\<lambda>key.
       when_step (\<not> (key = ''api_key_file'' \<and> toml_get v ''api_key'' \<noteq> None))
         [note_missing (if key = ''session.allowed_origins'' then texts_missing v key else string_missing v key) key]) REQUIRED"

text \<open>An inline API key: blank, or to be checked; \<open>as_str\<close> has succeeded in the first check.\<close>

definition api_key_step :: "toml \<Rightarrow> step" where
  "api_key_step v missing =
     (if toml_get v ''api_key'' = None then Inr missing
      else and_then (string_missing v ''api_key'') (\<lambda>blank.
        if blank then Inr (missing @ [''api_key''])
        else and_then (ok_or (Option.bind (toml_get v ''api_key'') toml_text) (client_error_new InvalidConfig)) (\<lambda>key.
             and_then (validate_api_key key) (\<lambda>_. Inr missing))))"

definition text_step :: "toml \<Rightarrow> string \<Rightarrow> step" where
  "text_step v key = note_missing (string_missing v key) key"

definition u32_step :: "toml \<Rightarrow> string \<Rightarrow> step" where
  "u32_step v key = note_missing (u32_missing v key) key"

definition jp_session :: "toml \<Rightarrow> bool" where
  "jp_session v \<longleftrightarrow> Option.bind (toml_field v ''session.region'') toml_text = Some ''jp''"

definition login_steps :: "toml \<Rightarrow> step list" where
  "login_steps v =
     [when_step (toml_get v ''login'' \<noteq> None \<or> toml_get v ''accounts'' \<noteq> None \<and> \<not> jp_session v)
        [when_step (toml_field v ''login.context'' = None) [text_step v ''login.context_file''],
         text_step v ''login.state_dir''],
      when_step (\<not> jp_session v \<and> toml_get v ''accounts'' \<noteq> None \<and> toml_field v ''login.sdk_http'' = None)
        [text_step v ''login.sdk_http_file''],
      when_step (toml_field v ''login.context'' \<noteq> None)
        [text_step v ''login.context.device_model'', text_step v ''login.context.operating_system'',
         text_step v ''login.context.device_identifier'', u32_step v ''login.context.global_channel_id'',
         u32_step v ''login.context.brand_id'', u32_step v ''login.context.area_id'']]"

text \<open>The common parameters are given with a text or omitted, each once.\<close>

fun supplied_common :: "(string \<times> toml) list \<Rightarrow> string list \<Rightarrow> string list outcome" where
  "supplied_common [] supplied = Inr supplied"
| "supplied_common ((k, x) # t) supplied =
     (if toml_text x = None \<or> k \<in> set supplied then fail InvalidConfig else supplied_common t (k # supplied))"

fun supplied_omitted :: "toml list \<Rightarrow> string list \<Rightarrow> string list outcome" where
  "supplied_omitted [] supplied = Inr supplied"
| "supplied_omitted (x # xs) supplied =
     (case toml_text x of
        None \<Rightarrow> fail InvalidConfig
      | Some k \<Rightarrow> if k \<in> set supplied then fail InvalidConfig else supplied_omitted xs (k # supplied))"

definition common_step :: "toml \<Rightarrow> step" where
  "common_step v missing =
     and_then (case toml_field v ''login.sdk_http.common'' of
                 Some (TTable t) \<Rightarrow> supplied_common t []
               | _ \<Rightarrow> Inr []) (\<lambda>given.
     and_then (case toml_field v ''login.sdk_http.omit_common'' of
                 None \<Rightarrow> Inr given
               | Some (TArray items) \<Rightarrow> supplied_omitted items given
               | Some _ \<Rightarrow> fail InvalidConfig) (\<lambda>supplied.
       if list_ex (\<lambda>k. k \<notin> set COMMON_FIELDS) supplied then fail InvalidConfig
       else Inr (if list_ex (\<lambda>k. k \<notin> set supplied) COMMON_FIELDS then missing @ [''login.sdk_http.common''] else missing)))"

definition sdk_steps :: "toml \<Rightarrow> step list" where
  "sdk_steps v =
     [when_step (toml_field v ''login.sdk_http'' \<noteq> None)
        [text_step v ''login.sdk_http.base_url'', text_step v ''login.sdk_http.app_key'',
         u32_step v ''login.sdk_http.country_id'',
         note_missing (texts_missing v ''login.sdk_http.allowed_base_urls'') ''login.sdk_http.allowed_base_urls'',
         common_step v]]"

definition file_step :: "store \<Rightarrow> toml \<Rightarrow> path \<Rightarrow> string \<Rightarrow> step" where
  "file_step st v parent key missing =
     and_then (relative_file v key parent) (\<lambda>found.
       case found of
         Some p \<Rightarrow>
           and_then (file_missing st p) (\<lambda>gone.
             if gone then Inr (if key \<in> set missing then missing else missing @ [key])
             else if key = ''api_key_file''
             then and_then (read_api_key st p) (\<lambda>content.
                    if content = [] then Inr (missing @ [''api_key_file.content''])
                    else and_then (validate_api_key content) (\<lambda>_. Inr missing))
             else Inr missing)
       | None \<Rightarrow>
           Inr (if (key = ''credentials_file'' \<or> key = ''login.sdk_http_file'') \<and> toml_field v key \<noteq> None
                then missing @ [key] else missing))"

definition file_steps :: "store \<Rightarrow> toml \<Rightarrow> path \<Rightarrow> step list" where
  "file_steps st v parent =
     map (file_step st v parent)
       [''api_key_file'', ''credentials_file'', ''login.context_file'', ''login.sdk_http_file'', ''login.state_dir'']"

definition listen_address :: "(string \<Rightarrow> string option) \<Rightarrow> string \<Rightarrow> toml \<Rightarrow> string outcome" where
  "listen_address parse_socket fallback v =
     (case toml_get v ''listen'' of
        Some (TString s) \<Rightarrow> ok_or (parse_socket s) (client_error_new InvalidConfig)
      | None \<Rightarrow> Inr fallback
      | _ \<Rightarrow> fail InvalidConfig)"

text \<open>\<open>inspect\<close>; a file that is not there counts as empty and as missing itself.\<close>

definition inspect ::
  "config_library \<Rightarrow> (toml \<Rightarrow> version_sync_config option) \<Rightarrow> (string \<Rightarrow> string option) \<Rightarrow> store \<Rightarrow> string \<Rightarrow> string \<Rightarrow>
     startup outcome" where
  "inspect lib parse_sync parse_socket st fallback file =
     and_then (absolute_path (cl_cwd lib) file) (\<lambda>p.
     and_then (case read_config st p of
                 Inr text \<Rightarrow> Inr (text, [])
               | Inl True \<Rightarrow> Inr ([], [''config_file''])
               | Inl False \<Rightarrow> fail InvalidConfig) (\<lambda>(text, missing).
     and_then (ok_or (cl_parse_toml lib text) (client_error_new InvalidConfig)) (\<lambda>v.
     and_then (run_steps (structure_steps parse_sync v) missing) (\<lambda>missing.
     and_then (check_inline_permissions (private_file st p) v) (\<lambda>_.
     and_then (listen_address parse_socket fallback v) (\<lambda>listen.
     and_then (run_steps (required_steps v @ [api_key_step v] @ login_steps v @ sdk_steps v
                 @ file_steps st v (parent_of p)) missing) (\<lambda>missing.
       if missing \<noteq> [] then Inr (Unconfigured listen missing)
       else and_then (config_from_text lib st text file) (\<lambda>c. Inr (Configured c)))))))))"

section \<open>The unconfigured server\<close>

text \<open>\<open>health_router\<close>: the answers to GET requests; \<open>i\<close> is the fresh request id.\<close>

definition unconfigured_answer :: "string \<Rightarrow> string \<Rightarrow> http_response" where
  "unconfigured_answer target i =
     (let (status, body) =
        (if target = ''/health'' \<or> target = ''/healthz'' then (200, Object [(''status'', String ''ok'')])
         else if target = ''/readyz''
         then (503, Object [(''ready'', Bool False), (''configured'', Bool False)])
         else (503, error_body ''unconfigured'')) in
      \<lparr>rs_status = status, rs_headers = [(''cache-control'', ''no-store''), (''x-request-id'', i)], rs_body = Some body\<rparr>)"

section \<open>Facts\<close>

text \<open>A step only adds to the list, so what an empty final list says holds of every step.\<close>

definition growing :: "step \<Rightarrow> bool" where
  "growing f \<longleftrightarrow> (\<forall>m m'. f m = Inr m' \<longrightarrow> (\<exists>more. m' = m @ more))"

named_theorems growing_steps \<open>steps that only add to the list\<close>

lemma growing_note [growing_steps]: "growing (note_missing absent key)"
  by (auto simp: growing_def note_missing_def result_simps split: if_split_asm)

lemma growing_require [growing_steps]: "growing (require b)"
  by (auto simp: growing_def require_def split: if_split_asm)

lemma growing_run [growing_steps]: "list_all growing fs \<Longrightarrow> growing (run_steps fs)"
proof (induction fs)
  case (Cons f fs)
  then have f: "growing f" "growing (run_steps fs)" by simp_all
  show ?case
    unfolding growing_def
  proof (intro allI impI)
    fix m m'
    assume "run_steps (f # fs) m = Inr m'"
    then obtain m1 where "f m = Inr m1" "run_steps fs m1 = Inr m'" by (auto simp: result_simps)
    with f obtain a b where "m1 = m @ a" "m' = m1 @ b" unfolding growing_def by blast
    then show "\<exists>more. m' = m @ more" by simp
  qed
qed (simp add: growing_def)

lemma when_one: "when_step b [f] m = (if b then f m else Inr m)"
  by (cases "f m") (simp_all add: when_step_def)

lemma growing_when [growing_steps]: "list_all growing fs \<Longrightarrow> growing (when_step b fs)"
  using growing_run by (simp add: when_step_def growing_def)

lemma growing_key [growing_steps]: "growing (api_key_step v)"
  by (auto simp: growing_def api_key_step_def result_simps split: if_split_asm)

lemma growing_text [growing_steps]: "growing (text_step v key)"
  by (simp add: text_step_def [abs_def] growing_note)

lemma growing_u32 [growing_steps]: "growing (u32_step v key)"
  by (simp add: u32_step_def [abs_def] growing_note)

lemma growing_common [growing_steps]: "growing (common_step v)"
  by (auto simp: growing_def common_step_def result_simps split: if_split_asm)

lemma growing_file [growing_steps]: "growing (file_step st v parent key)"
  by (auto simp: growing_def file_step_def result_simps split: option.split_asm if_split_asm)

lemma growing_all:
  "list_all growing (required_steps v @ [api_key_step v] @ login_steps v @ sdk_steps v @ file_steps st v parent)"
  by (auto simp: required_steps_def login_steps_def sdk_steps_def file_steps_def list_all_iff intro!: growing_steps)

lemma run_steps_append: "run_steps (fs @ gs) m = and_then (run_steps fs m) (run_steps gs)"
  by (induction fs arbitrary: m) (auto simp: and_then_def split: sum.split)

lemma run_steps_nothing:
  assumes "run_steps fs m = Inr []" "list_all growing fs"
  shows "m = [] \<and> (\<forall>f\<in>set fs. f [] = Inr [])"
  using assms
proof (induction fs arbitrary: m)
  case (Cons f fs)
  then obtain m' where m': "f m = Inr m'" "run_steps fs m' = Inr []" by (auto simp: result_simps)
  with Cons have "m' = []" "\<forall>f\<in>set fs. f [] = Inr []" by auto
  with m' Cons.prems(2) show ?case by (auto simp: growing_def)
qed simp

lemma note_missing_Nil: "note_missing absent key [] = Inr [] \<longleftrightarrow> absent = Inr False"
  by (auto simp: note_missing_def result_simps split: if_split_asm)

lemma string_missing_False: "string_missing v key = Inr False \<longleftrightarrow> (\<exists>s. toml_field v key = Some (TString s) \<and> trim s \<noteq> [])"
  by (auto simp: string_missing_def split: option.splits toml.splits)

text \<open>What an inspection that finds nothing missing has seen.\<close>

definition complete_file :: "store \<Rightarrow> path \<Rightarrow> toml \<Rightarrow> bool" where
  "complete_file st parent v \<longleftrightarrow>
     (\<forall>key\<in>{''session.region'', ''session.origin'', ''session.platform'', ''session.client_version''}.
        \<exists>s. toml_field v key = Some (TString s) \<and> trim s \<noteq> [])
     \<and> texts_missing v ''session.allowed_origins'' = Inr False
     \<and> ((\<exists>k. toml_get v ''api_key'' = Some (TString k) \<and> validate_api_key k = Inr ())
        \<or> (\<exists>s k. toml_field v ''api_key_file'' = Some (TString s) \<and> read_api_key st (join_path parent s) = Inr k
             \<and> validate_api_key k = Inr ()))
     \<and> (\<forall>key\<in>{''credentials_file'', ''login.context_file'', ''login.sdk_http_file'', ''login.state_dir''}. \<forall>s.
          toml_field v key = Some (TString s) \<and> trim s \<noteq> [] \<longrightarrow> file_missing st (join_path parent s) = Inr False)"

lemma file_step_Nil:
  assumes "file_step st v parent key [] = Inr []" "toml_field v key = Some (TString s)" "trim s \<noteq> []"
  shows "file_missing st (join_path parent s) = Inr False
    \<and> (key = ''api_key_file'' \<longrightarrow> (\<exists>k. read_api_key st (join_path parent s) = Inr k \<and> validate_api_key k = Inr ()))"
  using assms
  by (auto simp: file_step_def relative_file_def result_simps split: if_split_asm)

lemma complete_fileI:
  assumes "run_steps (required_steps v @ [api_key_step v] @ login_steps v @ sdk_steps v @ file_steps st v parent) missing = Inr []"
  shows "missing = [] \<and> complete_file st parent v"
proof -
  from run_steps_nothing [OF assms growing_all] have none: "missing = []" and
    steps: "\<And>f. f \<in> set (required_steps v @ [api_key_step v] @ login_steps v @ sdk_steps v @ file_steps st v parent) \<Longrightarrow> f [] = Inr []"
    by auto
  have required: "when_step (\<not> (key = ''api_key_file'' \<and> toml_get v ''api_key'' \<noteq> None))
      [note_missing (if key = ''session.allowed_origins'' then texts_missing v key else string_missing v key) key] [] = Inr []"
    if "key \<in> set REQUIRED" for key
    by (rule steps) (use that in \<open>simp add: required_steps_def\<close>)
  have key: "\<exists>s. toml_field v key = Some (TString s) \<and> trim s \<noteq> []"
    if "key \<in> {''session.region'', ''session.origin'', ''session.platform'', ''session.client_version''}" for key
  proof -
    have "key \<in> set REQUIRED" "key \<noteq> ''api_key_file''" "key \<noteq> ''session.allowed_origins''"
      using that by (auto simp: REQUIRED_def)
    with required [of key] show ?thesis
      by (simp add: when_one note_missing_Nil string_missing_False)
  qed
  have origins: "texts_missing v ''session.allowed_origins'' = Inr False"
    using required [of "''session.allowed_origins''"] by (simp add: REQUIRED_def when_one note_missing_Nil)
  have files: "file_step st v parent key [] = Inr []"
    if "key \<in> {''api_key_file'', ''credentials_file'', ''login.context_file'', ''login.sdk_http_file'', ''login.state_dir''}" for key
    by (rule steps) (use that in \<open>auto simp: file_steps_def\<close>)
  have secret: "(\<exists>k. toml_get v ''api_key'' = Some (TString k) \<and> validate_api_key k = Inr ())
        \<or> (\<exists>s k. toml_field v ''api_key_file'' = Some (TString s) \<and> read_api_key st (join_path parent s) = Inr k
             \<and> validate_api_key k = Inr ())"
  proof (cases "toml_get v ''api_key'' = None")
    case True
    with required [of "''api_key_file''"] obtain s where s: "toml_field v ''api_key_file'' = Some (TString s)" "trim s \<noteq> []"
      by (auto simp: REQUIRED_def when_one note_missing_Nil string_missing_False)
    with file_step_Nil [OF files s] show ?thesis by blast
  next
    case False
    have "api_key_step v [] = Inr []" by (rule steps) simp
    with False show ?thesis
      by (auto simp: api_key_step_def result_simps toml_text_def split: if_split_asm toml.split_asm)
  qed
  have "file_missing st (join_path parent s) = Inr False"
    if "key \<in> {''credentials_file'', ''login.context_file'', ''login.sdk_http_file'', ''login.state_dir''}"
      "toml_field v key = Some (TString s)" "trim s \<noteq> []" for key s
    using file_step_Nil [OF files that(2,3)] that(1) by auto
  with none key origins secret show ?thesis by (simp add: complete_file_def)
qed

section \<open>Properties\<close>


definition sample_toml :: toml where
  "sample_toml = TTable [(''api_key'', TString (replicate 32 (CHR ''k''))),
     (''session'', TTable [(''region'', TString ''en''), (''origin'', TString ''https://game.invalid''),
        (''allowed_origins'', TArray [TString ''https://game.invalid'']), (''platform'', TString ''android''),
        (''client_version'', TString ''1.0.3'')])]"

definition sample_start_library :: config_library where
  "sample_start_library = sample_config_library\<lparr>cl_parse_toml := (\<lambda>_. Some sample_toml)\<rparr>"

lemma sample_given:
  "toml_field sample_toml ''session.region'' = Some (TString ''en'')"
  "toml_field sample_toml ''session.origin'' = Some (TString ''https://game.invalid'')"
  "toml_field sample_toml ''session.allowed_origins'' = Some (TArray [TString ''https://game.invalid''])"
  "toml_field sample_toml ''session.platform'' = Some (TString ''android'')"
  "toml_field sample_toml ''session.client_version'' = Some (TString ''1.0.3'')"
  "toml_field sample_toml ''api_key'' = Some (TString (replicate 32 (CHR ''k'')))"
  by (simp_all add: toml_field_def toml_get_def sample_toml_def)

lemma sample_top:
  "toml_get sample_toml ''api_key'' = Some (TString (replicate 32 (CHR ''k'')))"
  "is_table_or_absent (toml_get sample_toml ''session'')"
  "toml_get sample_toml ''login'' = None" "toml_get sample_toml ''accounts'' = None"
  "toml_get sample_toml ''recovery'' = None" "toml_get sample_toml ''version_sync'' = None" "toml_get sample_toml ''regions'' = None"
  by (simp_all add: toml_get_def sample_toml_def is_table_or_absent_def)

lemma sample_absent:
  "toml_field sample_toml ''api_key_file'' = None" "toml_field sample_toml ''credentials_file'' = None"
  "toml_field sample_toml ''login.context'' = None" "toml_field sample_toml ''login.context_file'' = None"
  "toml_field sample_toml ''login.sdk_http'' = None" "toml_field sample_toml ''login.sdk_http_file'' = None"
  "toml_field sample_toml ''login.state_dir'' = None" "toml_field sample_toml ''login.sdk_http.common'' = None"
  by (simp_all add: toml_field_def toml_get_def sample_toml_def)

lemma white_space_ends:
  "\<forall>w\<in>set white_space. w \<noteq> [] \<and> \<not> (33 \<le> byte (hd w) \<and> byte (hd w) < 128) \<and> \<not> (33 \<le> byte (last w) \<and> byte (last w) < 128)"
  by (simp add: white_space_def byte_def)

lemma starts_with_hd: "starts_with s w \<Longrightarrow> w \<noteq> [] \<Longrightarrow> s \<noteq> [] \<and> hd s = hd w"
  by (cases s; cases w) (auto simp: starts_with_def)

lemma trim_plain:
  assumes "s \<noteq> []" "33 \<le> byte (hd s)" "byte (hd s) < 128" "33 \<le> byte (last s)" "byte (last s) < 128"
  shows "trim s = s"
proof -
  have "find (\<lambda>w. w \<noteq> [] \<and> starts_with s w) white_space = None"
    using white_space_ends starts_with_hd [of s] assms(2,3) by (fastforce simp: find_None_iff)
  then have left: "strip_tokens white_space s = s" by (simp add: strip_tokens.simps [of white_space s])
  have "\<not> starts_with (rev s) (rev w)" if "w \<in> set white_space" for w
  proof
    assume "starts_with (rev s) (rev w)"
    moreover have "w \<noteq> []" using white_space_ends that by blast
    ultimately have "last s = last w" using starts_with_hd [of "rev s" "rev w"] assms(1) by (simp add: hd_rev)
    with white_space_ends that assms(4,5) show False by auto
  qed
  then have "find (\<lambda>w. w \<noteq> [] \<and> starts_with (rev s) w) (map rev white_space) = None"
    by (auto simp: find_None_iff)
  then have "strip_tokens (map rev white_space) (rev s) = rev s"
    by (simp add: strip_tokens.simps [of "map rev white_space" "rev s"])
  with left show ?thesis by (simp add: trim_def)
qed

lemma sample_trims:
  "trim ''en'' = ''en''" "trim ''https://game.invalid'' = ''https://game.invalid''" "trim ''android'' = ''android''"
  "trim ''1.0.3'' = ''1.0.3''" "trim (replicate 32 (CHR ''k'')) = replicate 32 (CHR ''k'')"
  by (rule trim_plain; simp add: byte_def)+

lemma sample_key_valid: "validate_api_key (replicate 32 (CHR ''k'')) = Inr ()"
  by (simp add: validate_api_key_def list_all_iff list_ex_iff text_eval)

lemma sample_structure: "run_steps (structure_steps (\<lambda>_. None) sample_toml) [] = Inr []"
proof -
  have "is_table_or_absent None" by (simp add: is_table_or_absent_def)
  then show ?thesis by (simp add: structure_steps_def require_def sample_top sample_absent)
qed

lemma sample_steps:
  "run_steps (required_steps sample_toml @ [api_key_step sample_toml] @ login_steps sample_toml @ sdk_steps sample_toml
     @ file_steps sample_config_store sample_toml [''etc'']) [] = Inr []"
proof -
  have "run_steps (required_steps sample_toml) [] = Inr []"
    by (simp add: required_steps_def REQUIRED_def when_one note_missing_def sample_top sample_given string_missing_def
        sample_trims texts_missing_def toml_text_def)
  moreover have "api_key_step sample_toml [] = Inr []"
    by (simp add: api_key_step_def sample_top string_missing_def sample_given sample_trims toml_text_def sample_key_valid)
  moreover have "run_steps (login_steps sample_toml) [] = Inr []" "run_steps (sdk_steps sample_toml) [] = Inr []"
    by (simp_all add: login_steps_def sdk_steps_def when_step_def sample_top sample_absent)
  moreover have "run_steps (file_steps sample_config_store sample_toml [''etc'']) [] = Inr []"
    by (simp add: file_steps_def file_step_def relative_file_def sample_absent)
  ultimately show ?thesis by (simp add: run_steps_append)
qed


end
