(* ===== verification/Runtime.thy ===== *)
theory Runtime
  imports Config
begin

text \<open>
  One upstream and its authentication (\<open>server/src/runtime.rs\<close>), the sessions of an account
  directory, the reload, and the pools that \<open>main.rs\<close> builds from the configuration.  A failing
  \<open>unwrap\<close> is a value of its own: a computation is None when it panics.
\<close>

section \<open>Panics\<close>

type_synonym 'a attempt = "'a outcome option"

definition attempt_then :: "'a attempt \<Rightarrow> ('a \<Rightarrow> 'b attempt) \<Rightarrow> 'b attempt" where
  "attempt_then r f =
     (case r of
        None \<Rightarrow> None
      | Some (Inl e) \<Rightarrow> Some (Inl e)
      | Some (Inr x) \<Rightarrow> f x)"

definition unwrap :: "'a option \<Rightarrow> 'a attempt" where
  "unwrap v = map_option Inr v"

fun attempt_all :: "('a \<Rightarrow> 'b attempt) \<Rightarrow> 'a list \<Rightarrow> 'b list attempt" where
  "attempt_all f [] = Some (Inr [])"
| "attempt_all f (x # xs) = attempt_then (f x) (\<lambda>y. attempt_then (attempt_all f xs) (\<lambda>ys. Some (Inr (y # ys))))"

section \<open>The runtime\<close>

datatype recovery_source = AccountLogin | SavedLogin

datatype loader_source = AccountLoader | JpLoader

text \<open>
  \<open>rt_selected\<close> is there with an account client, and holds the identity the client keeps; the
  managed client is given by what it is built with.
\<close>

record runtime =
  rt_config :: "string config"
  rt_client :: client
  rt_recovery :: "recovery_source option"
  rt_loader :: "loader_source option"
  rt_cooldown :: nat
  rt_selected :: "string option option"
  rt_jp_accounts :: bool

record 'k runtime_env =
  re_library :: library
  re_sdk :: "'k sdk_library"
  re_codec :: operator_codec
  re_now :: nat
  re_binding :: nat
  re_connect :: "session_config \<Rightarrow> nat option"
  re_listing :: listing

definition saved_credentials :: "'k runtime_env \<Rightarrow> store \<Rightarrow> string config \<Rightarrow> static_credentials option outcome" where
  "saved_credentials env st c =
     (case cf_login c of
        Some l \<Rightarrow> operator_credentials (re_codec env) st l (cf_session c)
      | None \<Rightarrow> transposed (static_from_file (oc_files (re_codec env)) st) (cf_credentials_file c))"

definition managed_options_for :: "recovery_source option \<Rightarrow> loader_source option \<Rightarrow> nat \<Rightarrow> managed_options" where
  "managed_options_for recovery loader cooldown =
     \<lparr>has_recovery = recovery \<noteq> None, has_loader = loader \<noteq> None, mo_cooldown = cooldown\<rparr>"

text \<open>\<open>Runtime::new\<close>; \<open>g\<close> is the generation of the new client.\<close>

definition runtime_new :: "'k runtime_env \<Rightarrow> store \<Rightarrow> generation \<Rightarrow> string config \<Rightarrow> runtime attempt" where
  "runtime_new env st g c =
     (if (case cf_accounts c of None \<Rightarrow> False | Some a \<Rightarrow> ac_strategy a \<noteq> SingleAccount) then Some (fail InvalidConfig)
      else
        attempt_then (Some (case cf_login c of
            None \<Rightarrow> Inr ()
          | Some l \<Rightarrow> operator_validate (re_library env) (re_sdk env) (re_codec env) (re_now env) (re_binding env) st l (cf_session c))) (\<lambda>_.
        attempt_then (Some (if cf_accounts c \<noteq> None then Inr None else saved_credentials env st c)) (\<lambda>provider.
        attempt_then (Some (client_new (re_library env) (re_connect env) (cf_session c)
            (map_option (static_provide (re_library env)) provider) (config_client_options c) g (re_now env))) (\<lambda>client.
        attempt_then (if rc_enabled (cf_recovery c) \<and> provider \<noteq> None
                      then attempt_then (unwrap (cf_login c)) (\<lambda>l.
                             Some (and_then (approved_sdk (re_library env) (re_codec env) st l (cf_session c)) (\<lambda>_. Inr ())))
                      else Some (Inr ())) (\<lambda>_.
        attempt_then (case cf_accounts c of
            Some a \<Rightarrow>
              if region (cf_session c) \<noteq> ''jp''
              then attempt_then (unwrap (cf_login c)) (\<lambda>_.
                     Some (and_then (account_client_new (re_library env) a (cf_session c)) (\<lambda>kept. Inr (Some kept))))
              else Some (Inr None)
          | None \<Rightarrow> Some (Inr None)) (\<lambda>accounts.
        attempt_then (if rc_enabled (cf_recovery c)
                      then (if accounts \<noteq> None then Some (Inr (Some AccountLogin))
                            else attempt_then (unwrap (cf_login c)) (\<lambda>_. Some (Inr (Some SavedLogin))))
                      else Some (Inr None)) (\<lambda>recovery.
        let jp = region (cf_session c) = ''jp'' \<and> cf_accounts c \<noteq> None in
        attempt_then (if jp
                      then attempt_then (unwrap (cf_accounts c)) (\<lambda>a. Some (jp_account_client_new a (cf_session c)))
                      else Some (Inr ())) (\<lambda>_.
          Some (Inr \<lparr>rt_config = c, rt_client = client, rt_recovery = recovery,
                     rt_loader = (if jp then Some JpLoader else if accounts \<noteq> None then Some AccountLoader else None),
                     rt_cooldown = 1000 * rc_cooldown_seconds (cf_recovery c),
                     rt_selected = accounts, rt_jp_accounts = jp\<rparr>)))))))))"

text \<open>The member of one account file; the file name is the last component.\<close>

definition member_config :: "string config \<Rightarrow> path \<Rightarrow> string config attempt" where
  "member_config c file =
     attempt_then (unwrap (cf_accounts c)) (\<lambda>a.
     attempt_then (if file = [] then Some (fail InvalidConfig) else Some (Inr (last file))) (\<lambda>name.
       Some (Inr (c\<lparr>cf_regions := [], cf_accounts := Some (a\<lparr>ac_strategy := SingleAccount, ac_selected := Some name\<rparr>)\<rparr>))))"

text \<open>\<open>for_accounts\<close>; \<open>fresh\<close> gives the generation of each member.\<close>

definition for_accounts :: "'k runtime_env \<Rightarrow> store \<Rightarrow> (path \<Rightarrow> generation) \<Rightarrow> string config \<Rightarrow> runtime list attempt" where
  "for_accounts env st fresh c =
     (case cf_accounts c of
        Some a \<Rightarrow>
          if ac_strategy a = RoundRobin
          then attempt_then (Some (file_list (re_listing env) st a)) (\<lambda>files.
                 if MAX_SESSIONS < length files then Some (fail InvalidConfig)
                 else attempt_all (\<lambda>file. attempt_then (member_config c file) (runtime_new env st (fresh file))) files)
          else attempt_then (runtime_new env st (fresh []) c) (\<lambda>r. Some (Inr [r]))
      | None \<Rightarrow> attempt_then (runtime_new env st (fresh []) c) (\<lambda>r. Some (Inr [r])))"

text \<open>
  \<open>reload\<close>: the replacement runs only when no recovery and no version check is under way, and
  the managed state follows it.
\<close>

definition reload_session :: "'k runtime_env \<Rightarrow> store \<Rightarrow> generation \<Rightarrow> runtime \<Rightarrow> unit outcome \<times> runtime" where
  "reload_session env st g rt =
     (let replace = (\<lambda>provider. replace_session (re_library env) (re_connect env) (session_config_of (rt_client rt)) provider g (rt_client rt)) in
      if rt_jp_accounts rt then (case replace None of (r, client) \<Rightarrow> (r, rt\<lparr>rt_client := client\<rparr>))
      else if rt_selected rt \<noteq> None
      then (case replace None of
              (Inl e, client) \<Rightarrow> (Inl e, rt\<lparr>rt_client := client\<rparr>)
            | (Inr _, client) \<Rightarrow> (Inr (), rt\<lparr>rt_client := client, rt_selected := Some None\<rparr>))
      else (case saved_credentials env st (rt_config rt) of
              Inl e \<Rightarrow> (Inl e, rt)
            | Inr provider \<Rightarrow>
                (case replace (map_option (static_provide (re_library env)) provider) of
                   (r, client) \<Rightarrow> (r, rt\<lparr>rt_client := client\<rparr>))))"

definition runtime_reload ::
  "'k runtime_env \<Rightarrow> store \<Rightarrow> generation \<Rightarrow> runtime \<Rightarrow> managed_state \<Rightarrow> unit outcome \<times> runtime \<times> managed_state" where
  "runtime_reload env st g rt ms =
     (if phase ms = Recovering \<or> version_updating ms then (fail QueueFull, rt, ms)
      else (case reload_session env st g rt of
              (r, rt') \<Rightarrow> (case reload r ms of (r', ms') \<Rightarrow> (r', rt', ms'))))"

text \<open>\<open>start\<close>: the version synchronisation, if it is enabled, on the managed state.\<close>

definition runtime_start :: "runtime \<Rightarrow> managed_state \<Rightarrow> managed_state" where
  "runtime_start rt ms =
     (let sync = cf_version_sync (rt_config rt) in
      if vs_enabled sync
      then start_version_sync (of_nat (vs_interval_seconds sync)) (vs_follow_client_updates sync)
             (client_version (session_config_of (rt_client rt))) ms
      else ms)"

section \<open>The pools of the server\<close>

text \<open>What a pool asks: a managed client, or a bare one when there is no session at all.\<close>

datatype session_client = Managed runtime | Bare client

definition make_pool :: "cache_options \<Rightarrow> bool \<Rightarrow> runtime list \<Rightarrow> session_client pool outcome" where
  "make_pool opts stopped runtimes = pool_new opts (map Managed runtimes) stopped"

definition cache_options_of :: "cache_options \<Rightarrow> string config \<Rightarrow> cache_options" where
  "cache_options_of dflt c = dflt\<lparr>ttl := 1000 * cf_cache_ttl_seconds c, capacity := cf_cache_capacity c\<rparr>"

text \<open>The default sessions, all other sessions, and the pools of the regions.\<close>

definition server_regions ::
  "'k runtime_env \<Rightarrow> store \<Rightarrow> (region option \<Rightarrow> path \<Rightarrow> generation) \<Rightarrow> cache_options \<Rightarrow> bool \<Rightarrow> string config \<Rightarrow>
     (runtime list \<times> runtime list \<times> session_client pool region_clients) attempt" where
  "server_regions env st fresh dflt stopped c =
     attempt_then (for_accounts env st (fresh None) c) (\<lambda>default_runtimes.
     attempt_then (Some (make_pool (cache_options_of dflt c) stopped default_runtimes)) (\<lambda>default_pool.
     let own = from_session (region (cf_session c)) in
     attempt_then (attempt_all (\<lambda>(r, g).
         attempt_then (for_accounts env st (fresh (Some r)) (for_region c g)) (\<lambda>members.
         attempt_then (Some (make_pool (cache_options_of dflt c) stopped members)) (\<lambda>pool. Some (Inr (members, r, pool)))))
       (cf_regions c)) (\<lambda>regional.
     attempt_then (Some (with_pools own ((case own of None \<Rightarrow> [] | Some r \<Rightarrow> [(r, default_pool)]) @ map snd regional))) (\<lambda>regions.
       Some (Inr (default_runtimes, concat (map fst regional), regions))))))"

text \<open>The application behind the listener; \<open>g\<close> is the generation of a bare client.\<close>

definition server_app ::
  "'k runtime_env \<Rightarrow> web_library \<Rightarrow> store \<Rightarrow> generation \<Rightarrow> (region option \<Rightarrow> path \<Rightarrow> generation) \<Rightarrow> cache_options \<Rightarrow> bool \<Rightarrow>
     string config \<Rightarrow> (runtime list \<times> session_client pool api_state) attempt" where
  "server_app env web st g fresh dflt stopped c =
     attempt_then (server_regions env st fresh dflt stopped c) (\<lambda>(default_runtimes, others, regions).
     attempt_then (case default_runtimes of
         rt # _ \<Rightarrow> Some (Inr (Managed rt))
       | [] \<Rightarrow> Some (and_then (client_new (re_library env) (re_connect env) (cf_session c) None (config_client_options c) g (re_now env))
                 (\<lambda>client. Inr (Bare client)))) (\<lambda>fallback.
     attempt_then (Some (config_api_key st c)) (\<lambda>key.
     attempt_then (Some (router_with_regions web fallback key \<lparr>ro_mode = config_mode c, ro_access_log = cf_access_log c\<rparr>
         (cache_options_of dflt c) stopped regions)) (\<lambda>app.
       Some (Inr (default_runtimes @ others, app))))))"

section \<open>Facts\<close>

lemma attempt_then_simps [simp]:
  "attempt_then None f = None" "attempt_then (Some (Inl e)) f = Some (Inl e)" "attempt_then (Some (Inr x)) f = f x"
  by (simp_all add: attempt_then_def)

lemma attempt_then_Inr:
  "attempt_then r f = Some (Inr y) \<longleftrightarrow> (\<exists>x. r = Some (Inr x) \<and> f x = Some (Inr y))"
  by (auto simp: attempt_then_def split: option.split sum.split)

lemma attempt_then_None:
  "attempt_then r f = None \<longleftrightarrow> r = None \<or> (\<exists>x. r = Some (Inr x) \<and> f x = None)"
  by (auto simp: attempt_then_def split: option.split sum.split)

lemma unwrap_eq [simp]: "unwrap v = None \<longleftrightarrow> v = None" "unwrap v = Some r \<longleftrightarrow> (\<exists>x. v = Some x \<and> r = Inr x)"
  by (auto simp: unwrap_def)

lemma attempt_all_returns: "attempt_all f xs = None \<Longrightarrow> \<exists>x\<in>set xs. f x = None"
  by (induction xs) (auto simp: attempt_then_None)

lemma attempt_all_Inr: "attempt_all f xs = Some (Inr ys) \<Longrightarrow> list_all2 (\<lambda>x y. f x = Some (Inr y)) xs ys"
  by (induction xs arbitrary: ys) (auto simp: attempt_then_Inr)

lemma runtime_new_returns:
  assumes "config_ok c"
  shows "runtime_new env st g c \<noteq> None"
proof -
  have login: "cf_login c \<noteq> None" if "rc_enabled (cf_recovery c)" using assms that by (simp add: config_ok_def)
  have account: "cf_login c \<noteq> None" if "region (cf_session c) \<noteq> ''jp''" "cf_accounts c \<noteq> None"
    using assms that by (auto simp: config_ok_def)
  show ?thesis
  proof
    assume "runtime_new env st g c = None"
    with login account show False
      by (auto simp: runtime_new_def Let_def attempt_then_None split: option.split_asm if_split_asm)
  qed
qed

lemma member_config_Inr:
  "member_config c file = Some (Inr m) \<longleftrightarrow>
     (\<exists>a. cf_accounts c = Some a \<and> file \<noteq> []
       \<and> m = c\<lparr>cf_regions := [], cf_accounts := Some (a\<lparr>ac_strategy := SingleAccount, ac_selected := Some (last file)\<rparr>)\<rparr>)"
  by (auto simp: member_config_def attempt_then_Inr split: if_split_asm)

lemma member_config_ok: "config_ok c \<Longrightarrow> member_config c src = Some (Inr m) \<Longrightarrow> config_ok m"
proof -
  assume c: "config_ok c" and "member_config c src = Some (Inr m)"
  then obtain a where a: "cf_accounts c = Some a"
    "m = c\<lparr>cf_regions := [], cf_accounts := Some (a\<lparr>ac_strategy := SingleAccount, ac_selected := Some (last src)\<rparr>)\<rparr>"
    by (auto simp: member_config_Inr)
  from c a(1) show "config_ok m" by (simp add: config_ok_def a(2))
qed

lemma for_accounts_returns:
  assumes "config_ok c"
  shows "for_accounts env st fresh c \<noteq> None"
proof
  assume "for_accounts env st fresh c = None"
  moreover have "member_config c source \<noteq> None" if "cf_accounts c \<noteq> None" for source
    using that by (auto simp: member_config_def attempt_then_None split: if_split_asm)
  moreover have "runtime_new env st g c \<noteq> None" for g by (rule runtime_new_returns [OF assms])
  moreover have "runtime_new env st g m \<noteq> None" if "member_config c source = Some (Inr m)" for g m source
    by (rule runtime_new_returns [OF member_config_ok [OF assms that]])
  ultimately show False
    by (auto simp: for_accounts_def attempt_then_None split: option.split_asm if_split_asm dest!: attempt_all_returns)
      (metis option.distinct(1))+
qed

lemma runtime_new_config: "runtime_new env st g c = Some (Inr rt) \<Longrightarrow> rt_config rt = c"
  by (auto simp: runtime_new_def attempt_then_Inr Let_def split: if_split_asm)

lemma for_accounts_sessions:
  assumes "for_accounts env st fresh c = Some (Inr rts)" "rt \<in> set rts"
  shows "cf_session (rt_config rt) = cf_session c"
proof (cases "\<exists>a. cf_accounts c = Some a \<and> ac_strategy a = RoundRobin")
  case True
  with assms(1) obtain files where "attempt_all (\<lambda>file. attempt_then (member_config c file) (runtime_new env st (fresh file))) files
      = Some (Inr rts)"
    by (auto simp: for_accounts_def attempt_then_Inr split: if_split_asm)
  from attempt_all_Inr [OF this] assms(2) obtain source m where
    "member_config c source = Some (Inr m)" "runtime_new env st (fresh source) m = Some (Inr rt)"
    by (fastforce simp: list_all2_conv_all_nth in_set_conv_nth attempt_then_Inr)
  then show ?thesis by (auto simp: member_config_Inr dest: runtime_new_config)
next
  case False
  with assms(1) obtain r where "runtime_new env st (fresh []) c = Some (Inr r)" "rts = [r]"
    by (auto simp: for_accounts_def attempt_then_Inr split: option.split_asm if_split_asm)
  with assms(2) show ?thesis by (auto dest: runtime_new_config)
qed

text \<open>The member files are those listed, each once.\<close>

lemma listed_names_distinct:
  "listed_names i es = Inr names \<Longrightarrow> distinct es \<Longrightarrow> distinct names \<and> Some ` set names \<subseteq> set es"
proof (induction i es arbitrary: names rule: listed_names.induct)
  case (3 i name es)
  from 3(2) obtain rest where r: "i \<noteq> MAX_FILES" "listed_names (i + 1) es = Inr rest"
    "names = (if valid_name name then name # rest else rest)"
    by (auto simp: result_simps split: if_split_asm)
  with 3(1) [OF r(1,2)] 3(3) show ?case by auto
qed simp_all

lemma file_list_distinct:
  assumes "file_list entries st ac = Inr files" "ac_selected ac = None"
    and "\<And>es. entries (ac_directory ac) = Some es \<Longrightarrow> distinct es"
  shows "\<exists>names. distinct names \<and> (\<forall>name\<in>set names. valid_name name) \<and> files = map (\<lambda>name. ac_directory ac @ [name]) names"
proof (cases "files = []")
  case False
  with assms(1,2) obtain es names where l: "entries (ac_directory ac) = Some es"
    "listed_names 0 (take (MAX_FILES + 1) es) = Inr names" "files = sort (map (\<lambda>name. ac_directory ac @ [name]) names)"
    by (auto simp: file_list_def result_simps split: if_split_asm)
  let ?f = "\<lambda>name. ac_directory ac @ [name]"
  from l assms(3) have names: "distinct names" "\<forall>name\<in>set names. valid_name name"
    using listed_names_distinct [OF l(2)] listed_names_Inr [OF l(2)] by simp_all
  have "\<forall>p\<in>set files. p = ?f (last p) \<and> valid_name (last p)" using l(3) names(2) by auto
  then have "files = map ?f (map last files)" "\<forall>name\<in>set (map last files). valid_name name"
    by (induction files) simp_all
  moreover have "distinct (map last files)"
  proof -
    have "distinct files" using l(3) names(1) by (simp add: distinct_map inj_on_def)
    moreover have "inj_on last (set files)" using l(3) by (auto simp: inj_on_def)
    ultimately show ?thesis by (simp add: distinct_map)
  qed
  ultimately show ?thesis by blast
qed auto

definition selected_file :: "runtime \<Rightarrow> string option" where
  "selected_file rt = Option.bind (cf_accounts (rt_config rt)) ac_selected"

lemma members_selected:
  assumes "attempt_all (\<lambda>source. attempt_then (member_config c source) (runtime_new env st (fresh source))) files = Some (Inr rts)"
  shows "map selected_file rts = map (Some \<circ> last) files"
proof -
  from attempt_all_Inr [OF assms] show ?thesis
  proof (induction files rts rule: list_all2_induct)
    case (Cons source files rt rts)
    then obtain m where "member_config c source = Some (Inr m)" "runtime_new env st (fresh source) m = Some (Inr rt)"
      by (auto simp: attempt_then_Inr)
    then have "selected_file rt = Some (last source)"
      by (auto simp: member_config_Inr selected_file_def dest!: runtime_new_config)
    with Cons show ?case by simp
  qed simp
qed

section \<open>Properties\<close>

text \<open>
  C34: a configuration that was accepted is started without a panic.  Every login that building
  the runtimes takes for granted is there: none of the \<open>unwrap\<close>s of the default session or of
  a regional one, of a single session or of the members of an account directory, can fail.
\<close>

theorem accepted_configuration_never_panics:
  assumes "config_from_text lib st text file = Inr c"
  shows "for_accounts env st fresh c \<noteq> None
    \<and> (\<forall>(r, g)\<in>set (cf_regions c). for_accounts env st fresh (for_region c g) \<noteq> None)
    \<and> server_regions env st served dflt stopped c \<noteq> None"
proof -
  note sound = config_sound [OF assms]
  have own: "for_accounts env st fresh c \<noteq> None" for fresh
    by (rule for_accounts_returns [OF conjunct1 [OF sound]])
  have regions: "for_accounts env st fresh (for_region c g) \<noteq> None" if "(r, g) \<in> set (cf_regions c)" for r g fresh
    by (rule for_accounts_returns) (use sound that in auto)
  have "server_regions env st served dflt stopped c \<noteq> None"
  proof
    assume "server_regions env st served dflt stopped c = None"
    with regions own show False
      by (auto simp: server_regions_def Let_def attempt_then_None split: option.split_asm dest!: attempt_all_returns)
        (metis option.distinct(1))+
  qed
  with regions own show ?thesis by auto
qed

text \<open>
  C35: the sessions of an account directory are different accounts.  With the round robin
  strategy there are at most 32 of them, each for the file of one plain name in the directory,
  and no two for the same file.
\<close>

theorem pool_members_use_different_accounts:
  assumes "for_accounts env st fresh c = Some (Inr rts)"
    and "cf_accounts c = Some a" "ac_strategy a = RoundRobin" "ac_selected a = None"
    and "\<And>es. re_listing env (ac_directory a) = Some es \<Longrightarrow> distinct es"
  shows "length rts \<le> MAX_SESSIONS \<and> distinct (map selected_file rts)
    \<and> (\<forall>rt\<in>set rts. \<exists>name. selected_file rt = Some name \<and> valid_name name)"
proof -
  from assms(1-3) obtain files where l: "file_list (re_listing env) st a = Inr files" "length files \<le> MAX_SESSIONS" and
    all: "attempt_all (\<lambda>source. attempt_then (member_config c source) (runtime_new env st (fresh source))) files = Some (Inr rts)"
    by (auto simp: for_accounts_def attempt_then_Inr split: if_split_asm)
  from file_list_distinct [OF l(1) assms(4,5)] obtain names where n: "distinct names" "\<forall>name\<in>set names. valid_name name"
    "files = map (\<lambda>name. ac_directory a @ [name]) names" by blast
  have s: "map selected_file rts = map Some names"
    using members_selected [OF all] n(3) by (simp add: comp_def)
  have "length rts = length files" using arg_cong [OF members_selected [OF all], of length] by simp
  moreover have "distinct (map selected_file rts)" using s n(1) by (simp add: distinct_map)
  moreover have "\<exists>name. selected_file rt = Some name \<and> valid_name name" if "rt \<in> set rts" for rt
  proof -
    have "selected_file rt \<in> Some ` set names" using that s by (metis image_eqI list.set_map)
    with n(2) show ?thesis by auto
  qed
  ultimately show ?thesis using l(2) by simp
qed

text \<open>What the sessions of a server are, shared by the two properties below.\<close>

lemma pool_new_members: "pool_new o' clients stopped = Inr p \<Longrightarrow> m \<in> set (members p) \<Longrightarrow> m_client m \<in> set clients"
  by (auto simp: pool_new_def result_simps split: if_split_asm)

lemma make_pool_members: "make_pool o' stopped rs = Inr p \<Longrightarrow> m \<in> set (members p) \<Longrightarrow> \<exists>rt\<in>set rs. m_client m = Managed rt"
  by (auto simp: make_pool_def pool_new_def result_simps split: if_split_asm)

definition serves_region :: "runtime list \<Rightarrow> region \<Rightarrow> session_client \<Rightarrow> bool" where
  "serves_region rts r s \<longleftrightarrow> (\<exists>rt\<in>set rts. s = Managed rt \<and> from_session (region (cf_session (rt_config rt))) = Some r)"

lemma regional_pool:
  assumes "config_from_text lib st text file = Inr c" "(r, g) \<in> set (cf_regions c)"
    and "for_accounts env st fresh (for_region c g) = Some (Inr rs)" "make_pool o' stopped rs = Inr pool"
    and "m \<in> set (members pool)"
  shows "serves_region rs r (m_client m)"
proof -
  from make_pool_members [OF assms(4,5)] obtain rt where rt: "rt \<in> set rs" "m_client m = Managed rt" by blast
  from for_accounts_sessions [OF assms(3) rt(1)] have "cf_session (rt_config rt) = rg_session g" by (simp add: for_region_def)
  with config_sound [OF assms(1)] assms(2) rt show ?thesis by (auto simp: serves_region_def)
qed

lemma server_regions_sound:
  assumes "config_from_text lib st text file = Inr c" "server_regions env st served dflt stopped c = Some (Inr (own, others, rc))"
  shows "for_accounts env st (served None) c = Some (Inr own)"
    and "dom (region_cache rc) = set_option (from_session (region (cf_session c))) \<union> fst ` set (cf_regions c)"
    and "region_cache rc r = Some pool \<Longrightarrow> m \<in> set (members pool) \<Longrightarrow> serves_region (own @ others) r (m_client m)"
    and "default_region rc = from_session (region (cf_session c))"
    and "default_cache rc = Some pool \<Longrightarrow> m \<in> set (members pool) \<Longrightarrow> \<exists>rt\<in>set own. m_client m = Managed rt"
proof -
  let ?own = "from_session (region (cf_session c))"
  let ?region = "\<lambda>(r, g). attempt_then (for_accounts env st (served (Some r)) (for_region c g)) (\<lambda>members.
         attempt_then (Some (make_pool (cache_options_of dflt c) stopped members)) (\<lambda>pool. Some (Inr (members, r, pool))))"
  from assms(2) obtain dpool regional where
    d: "for_accounts env st (served None) c = Some (Inr own)" "make_pool (cache_options_of dflt c) stopped own = Inr dpool" and
    pools: "attempt_all ?region (cf_regions c) = Some (Inr regional)" and
    rc: "with_pools ?own ((case ?own of None \<Rightarrow> [] | Some r \<Rightarrow> [(r, dpool)]) @ map snd regional) = Inr rc" and
    others: "others = concat (map fst regional)"
    by (auto simp: server_regions_def Let_def attempt_then_Inr)
  show "for_accounts env st (served None) c = Some (Inr own)" by (rule d(1))
  note each = attempt_all_Inr [OF pools]
  have "list_all2 (\<lambda>x y. fst x = fst (snd y)) (cf_regions c) regional"
    by (rule list_all2_mono [OF each]) (auto simp: attempt_then_Inr)
  then have keys: "map (fst \<circ> snd) regional = map fst (cf_regions c)"
    by (simp add: list_all2_conv_all_nth list_eq_iff_nth_eq)
  have from_regional: "serves_region (own @ others) r (m_client m)"
    if "(r, pool) \<in> set (map snd regional)" "m \<in> set (members pool)" for r pool m
  proof -
    from that(1) obtain j where j: "j < length regional" "snd (regional ! j) = (r, pool)"
      by (auto simp: in_set_conv_nth)
    obtain r' g where x: "cf_regions c ! j = (r', g)" by fastforce
    from each j x have "?region (r', g) = Some (Inr (regional ! j))" "j < length (cf_regions c)"
      by (auto simp: list_all2_conv_all_nth)
    moreover obtain rs where e: "regional ! j = (rs, r, pool)" using j(2) by (cases "regional ! j") simp
    ultimately have g: "(r, g) \<in> set (cf_regions c)" "fst (regional ! j) = rs"
      "for_accounts env st (served (Some r)) (for_region c g) = Some (Inr rs)"
      "make_pool (cache_options_of dflt c) stopped rs = Inr pool"
      using nth_mem [of j "cf_regions c"] x by (auto simp: attempt_then_Inr)
    have "set rs \<subseteq> set others" using g(2) j(1) nth_mem [OF j(1)] by (force simp: others)
    with regional_pool [OF assms(1) g(1,3,4) that(2)] show ?thesis by (auto simp: serves_region_def)
  qed
  have from_default: "serves_region (own @ others) r (m_client m)" if "?own = Some r" "m \<in> set (members dpool)" for r m
    using make_pool_members [OF d(2) that(2)] for_accounts_sessions [OF d(1)] that(1) by (auto simp: serves_region_def)
  note table = with_pools_Inr [OF rc]
  show "default_region rc = ?own" by (rule table(4))
  show "\<exists>rt\<in>set own. m_client m = Managed rt" if "default_cache rc = Some pool" "m \<in> set (members pool)"
  proof -
    have "pool = dpool" using that(1) table(2,4) by (auto simp: default_cache_def split: option.split_asm)
    with make_pool_members [OF d(2)] that(2) show ?thesis by blast
  qed
  have "dom (region_cache rc) = fst ` set ((case ?own of None \<Rightarrow> [] | Some r \<Rightarrow> [(r, dpool)]) @ map snd regional)"
    unfolding table(2) by (rule dom_map_of_conv_image_fst)
  also have "\<dots> = set_option ?own \<union> fst ` set (cf_regions c)"
    using arg_cong [OF keys, of set] by (cases ?own) (simp_all add: image_image comp_def)
  finally show "dom (region_cache rc) = set_option ?own \<union> fst ` set (cf_regions c)" .
  assume "region_cache rc r = Some pool" and m: "m \<in> set (members pool)"
  then have "(r, pool) \<in> set ((case ?own of None \<Rightarrow> [] | Some r \<Rightarrow> [(r, dpool)]) @ map snd regional)"
    unfolding table(2) by (metis map_of_SomeD)
  then consider "?own = Some r" "pool = dpool" | "(r, pool) \<in> set (map snd regional)" by (auto split: option.split_asm)
  then show "serves_region (own @ others) r (m_client m)" using from_regional from_default m by cases auto
qed

text \<open>
  C36: each region is served by its own sessions.  The regions served are that of the default
  session and the configured ones, and every session in the pool of a region is one of those
  started, configured for that region.
\<close>

theorem regions_are_served_by_their_own_sessions:
  assumes "config_from_text lib st text file = Inr c"
    and "server_regions env st served dflt stopped c = Some (Inr (own, others, rc))"
  shows "dom (region_cache rc) = set_option (from_session (region (cf_session c))) \<union> fst ` set (cf_regions c)
    \<and> (\<forall>r pool. region_cache rc r = Some pool \<longrightarrow>
        (\<forall>m\<in>set (members pool). \<exists>rt\<in>set (own @ others). m_client m = Managed rt
           \<and> from_session (region (cf_session (rt_config rt))) = Some r))"
proof -
  have "\<forall>m\<in>set (members pool). \<exists>rt\<in>set (own @ others). m_client m = Managed rt
      \<and> from_session (region (cf_session (rt_config rt))) = Some r" if "region_cache rc r = Some pool" for r pool
    using server_regions_sound(3) [OF assms that] by (simp add: serves_region_def)
  with server_regions_sound(2) [OF assms] show ?thesis by blast
qed

lemma for_accounts_single:
  assumes "for_accounts env st fresh c = Some (Inr rts)" "config_ok c" "from_session (region (cf_session c)) = None"
  shows "length rts = 1"
  using assms
  by (auto simp: for_accounts_def config_ok_def attempt_then_Inr split: option.split_asm if_split_asm)

lemma router_key:
  assumes "router_with_regions web fallback key ro opts stopped rc = Inr app"
  shows "32 \<le> length key" "api_mode app = ro_mode ro"
    and "authorized web app headers \<longleftrightarrow>
      (\<exists>token. headers = [Some (''Bearer '' @ token)] \<and> length token \<le> 4096 \<and> lib_sha256 web token = lib_sha256 web key)"
    and "(case default_cache rc of Some pool \<Rightarrow> Inr pool | None \<Rightarrow> pool_new opts [fallback] stopped) = Inr (api_cache app)"
proof -
  from assms have a: "api_mode app = ro_mode ro" "key_hash app = lib_sha256 web key" "valid_api_key key"
    and pool: "(case default_cache rc of Some pool \<Rightarrow> Inr pool | None \<Rightarrow> pool_new opts [fallback] stopped) = Inr (api_cache app)"
    by (auto simp: router_with_regions_def result_simps split: if_split_asm)
  show "(case default_cache rc of Some pool \<Rightarrow> Inr pool | None \<Rightarrow> pool_new opts [fallback] stopped) = Inr (api_cache app)"
    by (rule pool)
  from a show "32 \<le> length key" "api_mode app = ro_mode ro" by (auto simp: valid_api_key_def)
  have "bearer_token headers = Some token \<longleftrightarrow> headers = [Some (''Bearer '' @ token)]" for token
    by (auto simp: bearer_token_def strip_prefix_Some simp del: append_Cons append_Nil split: option.split list.split)
  then show "authorized web app headers \<longleftrightarrow>
      (\<exists>token. headers = [Some (''Bearer '' @ token)] \<and> length token \<le> 4096 \<and> lib_sha256 web token = lib_sha256 web key)"
    by (simp add: authorized_def a(2) split: option.split) (metis option.distinct(1) option.inject not_None_eq)
qed

text \<open>
  C37: the server answers the holders of its configured key, from its configured sessions.  The
  key is that of the configuration, of at least 32 characters; a request is authorized exactly
  when its only authorization header is a bearer token of at most 4096 bytes with the digest of
  that key; the response mode is the configured one; and every session that answers the queries
  without a region is a started one of the default configuration.
\<close>

theorem server_answers_its_key_holders:
  assumes "config_from_text lib st text file = Inr c"
    and "server_app env web st g served dflt stopped c = Some (Inr (rts, app))"
  shows "(\<exists>key. config_api_key st c = Inr key \<and> 32 \<le> length key
      \<and> (\<forall>headers. authorized web app headers \<longleftrightarrow>
          (\<exists>token. headers = [Some (''Bearer '' @ token)] \<and> length token \<le> 4096 \<and> lib_sha256 web token = lib_sha256 web key)))
    \<and> api_mode app = config_mode c
    \<and> (\<forall>m\<in>set (members (api_cache app)). \<exists>rt\<in>set rts. m_client m = Managed rt \<and> cf_session (rt_config rt) = cf_session c)"
proof -
  from assms(2) obtain own others rc fallback key where
    r: "server_regions env st served dflt stopped c = Some (Inr (own, others, rc))" "rts = own @ others" and
    choice: "(case own of
         rt # _ \<Rightarrow> Some (Inr (Managed rt))
       | [] \<Rightarrow> Some (and_then (client_new (re_library env) (re_connect env) (cf_session c) None (config_client_options c) g (re_now env))
                 (\<lambda>client. Inr (Bare client)))) = Some (Inr fallback)" and key: "config_api_key st c = Inr key" and
    app: "router_with_regions web fallback key \<lparr>ro_mode = config_mode c, ro_access_log = cf_access_log c\<rparr>
      (cache_options_of dflt c) stopped rc = Inr app"
    by (auto simp: server_app_def attempt_then_Inr)
  have f: "own \<noteq> [] \<longrightarrow> fallback = Managed (hd own)" using choice by (cases own) simp_all
  note sound = server_regions_sound [OF assms(1) r(1)]
  note facts = router_key [OF app]
  have "\<exists>rt\<in>set own. m_client m = Managed rt" if m: "m \<in> set (members (api_cache app))" for m
  proof (cases "default_cache rc")
    case (Some p)
    with facts(4) m sound(5) show ?thesis by simp
  next
    case None
    have "from_session (region (cf_session c)) = None"
      using None sound(2,4)
      by (cases "from_session (region (cf_session c))") (auto simp: default_cache_def set_eq_iff dom_def dest!: spec)
    then have "length own = 1" using for_accounts_single sound(1) config_sound [OF assms(1)] by blast
    then have "fallback = Managed (hd own)" "hd own \<in> set own" using f by (cases own; simp)+
    moreover have "m_client m = fallback"
      using facts(4) m None pool_new_members [of _ "[fallback]" stopped "api_cache app" m] by simp
    ultimately show ?thesis by blast
  qed
  then have "\<forall>m\<in>set (members (api_cache app)). \<exists>rt\<in>set rts. m_client m = Managed rt \<and> cf_session (rt_config rt) = cf_session c"
    using for_accounts_sessions [OF sound(1)] r(2) by (metis UnCI set_append)
  with key facts(1-3) show ?thesis by auto
qed

text \<open>
  a reload replaces the session or changes nothing.  While a recovery or a version check is
  under way, and when it fails, everything stays as it is; when it succeeds the client has the
  fresh session, an account client may select another user, and the managed state starts anew.
\<close>

theorem reload_replaces_or_keeps:
  assumes "runtime_reload env st g rt ms = (r, rt', ms')"
  shows "(r \<noteq> Inr () \<longrightarrow> rt' = rt \<and> ms' = ms)
    \<and> (phase ms = Recovering \<or> version_updating ms \<longrightarrow> r \<noteq> Inr ())
    \<and> (r = Inr () \<longrightarrow> client_generation (rt_client rt') = g \<and> rt_config rt' = rt_config rt \<and> phase ms' = Unverified
        \<and> attempted ms' = None \<and> (rt_selected rt \<noteq> None \<and> \<not> rt_jp_accounts rt \<longrightarrow> rt_selected rt' = Some None))"
proof -
  have kept: "c' = c" if "replace_session lib connect cfg provider g c = (Inl e, c')" for lib connect cfg provider c c' e
    using that by (auto simp: replace_session_def split: sum.split_asm)
  have fresh: "client_generation c' = g" if "replace_session lib connect cfg provider g c = (Inr u, c')"
    for lib connect cfg provider c c' u
    using that by (auto simp: replace_session_def install_def client_generation_def current_session_def make_session_def
        result_simps split: sum.split_asm)
  have failed: "rt1 = rt" if "reload_session env st g rt = (Inl e, rt1)" for e rt1
    using that kept
    by (fastforce simp: reload_session_def Let_def split: if_split_asm prod.split_asm sum.split_asm)
  have done_: "client_generation (rt_client rt1) = g \<and> rt_config rt1 = rt_config rt
      \<and> (rt_selected rt \<noteq> None \<and> \<not> rt_jp_accounts rt \<longrightarrow> rt_selected rt1 = Some None)"
    if "reload_session env st g rt = (Inr u, rt1)" for u rt1
    using that fresh
    by (fastforce simp: reload_session_def Let_def split: if_split_asm prod.split_asm sum.split_asm)
  show ?thesis
  proof (cases "reload_session env st g rt")
    case (Pair r1 rt1)
    with assms failed [of _ rt1] done_ [of _ rt1] show ?thesis
      by (cases r1) (auto simp: runtime_reload_def reload_def split: if_split_asm)
  qed
qed

section \<open>Witnesses\<close>

definition sample_runtime_env :: "unit runtime_env" where
  "sample_runtime_env = \<lparr>re_library = sample_library, re_sdk = sample_sdk_library, re_codec = sample_recovery_codec, re_now = 0,
     re_binding = 7, re_connect = (\<lambda>_. Some 0), re_listing = (\<lambda>_. Some [Some ''b.txt'', Some ''a.json''])\<rparr>"

lemma sample_runtime_client:
  "config_validate sample_library cfg = Inr () \<Longrightarrow> cfg = sample_config \<or> cfg = sample_tw \<Longrightarrow>
     timeout opts = 10000 \<Longrightarrow> minimum_interval opts = 1000 \<Longrightarrow> queue_capacity opts = 32 \<Longrightarrow>
     \<exists>client. client_new sample_library (\<lambda>_. Some 0) cfg None opts g now = Inr client"
  by (auto simp: client_new_def grpc_transport_new_def with_transport_def make_session_def metadata_def meta_insert_def
      sample_library_def sample_config_def sample_tw_def byte_def)

theorem accepted_configuration_never_panics_witness:
  "config_from_text sample_config_library sample_config_store [] ''/etc/c.toml'' = Inr sample_resolved
     \<and> for_accounts sample_runtime_env sample_config_store (\<lambda>_. 3) sample_resolved \<noteq> None"
  using sample_from_text accepted_configuration_never_panics [OF sample_from_text] by blast

lemma sample_plain_runtime:
  assumes "config_validate sample_library (cf_session c) = Inr ()" "cf_session c = sample_config \<or> cf_session c = sample_tw"
    "cf_login c = None" "cf_accounts c = None" "cf_credentials_file c = None" "cf_recovery c = default_recovery"
    "config_client_options c = \<lparr>timeout = 10000, minimum_interval = 1000, queue_capacity = 32\<rparr>"
  shows "\<exists>rt. for_accounts sample_runtime_env st (\<lambda>_. 3) c = Some (Inr [rt])"
proof -
  obtain client where "client_new sample_library (\<lambda>_. Some 0) (cf_session c) None (config_client_options c) 3 0 = Inr client"
    using sample_runtime_client [of "cf_session c" "config_client_options c" 3 0] assms by auto
  with assms show ?thesis
    by (simp add: for_accounts_def runtime_new_def saved_credentials_def transposed_def sample_runtime_env_def default_recovery_def
        Let_def)
qed

lemma sample_server:
  "\<exists>rt rt' rc p. server_regions sample_runtime_env sample_config_store (\<lambda>_ _. 3) default_cache_options False sample_resolved
     = Some (Inr ([rt], [rt'], rc)) \<and> default_cache rc = Some p \<and> members p \<noteq> []"
proof -
  have fields: "cf_session sample_resolved = sample_config" "cf_login sample_resolved = None" "cf_accounts sample_resolved = None"
    "cf_credentials_file sample_resolved = None" "cf_recovery sample_resolved = default_recovery"
    "config_client_options sample_resolved = \<lparr>timeout = 10000, minimum_interval = 1000, queue_capacity = 32\<rparr>"
    "cf_cache_ttl_seconds sample_resolved = 15" "cf_cache_capacity sample_resolved = 1024"
    by (simp_all add: sample_resolved_def default_config_def config_client_options_def)
  obtain g where g: "cf_regions sample_resolved = [(Tw, g)]" "rg_session g = sample_tw" "rg_login g = None" "rg_accounts g = None"
    "rg_credentials_file g = None" "rg_recovery g = default_recovery"
    by (simp add: sample_resolved_def)
  have regional: "cf_session (for_region sample_resolved g) = sample_tw" "cf_login (for_region sample_resolved g) = None"
    "cf_accounts (for_region sample_resolved g) = None" "cf_credentials_file (for_region sample_resolved g) = None"
    "cf_recovery (for_region sample_resolved g) = default_recovery"
    "config_client_options (for_region sample_resolved g) = \<lparr>timeout = 10000, minimum_interval = 1000, queue_capacity = 32\<rparr>"
    using g fields(6) by (simp_all add: for_region_def config_client_options_def)
  obtain rt where rt: "for_accounts sample_runtime_env sample_config_store (\<lambda>_. 3) sample_resolved = Some (Inr [rt])"
    using sample_plain_runtime [of sample_resolved] fields sample_valid(1) by auto
  obtain rt' where rt': "for_accounts sample_runtime_env sample_config_store (\<lambda>_. 3) (for_region sample_resolved g) = Some (Inr [rt'])"
    using sample_plain_runtime [of "for_region sample_resolved g"] regional sample_valid(2) by auto
  have "options_validate (cache_options_of default_cache_options sample_resolved) = Inr ()"
    using fields(7,8) by (simp add: cache_options_of_def default_cache_options_def options_validate_def)
  then have pool: "\<exists>p. make_pool (cache_options_of default_cache_options sample_resolved) False [x] = Inr p \<and> members p \<noteq> []" for x
    by (simp add: make_pool_def pool_new_def MAX_SESSIONS_def)
  have regions: "from_session (region sample_config) = Some En" by (simp add: from_session_def sample_config_def)
  obtain p where p: "make_pool (cache_options_of default_cache_options sample_resolved) False [rt] = Inr p" "members p \<noteq> []" using pool by blast
  obtain p' where p': "make_pool (cache_options_of default_cache_options sample_resolved) False [rt'] = Inr p'" using pool by blast
  from rt rt' p p' g(1) regions fields(1) show ?thesis
    by (simp add: server_regions_def with_pools_def default_clients_def default_cache_def region_cache_def Let_def)
qed

theorem regions_are_served_by_their_own_sessions_witness:
  "\<exists>own others rc. server_regions sample_runtime_env sample_config_store (\<lambda>_ _. 3) default_cache_options False sample_resolved
       = Some (Inr (own, others, rc))
     \<and> dom (region_cache rc) = {En, Tw}"
proof -
  obtain own others rc where rc: "server_regions sample_runtime_env sample_config_store (\<lambda>_ _. 3) default_cache_options False
      sample_resolved = Some (Inr (own, others, rc))" using sample_server by blast
  have "dom (region_cache rc) = {En, Tw}"
    using regions_are_served_by_their_own_sessions [OF sample_from_text rc]
    by (auto simp: sample_resolved_def default_config_def sample_config_def from_session_def)
  with rc show ?thesis by blast
qed

theorem server_answers_its_key_holders_witness:
  "\<exists>rts app. server_app sample_runtime_env sample_web_library sample_config_store 4 (\<lambda>_ _. 3) default_cache_options False sample_resolved
       = Some (Inr (rts, app)) \<and> members (api_cache app) \<noteq> []
     \<and> authorized sample_web_library app [Some (''Bearer '' @ replicate 32 (CHR ''k''))]"
proof -
  let ?opts = "cache_options_of default_cache_options sample_resolved"
  obtain rt rt' rc p where rc: "server_regions sample_runtime_env sample_config_store (\<lambda>_ _. 3) default_cache_options False
      sample_resolved = Some (Inr ([rt], [rt'], rc))" "default_cache rc = Some p" "members p \<noteq> []" using sample_server by blast
  let ?key = "replicate 32 (CHR ''k'')"
  have key: "config_api_key sample_config_store sample_resolved = Inr ?key" "valid_api_key ?key"
    by (simp_all add: config_api_key_def sample_resolved_def validate_api_key_def valid_api_key_def list_all_iff list_ex_iff
        is_ascii_def is_ascii_whitespace_def is_ascii_control_def byte_def)
  have "options_validate ?opts = Inr ()"
    by (simp add: cache_options_of_def default_cache_options_def options_validate_def sample_resolved_def default_config_def)
  then obtain app where app: "router_with_regions sample_web_library (Managed rt) ?key
      \<lparr>ro_mode = config_mode sample_resolved, ro_access_log = cf_access_log sample_resolved\<rparr> ?opts False rc = Inr app" "api_cache app = p"
    using rc(2) key(2) by (simp add: router_with_regions_def)
  have run: "server_app sample_runtime_env sample_web_library sample_config_store 4 (\<lambda>_ _. 3) default_cache_options False sample_resolved
      = Some (Inr ([rt, rt'], app))"
    using rc(1) key(1) app(1) by (simp add: server_app_def)
  from server_answers_its_key_holders [OF sample_from_text run] key(1)
  have "authorized sample_web_library app [Some (''Bearer '' @ ?key)]" by simp
  with run rc(3) app(2) show ?thesis by blast
qed

definition sample_pool_config :: "string config" where
  "sample_pool_config = (default_config sample_config)\<lparr>cf_login := Some sample_account_login,
     cf_accounts := Some (sample_accounts\<lparr>ac_strategy := RoundRobin\<rparr>)\<rparr>"

lemma sample_members:
  "\<exists>rts. for_accounts sample_runtime_env sample_account_store (\<lambda>_. 3) sample_pool_config = Some (Inr rts) \<and> length rts = 1"
proof -
  let ?a = "sample_accounts\<lparr>ac_strategy := RoundRobin\<rparr>"
  have files: "file_list (re_listing sample_runtime_env) sample_account_store ?a = Inr [[''accounts'', ''a.json'']]"
    using sample_names
    by (simp add: file_list_def sample_runtime_env_def sample_account_store_def sample_accounts_def accounts_validate_def
        private_dir_def shared_mode_def MAX_FILES_def numeral_eq_Suc)
  let ?m = "sample_pool_config\<lparr>cf_regions := [], cf_accounts := Some (?a\<lparr>ac_strategy := SingleAccount, ac_selected := Some ''a.json''\<rparr>)\<rparr>"
  have m: "member_config sample_pool_config [''accounts'', ''a.json''] = Some (Inr ?m)"
    by (simp add: member_config_def unwrap_def sample_pool_config_def)
  have sdk: "operator_sdk_client sample_sdk_library codec 0 7 st sample_account_login = Inr (sample_operator_sdk, 1)" for codec st
    using sample_sdk_settings [of codec st]
    by (simp add: operator_sdk_client_def sample_scoped_login_def sample_account_login_def)
  have login: "operator_validate sample_library sample_sdk_library sample_recovery_codec 0 7 sample_account_store sample_account_login
      sample_config = Inr ()"
    by (simp add: operator_validate_def sample_valid(1) sdk)
      (simp add: sample_account_login_def sample_login_def validate_sources_def private_dir_def
        sample_account_store_def shared_mode_def operator_context_def sample_context_def)
  have fields: "cf_session ?m = sample_config" "cf_login ?m = Some sample_account_login" "cf_recovery ?m = default_recovery"
    "cf_accounts ?m = Some (?a\<lparr>ac_strategy := SingleAccount, ac_selected := Some ''a.json''\<rparr>)"
    by (simp_all add: sample_pool_config_def default_config_def)
  obtain client where c: "client_new sample_library (\<lambda>_. Some 0) sample_config None (config_client_options ?m) 3 0 = Inr client"
    using sample_runtime_client [of sample_config "config_client_options ?m" 3 0] sample_valid(1)
    by (auto simp: config_client_options_def sample_pool_config_def default_config_def)
  have valid: "accounts_validate (?a\<lparr>ac_strategy := SingleAccount, ac_selected := Some ''a.json''\<rparr>) = Inr ()"
    using sample_names(1) by (simp add: accounts_validate_def sample_accounts_def)
  have "region sample_config \<noteq> ''jp''" by (simp add: sample_config_def)
  with login c fields valid sample_valid(1) have "\<exists>rt. runtime_new sample_runtime_env sample_account_store 3 ?m = Some (Inr rt)"
    by (simp add: runtime_new_def sample_runtime_env_def default_recovery_def account_client_new_def unwrap_def Let_def)
  with files m show ?thesis
    by (auto simp: for_accounts_def sample_pool_config_def default_config_def MAX_SESSIONS_def)
qed

theorem pool_members_use_different_accounts_witness:
  "\<exists>rts. for_accounts sample_runtime_env sample_account_store (\<lambda>_. 3) sample_pool_config = Some (Inr rts)
     \<and> distinct (map selected_file rts) \<and> length rts = 1"
proof -
  obtain rts where rts: "for_accounts sample_runtime_env sample_account_store (\<lambda>_. 3) sample_pool_config = Some (Inr rts)"
    "length rts = 1" using sample_members by blast
  have "distinct (map selected_file rts)"
    using pool_members_use_different_accounts [OF rts(1), of "sample_accounts\<lparr>ac_strategy := RoundRobin\<rparr>"]
    by (simp add: sample_pool_config_def sample_accounts_def sample_runtime_env_def)
  with rts show ?thesis by blast
qed

definition sample_runtime :: runtime where
  "sample_runtime = \<lparr>rt_config = sample_pool_config, rt_client = sample_anonymous, rt_recovery = None, rt_loader = Some AccountLoader,
     rt_cooldown = 300000, rt_selected = Some (Some ''u''), rt_jp_accounts = False\<rparr>"

theorem reload_replaces_or_keeps_witness:
  "\<exists>rt ms. runtime_reload sample_runtime_env sample_config_store 9 sample_runtime managed_new = (Inr (), rt, ms)
     \<and> client_generation (rt_client rt) = 9 \<and> rt_selected rt = Some None"
proof -
  obtain rt ms where run: "runtime_reload sample_runtime_env sample_config_store 9 sample_runtime managed_new = (Inr (), rt, ms)"
    using sample_valid(1)
    by (simp add: runtime_reload_def reload_session_def reload_def managed_new_def sample_runtime_def sample_runtime_env_def
        replace_session_def grpc_transport_new_def make_session_def session_config_of_def current_session_def
        sample_anonymous_def sample_operator_client_def metadata_def meta_insert_def sample_library_def sample_config_def byte_def
        Let_def)
  with reload_replaces_or_keeps [OF run] show ?thesis by (auto simp: sample_runtime_def)
qed

end
