(* ===== verification/Commands.thy ===== *)
theory Commands
  imports Startup Runtime
begin

text \<open>
  The commands of the operator: the location and creation of the configuration file
  (\<open>server/src/config_file.rs\<close>), the explicit JP registration, check and import
  (\<open>server/src/jp_operator.rs\<close>), and the decision which command runs (\<open>server/src/main.rs\<close>).
  The upstream calls of a command are given by their results.
\<close>

section \<open>The configuration file\<close>

text \<open>\<open>resolve\<close>: the explicit path, the environment, an existing system file, the defaults.\<close>

definition resolve_config :: "string option \<Rightarrow> string option \<Rightarrow> store \<Rightarrow> string option \<Rightarrow> string" where
  "resolve_config explicit environment st container =
     (case explicit of
        Some p \<Rightarrow> p
      | None \<Rightarrow>
          (case environment of
             Some p \<Rightarrow> p
           | None \<Rightarrow>
               if st [''etc'', ''moenotes'', ''config.toml''] \<noteq> None then ''/etc/moenotes/config.toml''
               else (case container of Some p \<Rightarrow> p | None \<Rightarrow> ''config.toml'')))"

text \<open>The missing directories above a file; there is none below something that is no directory.\<close>

fun make_dirs :: "path \<Rightarrow> path \<Rightarrow> store \<Rightarrow> store option" where
  "make_dirs base [] st = Some st"
| "make_dirs base (c # cs) st =
     (let p = base @ [c] in
      case st p of
        None \<Rightarrow> make_dirs p cs (st(p \<mapsto> Dir 0x1C0))
      | Some (File _ _) \<Rightarrow> None
      | Some _ \<Rightarrow> make_dirs p cs st)"

text \<open>\<open>create\<close>: whether the template was written; \<open>io\<close> is the writing of it.\<close>

definition create_config :: "string \<Rightarrow> bool \<Rightarrow> store \<Rightarrow> path \<Rightarrow> bool option \<times> store" where
  "create_config template io st p =
     (if st p \<noteq> None then (Some False, st)
      else (case make_dirs [] (parent_of p) st of
              None \<Rightarrow> (None, st)
            | Some st1 \<Rightarrow> if \<not> io then (None, st1) else (Some True, st1(p \<mapsto> File 0x180 template))))"

section \<open>JP commands\<close>

datatype command_error =
    Refused string
  | Upstream client_error

type_synonym 'a command_result = "command_error + 'a"

definition upstream :: "'a outcome \<Rightarrow> 'a command_result" where
  "upstream r = map_err Upstream r"

text \<open>
  What the commands meet: making a client, refreshing its versions, the registration call with
  the files it leaves, the player id of the account, its own data (whether the player data is
  there, and its account number), and the profile query.
\<close>

record jp_calls =
  jc_client :: "client outcome"
  jc_refresh :: "client \<Rightarrow> unit outcome \<times> client"
  jc_register :: "client \<Rightarrow> path \<Rightarrow> store \<Rightarrow> unit outcome \<times> store"
  jc_whoami :: "client \<Rightarrow> string option outcome"
  jc_self_data :: "client \<Rightarrow> (bool \<times> int option) outcome"
  jc_profiles :: "client \<Rightarrow> int \<Rightarrow> unit outcome"

definition plain_json_name :: "string \<Rightarrow> bool" where
  "plain_json_name name \<longleftrightarrow>
     \<not> (\<not> ends_with name ''.json''
        \<or> starts_with name ''.''
        \<or> CHR ''/'' \<in> set name \<or> char_of (92 :: nat) \<in> set name
        \<or> \<not> list_all (\<lambda>c. is_ascii_alphanumeric c \<or> c \<in> set ''-_.'') name)"

definition attempt_marker :: "path \<Rightarrow> path" where
  "attempt_marker dir = dir @ [''registration.attempt'']"

text \<open>
  \<open>register\<close>; the last component of the answer says whether the call was made.  The marker is
  written in full, not created, or broken off after some bytes.
\<close>

definition MARKER :: string where
  "MARKER = ''Registration was requested. Do not retry if outcome is uncertain.'' @ [CHR 0x0A]"

definition jp_register ::
  "jp_calls \<Rightarrow> listing \<Rightarrow> nat option + unit \<Rightarrow> string config \<Rightarrow> string \<Rightarrow> store \<Rightarrow> unit command_result \<times> store \<times> bool" where
  "jp_register calls entries io c name st =
     (if region (cf_session c) \<noteq> ''jp'' \<or> cf_login c \<noteq> None \<or> cf_credentials_file c \<noteq> None
         \<or> \<not> plain_json_name name \<or> 100 < length name
      then (Inl (Refused ''JP registration requires a JP session, accounts directory and a plain .json filename''), st, False)
      else (case cf_accounts c of
              None \<Rightarrow> (Inl (Refused ''JP accounts configuration required''), st, False)
            | Some a \<Rightarrow>
                (let dir = ac_directory a in
                 case private_dir st dir of
                   Inl e \<Rightarrow> (Inl (Upstream e), st, False)
                 | Inr _ \<Rightarrow>
                     (case entries dir of
                        None \<Rightarrow> (Inl (Refused ''directory''), st, False)
                      | Some es \<Rightarrow>
                          if es \<noteq> [] then (Inl (Refused ''JP registration directory must be empty''), st, False)
                          else (case and_then (jc_client calls) (\<lambda>client.
                                       case jc_refresh calls client of (r, client') \<Rightarrow> and_then r (\<lambda>_. Inr client')) of
                                  Inl e \<Rightarrow> (Inl (Upstream e), st, False)
                                | Inr client \<Rightarrow>
                                    if st (attempt_marker dir) \<noteq> None then (Inl (Refused ''marker''), st, False)
                                    else (case io of
                                            Inl None \<Rightarrow> (Inl (Refused ''marker''), st, False)
                                          | Inl (Some n) \<Rightarrow>
                                              (Inl (Refused ''marker''), st(attempt_marker dir \<mapsto> File 0x180 (take n MARKER)), False)
                                          | Inr _ \<Rightarrow>
                                              (case jc_register calls client (join_path dir name)
                                                      (st(attempt_marker dir \<mapsto> File 0x180 MARKER)) of
                                                 (r, st') \<Rightarrow> (upstream r, st', True))))))))"

text \<open>\<open>check\<close>: whether bulk profiles were received.\<close>

definition jp_check ::
  "library \<Rightarrow> file_codec \<Rightarrow> (session_config \<Rightarrow> nat option) \<Rightarrow> jp_calls \<Rightarrow> listing \<Rightarrow> generation \<Rightarrow> string config \<Rightarrow> store \<Rightarrow>
     bool command_result" where
  "jp_check lib codec connect calls entries fresh c st =
     (if region (cf_session c) \<noteq> ''jp'' then Inl (Refused ''JP session required'')
      else and_then (upstream (jc_client calls)) (\<lambda>client.
           and_then (case cf_accounts c of
               Some a \<Rightarrow> and_then (upstream (jp_account_client_new a (cf_session c))) (\<lambda>_.
                           upstream (jp_provider lib codec entries st a (cf_session c)))
             | None \<Rightarrow> and_then (ok_or (cf_credentials_file c) (Refused ''JP credentials required'')) (\<lambda>p.
                         upstream (static_from_file codec st p))) (\<lambda>provider.
           and_then (upstream (static_provide lib provider (cf_session c))) (\<lambda>found.
           and_then (ok_or found (Refused ''JP credentials required'')) (\<lambda>credentials.
           case replace_session lib connect (cf_session c) (Some (static_provide lib provider)) fresh client of
             (Inl e, _) \<Rightarrow> Inl (Upstream e)
           | (Inr _, client1) \<Rightarrow>
               (case jc_refresh calls client1 of
                  (Inl e, _) \<Rightarrow> Inl (Upstream e)
                | (Inr _, client2) \<Rightarrow>
                    and_then (upstream (jc_whoami calls client2)) (\<lambda>who.
                    and_then (ok_or who (Refused ''Whoami missing id'')) (\<lambda>i.
                      if i \<noteq> player_id credentials then Inl (Refused ''Whoami identity mismatch'')
                      else and_then (upstream (jc_self_data calls client2)) (\<lambda>(present, number).
                           if \<not> present then Inl (Refused ''Self-data missing player_data'')
                           else (case number of
                                   Some n \<Rightarrow> if 0 < n then and_then (upstream (jc_profiles calls client2 n)) (\<lambda>_. Inr True)
                                             else Inr False
                                 | None \<Rightarrow> Inr False))))))))))"

text \<open>\<open>import_registration\<close>: the retained response beside the output has the same stem.\<close>

definition response_name :: "string \<Rightarrow> string" where
  "response_name name = take (length name - 4) name @ ''response''"

definition jp_import ::
  "library \<Rightarrow> file_codec \<Rightarrow> (string \<Rightarrow> (string \<Rightarrow> string option) option) \<Rightarrow> bool \<Rightarrow> string config \<Rightarrow> string \<Rightarrow> store \<Rightarrow>
     unit command_result \<times> store" where
  "jp_import lib codec parse io c name st =
     (if \<not> plain_json_name name then (Inl (Refused ''plain JSON filename required''), st)
      else (case cf_accounts c of
              None \<Rightarrow> (Inl (Refused ''JP accounts required''), st)
            | Some a \<Rightarrow>
                (case private_dir st (ac_directory a) of
                   Inl e \<Rightarrow> (Inl (Upstream e), st)
                 | Inr _ \<Rightarrow>
                     (case import_registration lib codec parse io st (cf_session c)
                             (join_path (ac_directory a) (response_name name)) (join_path (ac_directory a) name) of
                        (r, st') \<Rightarrow> (upstream r, st')))))"

text \<open>\<open>init_accounts\<close>: the directories are made in order, the existing ones checked.\<close>

fun ensure_private_dirs :: "bool \<Rightarrow> path list \<Rightarrow> store \<Rightarrow> unit command_result \<times> store" where
  "ensure_private_dirs io [] st = (Inr (), st)"
| "ensure_private_dirs io (p # ps) st =
     (if st p = None \<and> \<not> io then (Inl (Refused ''directory''), st)
      else (let st1 = (if st p = None then st(p \<mapsto> Dir 0x1C0) else st) in
            case private_dir st1 p of
              Inl e \<Rightarrow> (Inl (Upstream e), st1)
            | Inr _ \<Rightarrow> ensure_private_dirs io ps st1))"

definition init_accounts :: "bool \<Rightarrow> path \<Rightarrow> store \<Rightarrow> unit command_result \<times> store" where
  "init_accounts io root st = ensure_private_dirs io [root, root @ [''international''], root @ [''jp'']] st"

section \<open>The command line\<close>

datatype invocation =
    ShowVersion
  | ShowHelp
  | MakeAccounts string
  | ConfigOnly bool "string option"
  | WithConfig string "string option" "string list"

definition split_path :: "string list \<Rightarrow> string option \<times> string list" where
  "split_path args =
     (case args of
        [] \<Rightarrow> (None, [])
      | a # rest \<Rightarrow> if starts_with a ''--'' then (None, args) else (Some a, rest))"

text \<open>The part of \<open>run\<close> before the configuration is read; the arguments are those after the program.\<close>

definition parse_command :: "string list \<Rightarrow> string + invocation" where
  "parse_command args =
     (let command = (case args of [] \<Rightarrow> ''help'' | c # _ \<Rightarrow> c);
          rest = drop 1 args;
          (explicit, flags) = split_path rest in
      if command = ''--version'' \<or> command = ''-V'' then Inr ShowVersion
      else if command = ''help'' \<or> command = ''--help'' then Inr ShowHelp
      else if command = ''init-accounts''
      then (case rest of
              [] \<Rightarrow> Inr (MakeAccounts ''accounts'')
            | [root] \<Rightarrow> Inr (MakeAccounts root)
            | _ \<Rightarrow> Inl ''unexpected argument'')
      else if command = ''init-config'' \<or> command = ''config-path''
      then (if flags \<noteq> [] then Inl ''unexpected argument'' else Inr (ConfigOnly (command = ''init-config'') explicit))
      else if command = ''serve'' \<and> flags \<noteq> [] then Inl ''unexpected argument''
      else Inr (WithConfig command explicit flags))"

datatype action =
    ImportJp string
  | RegisterJp string
  | CheckJp
  | LoginSdk bool "string login_config"
  | LoginGame bool "string login_config"
  | Serve
  | CheckConfig
  | AuthStatus

text \<open>What a command does with the accepted configuration.\<close>

definition command_action :: "string config \<Rightarrow> string \<Rightarrow> string list \<Rightarrow> string + action" where
  "command_action c command flags =
     (if cf_accounts c \<noteq> None \<and> (command = ''sdk-login'' \<or> command = ''game-login'')
      then Inl ''accounts mode uses lazy login''
      else if command = ''jp-import-registration''
      then (case flags of
              [f, name] \<Rightarrow> if f = ''--name'' then Inr (ImportJp name) else Inl ''requires --name NAME.json''
            | _ \<Rightarrow> Inl ''requires --name NAME.json'')
      else if command = ''jp-register''
      then (case flags of
              [f, g, name] \<Rightarrow>
                if f = ''--allow-create'' \<and> g = ''--name'' then Inr (RegisterJp name)
                else Inl ''requires --allow-create --name NAME.json''
            | _ \<Rightarrow> Inl ''requires --allow-create --name NAME.json'')
      else if command = ''jp-check'' then (if flags \<noteq> [] then Inl ''unexpected argument'' else Inr CheckJp)
      else if command = ''sdk-login''
      then (if list_ex (\<lambda>f. f \<noteq> ''--password-stdin'') flags then Inl ''unknown flag''
            else and_then (ok_or (cf_login c) ''login configuration required'') (\<lambda>login.
                   Inr (LoginSdk (flags \<noteq> []) login)))
      else if command = ''game-login''
      then (if \<not> list_ex (\<lambda>f. f = ''--confirm-sdk-ready'') flags
               \<or> list_ex (\<lambda>f. f \<noteq> ''--confirm-sdk-ready'' \<and> f \<noteq> ''--allow-create'') flags
            then Inl ''requires --confirm-sdk-ready; optional --allow-create''
            else and_then (ok_or (cf_login c) ''login configuration required'') (\<lambda>login.
                   Inr (LoginGame (list_ex (\<lambda>f. f = ''--allow-create'') flags) login)))
      else if command = ''serve'' \<or> command = ''check-config'' \<or> command = ''auth-status''
      then (if flags \<noteq> [] then Inl ''unexpected argument''
            else Inr (if command = ''serve'' then Serve else if command = ''check-config'' then CheckConfig else AuthStatus))
      else Inl ''unknown command'')"

text \<open>
  What \<open>serve\<close> does before it listens: the template is created if nothing is there, the file is
  inspected, and an unconfigured server listens where the environment says, if it says so.
\<close>

definition serve_startup ::
  "config_library \<Rightarrow> (toml \<Rightarrow> version_sync_config option) \<Rightarrow> (string \<Rightarrow> string option) \<Rightarrow> string \<Rightarrow> bool \<Rightarrow>
     string option \<Rightarrow> store \<Rightarrow> string \<Rightarrow> startup outcome \<times> store" where
  "serve_startup lib parse_sync parse_socket template io bootstrap st file =
     (let st1 = (case absolute_path (cl_cwd lib) file of Inr p \<Rightarrow> snd (create_config template io st p) | Inl _ \<Rightarrow> st) in
      (and_then (ok_or (parse_socket (case bootstrap of Some s \<Rightarrow> s | None \<Rightarrow> ''127.0.0.1:8080'')) (client_error_new InvalidConfig)) (\<lambda>fallback.
       and_then (inspect lib parse_sync parse_socket st1 fallback file) (\<lambda>found.
         Inr (case found of
                Configured c \<Rightarrow> Configured c
              | Unconfigured listen missing \<Rightarrow> Unconfigured (if bootstrap \<noteq> None then fallback else listen) missing))), st1))"

section \<open>Facts\<close>

text \<open>A directory listing shows at least that a file is there.\<close>

definition lists_files :: "listing \<Rightarrow> store \<Rightarrow> path \<Rightarrow> bool" where
  "lists_files entries st dir \<longleftrightarrow> (\<forall>name. st (dir @ [name]) \<noteq> None \<longrightarrow> entries dir \<noteq> Some [])"

lemma jp_register_sent:
  assumes "jp_register calls entries io c name st = (r, st', True)"
  shows "\<exists>a client st1. cf_accounts c = Some a \<and> st1 (attempt_marker (ac_directory a)) \<noteq> None
    \<and> snd (jc_register calls client (join_path (ac_directory a) name) st1) = st'"
proof -
  let ?mark = "\<lambda>a. st(attempt_marker (ac_directory a) \<mapsto> File 0x180 MARKER)"
  have "\<exists>a client r1. cf_accounts c = Some a
      \<and> jc_register calls client (join_path (ac_directory a) name) (?mark a) = (r1, st')"
    using assms
    by (auto simp: jp_register_def Let_def split: option.split_asm sum.split_asm if_split_asm prod.split_asm list.split_asm)
  then obtain a client r1 where s: "cf_accounts c = Some a"
    "jc_register calls client (join_path (ac_directory a) name) (?mark a) = (r1, st')" by blast
  have "?mark a (attempt_marker (ac_directory a)) \<noteq> None" by simp
  moreover from s(2) have "snd (jc_register calls client (join_path (ac_directory a) name) (?mark a)) = st'" by simp
  ultimately show ?thesis using s(1) by blast
qed

section \<open>Properties\<close>

text \<open>
  C38: a JP account is requested at most once.  A registration that made the upstream call leaves
  a marker in the account directory, whatever the call answered; from then on, on any later store
  that keeps the files, every further registration there is refused before the call and changes
  nothing.
\<close>

theorem registration_is_requested_at_most_once:
  assumes "jp_register calls entries io c name st = (r, st', True)"
    and "\<And>client p s. extends (snd (jc_register calls client p s)) s"
    and "extends later st'" "cf_accounts c' = Some a'" "ac_directory a' = ac_directory (the (cf_accounts c))"
    and "lists_files entries' later (ac_directory a')"
  shows "\<exists>e. jp_register calls' entries' io' c' name' later = (Inl e, later, False)"
proof -
  from assms(1) obtain a client st1 where s: "cf_accounts c = Some a" "st1 (attempt_marker (ac_directory a)) \<noteq> None"
    "snd (jc_register calls client (join_path (ac_directory a) name) st1) = st'"
    using jp_register_sent by blast
  have "later (attempt_marker (ac_directory a)) \<noteq> None"
    using assms(2) [of client "join_path (ac_directory a) name" st1] s(2,3) assms(3) by (auto simp: extends_def)
  with assms(5,6) s(1) have "entries' (ac_directory a') \<noteq> Some []" by (auto simp: lists_files_def attempt_marker_def)
  with assms(4) show ?thesis
    by (auto simp: jp_register_def Let_def split: option.split sum.split)
qed

text \<open>
  no command creates an account unless it is told to.  A registration runs only with
  \<open>--allow-create\<close>, a game login only with \<open>--confirm-sdk-ready\<close> and may create a role only with
  \<open>--allow-create\<close>; a manual login needs its own login section and no account directory, and the
  commands that serve or look take no flag at all.
\<close>

theorem accounts_are_created_only_on_request:
  assumes "command_action c command flags = Inr act"
  shows "(\<forall>name. act = RegisterJp name \<longrightarrow> command = ''jp-register'' \<and> flags = [''--allow-create'', ''--name'', name])
    \<and> (\<forall>create login. act = LoginGame create login \<longrightarrow> command = ''game-login'' \<and> ''--confirm-sdk-ready'' \<in> set flags
        \<and> (create \<longleftrightarrow> ''--allow-create'' \<in> set flags) \<and> cf_login c = Some login \<and> cf_accounts c = None)
    \<and> (act \<in> {Serve, CheckConfig, AuthStatus, CheckJp} \<longrightarrow> flags = [])"
  using assms
  by (auto simp: command_action_def result_simps list_ex_iff split: if_split_asm list.split_asm)

definition sample_jp_calls :: jp_calls where
  "sample_jp_calls = \<lparr>jc_client = Inr sample_operator_client, jc_refresh = (\<lambda>c. (Inr (), c)),
     jc_register = (\<lambda>_ _ s. (fail Timeout, s)), jc_whoami = (\<lambda>_. Inr None), jc_self_data = (\<lambda>_. Inr (False, None)),
     jc_profiles = (\<lambda>_ _. Inr ())\<rparr>"

definition sample_jp_server :: "string config" where
  "sample_jp_server = (default_config sample_jp_config)\<lparr>cf_accounts := Some (sample_accounts\<lparr>ac_directory := [''jp'']\<rparr>)\<rparr>"

theorem registration_is_requested_at_most_once_witness:
  "\<exists>r st' e. jp_register sample_jp_calls (\<lambda>_. Some []) (Inr ()) sample_jp_server ''a.json'' [[''jp''] \<mapsto> Dir 0x1C0] = (r, st', True)
     \<and> jp_register sample_jp_calls (\<lambda>_. Some [Some ''registration.attempt'']) (Inr ()) sample_jp_server ''b.json'' st' = (Inl e, st', False)"
proof -
  have name: "plain_json_name ''a.json''"
    by (simp add: plain_json_name_def ends_with_def starts_with_def is_ascii_alphanumeric_def is_ascii_alphabetic_def
        is_ascii_digit_def byte_def char_of_def bit_0)
  have c: "region (cf_session sample_jp_server) = ''jp''" "cf_login sample_jp_server = None"
    "cf_credentials_file sample_jp_server = None" "cf_accounts sample_jp_server = Some (sample_accounts\<lparr>ac_directory := [''jp'']\<rparr>)"
    by (simp_all add: sample_jp_server_def default_config_def sample_jp_config_def)
  obtain r st' where run: "jp_register sample_jp_calls (\<lambda>_. Some []) (Inr ()) sample_jp_server ''a.json'' [[''jp''] \<mapsto> Dir 0x1C0]
      = (r, st', True)"
    using name c
    by (simp add: jp_register_def private_dir_def shared_mode_def sample_jp_calls_def attempt_marker_def Let_def)
  have kept: "extends (snd (jc_register sample_jp_calls client p s)) s" for client p s
    by (simp add: sample_jp_calls_def extends_def)
  have "\<exists>e. jp_register sample_jp_calls (\<lambda>_. Some [Some ''registration.attempt'']) (Inr ()) sample_jp_server ''b.json'' st' = (Inl e, st', False)"
    by (rule registration_is_requested_at_most_once [OF run kept _ c(4)])
      (use c(4) in \<open>simp_all add: extends_def lists_files_def\<close>)
  with run show ?thesis by blast
qed

theorem accounts_are_created_only_on_request_witness:
  "command_action (sample_pool_config\<lparr>cf_accounts := None\<rparr>) ''game-login'' [''--confirm-sdk-ready'', ''--allow-create'']
     = Inr (LoginGame True sample_account_login) \<and> cf_login sample_pool_config = Some sample_account_login"
proof -
  have run: "command_action (sample_pool_config\<lparr>cf_accounts := None\<rparr>) ''game-login'' [''--confirm-sdk-ready'', ''--allow-create'']
     = Inr (LoginGame True sample_account_login)"
    by (simp add: command_action_def sample_pool_config_def default_config_def)
  have "cf_login (sample_pool_config\<lparr>cf_accounts := None\<rparr>) = Some sample_account_login"
    using accounts_are_created_only_on_request [OF run] by blast
  with run show ?thesis by simp
qed

end
