(* ===== verification/Open_Api.thy ===== *)
theory Open_Api
  imports Gateway
begin

text \<open>
  The OpenAPI document of the gateway (\<open>server/src/openapi.rs\<close>): the schemas of the messages that
  the documented queries exchange, and the documented paths.  The ordered maps of the code are
  association lists here.  The values of an enumeration, the deprecation mark of a field and the
  package version are parameters beside the descriptor pool; a computation is None where an
  \<open>unwrap\<close> fails or the depth bound of the schema recursion is reached.
\<close>

section \<open>Schemas\<close>

type_synonym schemas = "(string \<times> json) list"

record document_library =
  dl_pool :: descriptor_pool
  dl_enum_values :: "string \<Rightarrow> string list"
  dl_deprecated :: "field_descriptor \<Rightarrow> bool"
  dl_version :: string

definition typed :: "string \<Rightarrow> (string \<times> json) list \<Rightarrow> json" where
  "typed t rest = Object ((''type'', String t) # rest)"

definition schema_ref :: "string \<Rightarrow> string" where
  "schema_ref name = ''#/components/schemas/'' @ name"

text \<open>\<open>kind\<close>; the recursive call on a message is a parameter.\<close>

definition kind_schema ::
  "document_library \<Rightarrow> (string \<Rightarrow> schemas \<Rightarrow> schemas option) \<Rightarrow> field_kind \<Rightarrow> schemas \<Rightarrow> (json \<times> schemas) option" where
  "kind_schema lib message k schemas =
     (case k of
        KMessage name \<Rightarrow> map_option (\<lambda>s. (Object [(''$ref'', String (schema_ref name))], s)) (message name schemas)
      | KEnum e \<Rightarrow>
          Some (Object [(''oneOf'', Array [typed ''string'' [(''enum'', Array (map String (dl_enum_values lib e)))],
                                           typed ''integer'' [(''format'', String ''int32'')]])], schemas)
      | KInt64 \<Rightarrow> Some (typed ''string'' [(''pattern'', String ''^-?[0-9]+$'')], schemas)
      | KSint64 \<Rightarrow> Some (typed ''string'' [(''pattern'', String ''^-?[0-9]+$'')], schemas)
      | KSfixed64 \<Rightarrow> Some (typed ''string'' [(''pattern'', String ''^-?[0-9]+$'')], schemas)
      | KUint64 \<Rightarrow> Some (typed ''string'' [(''pattern'', String ''^[0-9]+$'')], schemas)
      | KFixed64 \<Rightarrow> Some (typed ''string'' [(''pattern'', String ''^[0-9]+$'')], schemas)
      | KBool \<Rightarrow> Some (typed ''boolean'' [], schemas)
      | KString \<Rightarrow> Some (typed ''string'' [], schemas)
      | KBytes \<Rightarrow> Some (typed ''string'' [(''contentEncoding'', String ''base64'')], schemas)
      | KFloat \<Rightarrow> Some (Object [(''oneOf'', Array [typed ''number'' [],
                    typed ''string'' [(''enum'', Array (map String [''NaN'', ''Infinity'', ''-Infinity'']))]])], schemas)
      | KDouble \<Rightarrow> Some (Object [(''oneOf'', Array [typed ''number'' [],
                    typed ''string'' [(''enum'', Array (map String [''NaN'', ''Infinity'', ''-Infinity'']))]])], schemas)
      | _ \<Rightarrow> Some (typed ''integer'' [], schemas))"

definition field_schema ::
  "document_library \<Rightarrow> (string \<Rightarrow> schemas \<Rightarrow> schemas option) \<Rightarrow> field_descriptor \<Rightarrow> schemas \<Rightarrow> (json \<times> schemas) option" where
  "field_schema lib message f schemas =
     (if f_is_map f then
        (case f_kind f of
           KMessage entry \<Rightarrow>
             (case field_by_name (dl_pool lib) entry ''value'' of
                None \<Rightarrow> None
              | Some v \<Rightarrow> map_option (\<lambda>(j, s). (typed ''object'' [(''additionalProperties'', j)], s))
                            (kind_schema lib message (f_kind v) schemas))
         | _ \<Rightarrow> None)
      else if f_is_list f
      then map_option (\<lambda>(j, s). (typed ''array'' [(''items'', j)], s)) (kind_schema lib message (f_kind f) schemas)
      else kind_schema lib message (f_kind f) schemas)"

fun field_schemas ::
  "document_library \<Rightarrow> (string \<Rightarrow> schemas \<Rightarrow> schemas option) \<Rightarrow> field_descriptor list \<Rightarrow> (string \<times> json) list \<Rightarrow> schemas \<Rightarrow>
     ((string \<times> json) list \<times> schemas) option" where
  "field_schemas lib message [] properties schemas = Some (properties, schemas)"
| "field_schemas lib message (f # fs) properties schemas =
     (case field_schema lib message f schemas of
        None \<Rightarrow> None
      | Some (j, s) \<Rightarrow> field_schemas lib message fs (alist_put (f_json_name f) j properties) s)"

text \<open>\<open>schema\<close>: a message is entered, empty, before its fields are followed, so cycles end.\<close>

fun schema :: "nat \<Rightarrow> document_library \<Rightarrow> string \<Rightarrow> schemas \<Rightarrow> schemas option" where
  "schema 0 lib name schemas = (if map_of schemas name \<noteq> None then Some schemas else None)"
| "schema (Suc depth) lib name schemas =
     (if map_of schemas name \<noteq> None then Some schemas
      else (case dl_pool lib name of
              None \<Rightarrow> None
            | Some fs \<Rightarrow>
                map_option (\<lambda>(properties, s).
                    alist_put name (typed ''object'' [(''properties'', Object properties), (''additionalProperties'', Bool False)]) s)
                  (field_schemas lib (schema depth lib) fs [] (alist_put name (Object []) schemas))))"

section \<open>Paths\<close>

text \<open>Updates of a JSON object: one member, and a member below others.\<close>

definition json_put :: "string \<Rightarrow> json \<Rightarrow> json \<Rightarrow> json" where
  "json_put k v j = (case j of Object kvs \<Rightarrow> Object (alist_put k v kvs) | _ \<Rightarrow> j)"

definition json_get :: "string \<Rightarrow> json \<Rightarrow> json" where
  "json_get k j = (case j of Object kvs \<Rightarrow> (case map_of kvs k of Some v \<Rightarrow> v | None \<Rightarrow> Null) | _ \<Rightarrow> Null)"

fun json_put_in :: "string list \<Rightarrow> string \<Rightarrow> json \<Rightarrow> json \<Rightarrow> json" where
  "json_put_in [] k v j = json_put k v j"
| "json_put_in (p # ps) k v j = json_put p (json_put_in ps k v (json_get p j)) j"

fun json_put_all :: "(string \<times> json) list \<Rightarrow> json \<Rightarrow> json" where
  "json_put_all [] j = j"
| "json_put_all ((k, v) # kvs) j = json_put_all kvs (json_put k v j)"

definition parameter_doc :: "document_library \<Rightarrow> string \<Rightarrow> string \<Rightarrow> field_descriptor \<Rightarrow> json \<Rightarrow> json" where
  "parameter_doc lib method name f value =
     (let value = (if f_is_list f
                   then (let listed = typed ''array'' [(''items'', value), (''maxItems'', Number ''100'')] in
                         if required method name then json_put ''minItems'' (Number ''1'') listed else listed)
                   else value) in
      Object [(''name'', String name), (''in'', String ''query''), (''required'', Bool (required method name)),
        (''style'', String ''form''), (''explode'', Bool True), (''deprecated'', Bool (dl_deprecated lib f)),
        (''schema'', value),
        (''description'', String (if f_is_list f
           then ''Repeat the parameter for each item; order and duplicates are preserved.''
           else ''Single occurrence only. Nested filters use dotted field names.''))])"

fun parameter_docs ::
  "nat \<Rightarrow> document_library \<Rightarrow> string \<Rightarrow> (string \<times> field_descriptor) list \<Rightarrow> schemas \<Rightarrow> (json list \<times> schemas) option" where
  "parameter_docs depth lib method [] schemas = Some ([], schemas)"
| "parameter_docs depth lib method ((name, f) # fs) schemas =
     (case kind_schema lib (schema depth lib) (f_kind f) schemas of
        None \<Rightarrow> None
      | Some (j, s) \<Rightarrow> map_option (\<lambda>(ps, s'). (parameter_doc lib method name f j # ps, s')) (parameter_docs depth lib method fs s))"

definition described :: "string \<Rightarrow> json" where
  "described d = Object [(''description'', String d)]"

definition operation_doc :: "string \<Rightarrow> string \<Rightarrow> json list \<Rightarrow> json" where
  "operation_doc name output parameters =
     Object [(''get'', Object [
       (''operationId'', String name), (''tags'', Array [String ''read queries'']),
       (''description'', String ''No request body. Public mode removes unapproved/account-specific fields; raw mode is operator-only. Query string limited to 8192 bytes and 256 parameters.''),
       (''security'', Array [Object [(''apiKey'', Array [])]]),
       (''parameters'', Array parameters),
       (''responses'', Object [
         (''200'', Object [
           (''description'', String ''Raw protobuf JSON; 64-bit integers are strings. Fetch time is Unix milliseconds.''),
           (''headers'', Object [
             (''X-Moenotes-Cache'', Object [(''schema'', typed ''string'' [(''enum'', Array (map String [''HIT'', ''MISS'', ''COALESCED'']))])]),
             (''X-Moenotes-Fetched-At'', Object [(''schema'', typed ''string'' [])])]),
           (''content'', Object [(''application/json'', Object [(''schema'', Object [(''$ref'', String (schema_ref output))])])])]),
         (''400'', described ''Invalid query''), (''401'', described ''Missing or invalid HTTP API key''),
         (''403'', described ''Route prohibited by response policy''), (''404'', described ''Route disabled or unknown''),
         (''405'', described ''Only GET is supported; HEAD does not query upstream''),
         (''429'', described ''Local request queue full''),
         (''502'', described ''Upstream business, transport or protocol error''),
         (''503'', described ''Upstream session or availability blocked''),
         (''504'', described ''Request deadline exceeded'')])])]"

text \<open>The first loop: one query route with its parameters.\<close>

definition query_doc ::
  "nat \<Rightarrow> document_library \<Rightarrow> string \<Rightarrow> schemas \<Rightarrow> (json \<times> schemas) option" where
  "query_doc depth lib name schemas =
     Option.bind (find_method name) (\<lambda>m.
     Option.bind (schema depth lib (m_input m) schemas) (\<lambda>s1.
     Option.bind (schema depth lib (m_output m) s1) (\<lambda>s2.
     Option.bind (query_fields (dl_pool lib) (m_input m)) (\<lambda>fs.
     map_option (\<lambda>(ps, s3). (operation_doc name (m_output m) ps, s3)) (parameter_docs depth lib name fs s2)))))"

fun query_docs ::
  "nat \<Rightarrow> document_library \<Rightarrow> (string \<times> string) list \<Rightarrow> (string \<times> json) list \<Rightarrow> schemas \<Rightarrow>
     ((string \<times> json) list \<times> schemas) option" where
  "query_docs depth lib [] paths schemas = Some (paths, schemas)"
| "query_docs depth lib ((path, name) # routes) paths schemas =
     (case query_doc depth lib name schemas of
        None \<Rightarrow> None
      | Some (j, s) \<Rightarrow> query_docs depth lib routes (alist_put path j paths) s)"

text \<open>What public mode leaves out.\<close>

definition hidden_properties :: "(string \<times> string) list" where
  "hidden_properties =
     [(''app.event.GetChallengeMusicRankingResponse'', ''myRank''), (''app.event.GetChallengeMusicRankingResponse'', ''myScore''),
      (''app.livemusic.GetRankingResponse'', ''myRank''), (''app.player.GetPlayerFavoriteStatusResponse'', ''isSentFavorite'')]"

definition hide_property :: "string \<times> string \<Rightarrow> schemas \<Rightarrow> schemas" where
  "hide_property = (\<lambda>(name, field) schemas.
     (case map_of schemas name of
        Some (Object kvs) \<Rightarrow>
          (case map_of kvs ''properties'' of
             Some (Object ps) \<Rightarrow>
               alist_put name (Object (alist_put ''properties'' (Object (alist_remove field ps)) kvs)) schemas
           | _ \<Rightarrow> schemas)
      | _ \<Rightarrow> schemas))"

definition support_doc :: json where
  "support_doc =
     Object [(''get'', Object [(''security'', Array [Object [(''apiKey'', Array [])]]),
       (''responses'', Object [(''200'', described ''Sanitized local operational state''),
          (''401'', described ''Missing API key''), (''503'', described ''Not ready'')])])]"

definition existing_paths :: "response_mode \<Rightarrow> (string \<times> json) list \<Rightarrow> (string \<times> json) list" where
  "existing_paths mode paths =
     alist_put ''/readyz'' support_doc (alist_put ''/v1/status'' support_doc
       (if mode = Public then alist_remove ''/v1/circles/recommended'' paths else paths))"

text \<open>A readable route: a query route's operation with the bound fields moved into the path.\<close>

definition bound_parameter :: "route \<Rightarrow> region option \<Rightarrow> json \<Rightarrow> json" where
  "bound_parameter route scope parameter =
     (case find (\<lambda>(_, field, _). json_get ''name'' parameter = String field) (r_fields route) of
        None \<Rightarrow> parameter
      | Some (path_name, _, is_list) \<Rightarrow>
          json_put_all
            ([(''name'', String path_name), (''in'', String ''path''), (''required'', Bool True), (''style'', String ''simple''),
              (''explode'', Bool False),
              (''description'', String (if is_list then ''Comma-separated items; order and duplicates are preserved.''
                                        else ''URL-encoded path segment.''))]
             @ (if r_method route = ''profile''
                then [(''schema'', typed ''string'' [(''pattern'', String (if scope = Some Jp then ''^[0-9]+$'' else ''^[234][0-9]{10}$''))])]
                else [])) parameter)"

definition route_description :: "route \<Rightarrow> region option \<Rightarrow> string" where
  "route_description route scope =
     (if r_method route = ''profile'' \<and> scope = Some Jp
      then ''JP requires an explicit JP route and a positive int64 profile ID; no international prefix inference.''
      else if r_method route = ''profile''
      then ''11-digit profile ID: 2 = tw, 3 = en, 4 = kr. Selects the matching configured region; explicit region must agree. Unknown prefixes return 400 and missing regions return 503. No cross-region fallback.''
      else ''Readable GET alias. Optional filters remain query parameters. Lists in a path use commas, preserving order and duplicates. Path-bound fields cannot also be query parameters. An explicit region selects its independent session; otherwise the default region is used.'')"

definition route_doc :: "route \<Rightarrow> region option \<Rightarrow> string \<Rightarrow> json \<Rightarrow> json" where
  "route_doc route scope path source =
     (let get = json_get ''get'' source;
          parameters = (case json_get ''parameters'' get of Array ps \<Rightarrow> ps | _ \<Rightarrow> []) in
      json_put ''get''
        (json_put_in [''responses'', ''200'', ''headers''] ''X-Moenotes-Region''
           (Object [(''description'', String ''Selected region for automatic-profile or explicit-region requests.''),
              (''schema'', typed ''string'' [(''enum'', Array (map String [''tw'', ''en'', ''kr'', ''jp'']))])])
          (json_put ''parameters'' (Array (map (bound_parameter route scope) parameters))
            (json_put ''description'' (String (route_description route scope))
              (json_put ''operationId'' (String (''path:'' @ path)) get)))) source)"

definition route_docs :: "(string \<times> json) list \<Rightarrow> route \<Rightarrow> (string \<times> json) list" where
  "route_docs existing route =
     (case find (\<lambda>(_, name). name = r_method route) ROUTES of
        None \<Rightarrow> []
      | Some (legacy, _) \<Rightarrow>
          (case map_of existing legacy of
             None \<Rightarrow> []
           | Some source \<Rightarrow>
               map (\<lambda>scope.
                   let path = (case scope of None \<Rightarrow> r_path route | Some r \<Rightarrow> scoped r (r_path route)) in
                   (path, route_doc route scope path source))
                 [None, Some Tw, Some En, Some Kr, Some Jp]))"

definition regional_docs :: "(string \<times> json) list \<Rightarrow> string \<times> string \<Rightarrow> (string \<times> json) list" where
  "regional_docs existing = (\<lambda>(path, _).
     (case map_of existing path of
        None \<Rightarrow> []
      | Some source \<Rightarrow>
          map (\<lambda>r. (scoped r path,
              json_put ''get''
                (json_put ''description'' (String ''Existing query contract against an explicit configured region. Missing regions return 503; no fallback or cross-region credential reuse.'')
                  (json_put ''operationId'' (String (''region:'' @ scoped r path)) (json_get ''get'' source))) source))
            [Tw, En, Kr, Jp]))"

definition put_all :: "(string \<times> json) list \<Rightarrow> (string \<times> json) list \<Rightarrow> (string \<times> json) list" where
  "put_all entries paths = foldl (\<lambda>ps (k, v). alist_put k v ps) paths entries"

text \<open>\<open>document_for\<close>: the paths and the schemas, and the document that holds them.\<close>

definition document_parts ::
  "nat \<Rightarrow> document_library \<Rightarrow> response_mode \<Rightarrow> ((string \<times> json) list \<times> schemas) option" where
  "document_parts depth lib mode =
     map_option (\<lambda>(paths, schemas).
        let existing = existing_paths mode paths in
        (put_all (concat (map (route_docs existing) PATH_ROUTES) @ concat (map (regional_docs existing) ROUTES)) existing,
         if mode = Public then fold hide_property hidden_properties schemas else schemas))
      (query_docs depth lib ROUTES [] [])"

definition document_for :: "nat \<Rightarrow> document_library \<Rightarrow> response_mode \<Rightarrow> json option" where
  "document_for depth lib mode =
     map_option (\<lambda>(paths, schemas).
        Object [(''openapi'', String ''3.1.0''),
          (''info'', Object [(''title'', String ''moenotes-api''), (''version'', String (dl_version lib)),
             (''description'', String ''Experimental GET query gateway with limited live validation. Not an official or stable API.'')]),
          (''paths'', Object paths),
          (''components'', Object [
             (''securitySchemes'', Object [(''apiKey'', typed ''http'' [(''scheme'', String ''bearer'')])]),
             (''schemas'', Object schemas)])])
      (document_parts depth lib mode)"

section \<open>References\<close>

text \<open>The targets of the references in a document.\<close>

fun refs :: "json \<Rightarrow> string list" where
  "refs (Array vs) = concat (map refs vs)"
| "refs (Object kvs) =
     concat (map (\<lambda>(k, v). (case v of String s \<Rightarrow> if k = ''$ref'' then [s] else [] | _ \<Rightarrow> []) @ refs v) kvs)"
| "refs _ = []"

definition is_object :: "json \<Rightarrow> bool" where
  "is_object j \<longleftrightarrow> as_object j \<noteq> None"

lemma refs_object:
  "set (refs (Object kvs)) = (\<Union>(k, v)\<in>set kvs. set (refs (Object [(k, v)])))"
  by auto

lemma refs_entry: "k \<noteq> ''$ref'' \<or> is_object v \<Longrightarrow> refs (Object [(k, v)]) = refs v"
  by (cases v) (auto simp: is_object_def as_object_def)

lemma refs_member: "(k, v) \<in> set kvs \<Longrightarrow> set (refs v) \<subseteq> set (refs (Object kvs))"
  by force

lemma set_alist_put: "set (alist_put k v xs) \<subseteq> insert (k, v) (set xs)"
  by (induction xs) (auto split: if_split_asm)

lemma refs_json_put: "set (refs (json_put k v j)) \<subseteq> set (refs (Object [(k, v)])) \<union> set (refs j)"
proof (cases j)
  case (Object kvs)
  have "set (refs (Object (alist_put k v kvs))) \<subseteq> set (refs (Object ((k, v) # kvs)))"
    unfolding refs_object [of "alist_put k v kvs"] refs_object [of "(k, v) # kvs"]
    using set_alist_put [of k v kvs] by fastforce
  then show ?thesis using Object by (auto simp: json_put_def)
qed (simp_all add: json_put_def)

lemma refs_json_get: "set (refs (json_get k j)) \<subseteq> set (refs j)"
proof (cases j)
  case (Object kvs)
  show ?thesis
  proof (cases "map_of kvs k")
    case (Some v)
    with refs_member [OF map_of_SomeD [OF Some]] Object show ?thesis by (simp add: json_get_def)
  qed (simp add: json_get_def Object)
qed (simp_all add: json_get_def)

lemma refs_json_put_plain: "k \<noteq> ''$ref'' \<Longrightarrow> set (refs (json_put k v j)) \<subseteq> set (refs v) \<union> set (refs j)"
  using refs_json_put [of k v j] refs_entry [of k v] by auto

lemma refs_put_le:
  "k \<noteq> ''$ref'' \<Longrightarrow> set (refs v) \<subseteq> X \<Longrightarrow> set (refs j) \<subseteq> X \<Longrightarrow> set (refs (json_put k v j)) \<subseteq> X"
  using refs_json_put_plain [of k v j] by blast

lemma refs_json_put_in:
  "''$ref'' \<notin> set (k # ps) \<Longrightarrow> set (refs (json_put_in ps k v j)) \<subseteq> set (refs v) \<union> set (refs j)"
proof (induction ps arbitrary: j)
  case Nil
  then show ?case using refs_json_put_plain by simp
next
  case (Cons p ps)
  have "set (refs (json_put_in (p # ps) k v j)) \<subseteq> set (refs (json_put_in ps k v (json_get p j))) \<union> set (refs j)"
    using refs_json_put_plain [of p "json_put_in ps k v (json_get p j)" j] Cons.prems by force
  also have "\<dots> \<subseteq> set (refs v) \<union> set (refs j)"
    using Cons refs_json_get [of p j] by fastforce
  finally show ?case .
qed

lemma refs_json_put_all:
  "\<forall>(k, v)\<in>set kvs. k \<noteq> ''$ref'' \<and> refs v = [] \<Longrightarrow> set (refs (json_put_all kvs j)) \<subseteq> set (refs j)"
proof (induction kvs arbitrary: j)
  case (Cons kv kvs)
  obtain k v where kv: "kv = (k, v)" by fastforce
  with Cons have "set (refs (json_put_all kvs (json_put k v j))) \<subseteq> set (refs (json_put k v j))" by auto
  also have "\<dots> \<subseteq> set (refs j)" using refs_json_put_plain [of k v j] Cons.prems kv by auto
  finally show ?case using kv by simp
qed simp

text \<open>Every reference of a list of documents names a schema.\<close>

definition resolved :: "schemas \<Rightarrow> json \<Rightarrow> bool" where
  "resolved schemas j \<longleftrightarrow> set (refs j) \<subseteq> schema_ref ` fst ` set schemas"

definition closed_docs :: "schemas \<Rightarrow> (string \<times> json) list \<Rightarrow> bool" where
  "closed_docs schemas docs \<longleftrightarrow> (\<forall>(k, j)\<in>set docs. is_object j \<and> resolved schemas j)"

lemma resolved_mono: "resolved s j \<Longrightarrow> fst ` set s \<subseteq> fst ` set s' \<Longrightarrow> resolved s' j"
  unfolding resolved_def by (meson image_mono order_trans)

lemma closed_docs_mono: "closed_docs s ds \<Longrightarrow> fst ` set s \<subseteq> fst ` set s' \<Longrightarrow> closed_docs s' ds"
  by (auto simp: closed_docs_def dest: resolved_mono)

lemma closed_docs_put:
  "closed_docs s ds \<Longrightarrow> is_object j \<Longrightarrow> resolved s j \<Longrightarrow> closed_docs s (alist_put k j ds)"
  using set_alist_put [of k j ds] by (auto simp: closed_docs_def)

lemma closed_docs_object: "closed_docs s ds \<Longrightarrow> resolved s (Object ds)"
  unfolding resolved_def refs_object [of ds]
proof (intro UN_least)
  fix x
  assume ds: "closed_docs s ds" and x: "x \<in> set ds"
  obtain k v where kv: "x = (k, v)" by (cases x)
  with ds x have "is_object v" "set (refs v) \<subseteq> schema_ref ` fst ` set s" by (auto simp: closed_docs_def resolved_def)
  then show "(case x of (k, v) \<Rightarrow> set (refs (Object [(k, v)]))) \<subseteq> schema_ref ` fst ` set s"
    by (simp del: refs.simps add: refs_entry kv)
qed

section \<open>The schema recursion\<close>

definition grown :: "schemas \<Rightarrow> schemas \<Rightarrow> bool" where
  "grown s s' \<longleftrightarrow> fst ` set s \<subseteq> fst ` set s' \<and> (closed_docs s s \<longrightarrow> closed_docs s' s')"

lemma grown_trans: "grown a b \<Longrightarrow> grown b c \<Longrightarrow> grown a c"
  by (auto simp: grown_def)

lemma typed_object [simp]: "is_object (typed t rest)" "is_object (Object kvs)"
  by (simp_all add: is_object_def typed_def)

lemma refs_texts [simp]: "concat (map (refs \<circ> String) xs) = []"
  by (induction xs) simp_all

lemma refs_typed: "''$ref'' \<notin> fst ` set rest \<Longrightarrow> set (refs (typed t rest)) = (\<Union>(k, v)\<in>set rest. set (refs v))"
  by (force simp: typed_def split: json.split)

definition good_message :: "(string \<Rightarrow> schemas \<Rightarrow> schemas option) \<Rightarrow> bool" where
  "good_message message \<longleftrightarrow> (\<forall>name s s'. message name s = Some s' \<longrightarrow> grown s s' \<and> name \<in> fst ` set s')"

lemma kind_schema_good:
  assumes "good_message message" "kind_schema lib message k s = Some (j, s')"
  shows "grown s s' \<and> is_object j \<and> resolved s' j"
proof (cases k)
  case (KMessage name)
  with assms show ?thesis by (auto simp: kind_schema_def good_message_def resolved_def)
qed (use assms(2) in \<open>auto simp: kind_schema_def grown_def resolved_def typed_def\<close>)

lemma field_schema_good:
  assumes "good_message message" "field_schema lib message f s = Some (j, s')"
  shows "grown s s' \<and> is_object j \<and> resolved s' j"
  using assms(2) kind_schema_good [OF assms(1)]
  by (fastforce simp: field_schema_def resolved_def refs_typed split: if_split_asm field_kind.split_asm option.split_asm)

lemma field_schemas_good:
  assumes "good_message message" "field_schemas lib message fs ps s = Some (ps', s')" "closed_docs s ps"
  shows "grown s s' \<and> closed_docs s' ps'"
  using assms(2,3)
proof (induction fs arbitrary: ps s)
  case (Cons f fs)
  then obtain j s1 where f: "field_schema lib message f s = Some (j, s1)"
    "field_schemas lib message fs (alist_put (f_json_name f) j ps) s1 = Some (ps', s')" by (auto split: option.split_asm)
  note g = field_schema_good [OF assms(1) f(1)]
  then have "closed_docs s1 (alist_put (f_json_name f) j ps)"
    using Cons.prems(2) by (auto simp: grown_def intro: closed_docs_put closed_docs_mono)
  from Cons.IH [OF f(2) this] g grown_trans show ?case by blast
qed (simp add: grown_def)

lemma schema_good: "good_message (schema depth lib)"
proof (induction depth)
  case 0
  then show ?case by (auto simp: good_message_def grown_def map_of_eq_None_iff)
next
  case (Suc depth)
  have "grown s s' \<and> name \<in> fst ` set s'" if run: "schema (Suc depth) lib name s = Some s'" for name s s'
  proof (cases "map_of s name")
    case None
    let ?s1 = "alist_put name (Object []) s"
    from None run obtain fs ps s2 where f: "field_schemas lib (schema depth lib) fs [] ?s1 = Some (ps, s2)"
      "s' = alist_put name (typed ''object'' [(''properties'', Object ps), (''additionalProperties'', Bool False)]) s2"
      by (auto split: option.split_asm)
    have g: "grown ?s1 s2" "closed_docs s2 ps"
      using field_schemas_good [OF Suc f(1)] by (simp_all add: closed_docs_def)
    have keys: "fst ` set ?s1 \<subseteq> fst ` set s2" "fst ` set s2 \<subseteq> fst ` set s'" using g(1) f(2) by (auto simp: grown_def)
    have "closed_docs s' s'" if "closed_docs s s"
    proof -
      have "closed_docs ?s1 ?s1"
        by (rule closed_docs_put [OF closed_docs_mono [OF that]]) (auto simp: resolved_def)
      with g(1) have "closed_docs s2 s2" by (simp add: grown_def)
      moreover have "resolved s2 (typed ''object'' [(''properties'', Object ps), (''additionalProperties'', Bool False)])"
        using closed_docs_object [OF g(2)] by (simp add: resolved_def refs_typed)
      ultimately show ?thesis
        using keys(2) unfolding f(2) by (intro closed_docs_mono [OF closed_docs_put]) simp_all
    qed
    with keys f(2) show ?thesis by (auto simp: grown_def)
  qed (use run in \<open>auto simp: grown_def dest: map_of_SomeD intro: rev_image_eqI\<close>)
  then show ?case by (simp add: good_message_def)
qed

section \<open>The documents of the routes\<close>

lemma parameter_doc_refs: "set (refs (parameter_doc lib method name f v)) \<subseteq> set (refs v)"
proof -
  let ?listed = "typed ''array'' [(''items'', v), (''maxItems'', Number ''100'')]"
  have listed: "set (refs ?listed) \<subseteq> set (refs v)" by (simp add: refs_typed)
  have "set (refs (json_put ''minItems'' (Number ''1'') ?listed)) \<subseteq> set (refs v)"
    using refs_json_put_plain [of "''minItems''" "Number ''1''" ?listed] listed by auto
  with listed show ?thesis
    by (auto simp: parameter_doc_def Let_def split: json.split_asm if_split_asm)
qed

lemma parameter_docs_good:
  assumes "parameter_docs depth lib method fs s = Some (ps, s')"
  shows "grown s s' \<and> (\<forall>p\<in>set ps. resolved s' p)"
  using assms
proof (induction fs arbitrary: s ps)
  case (Cons nf fs)
  obtain name f where nf: "nf = (name, f)" by fastforce
  with Cons.prems obtain j s1 ps1 where k: "kind_schema lib (schema depth lib) (f_kind f) s = Some (j, s1)"
    "parameter_docs depth lib method fs s1 = Some (ps1, s')" "ps = parameter_doc lib method name f j # ps1"
    by (auto split: option.split_asm)
  from kind_schema_good [OF schema_good k(1)] have g: "grown s s1" "resolved s1 j" by simp_all
  from Cons.IH [OF k(2)] have i: "grown s1 s'" "\<forall>p\<in>set ps1. resolved s' p" by simp_all
  have "resolved s' j" using resolved_mono [OF g(2)] i(1) by (simp add: grown_def)
  then have "resolved s' (parameter_doc lib method name f j)"
    unfolding resolved_def by (rule order_trans [OF parameter_doc_refs])
  with g(1) i k(3) grown_trans show ?case by auto
qed (simp add: grown_def)

lemma refs_described [simp]: "refs (described d) = []"
  by (simp add: described_def)

lemma operation_doc_refs:
  "set (refs (operation_doc name output ps)) \<subseteq> insert (schema_ref output) (\<Union>p\<in>set ps. set (refs p))"
  by (auto simp: operation_doc_def described_def typed_def)

lemma query_doc_good:
  assumes "query_doc depth lib name s = Some (j, s')"
  shows "grown s s' \<and> is_object j \<and> resolved s' j"
proof -
  from assms obtain m :: api_method and s1 s2 fs where q: "schema depth lib (m_input m) s = Some s1" "schema depth lib (m_output m) s1 = Some s2"
    "map_option (\<lambda>(ps, s3). (operation_doc name (m_output m) ps, s3)) (parameter_docs depth lib name fs s2) = Some (j, s')"
    unfolding query_doc_def bind_eq_Some_conv by blast
  then obtain ps where r: "schema depth lib (m_input m) s = Some s1" "schema depth lib (m_output m) s1 = Some s2"
    "parameter_docs depth lib name fs s2 = Some (ps, s')" "j = operation_doc name (m_output m) ps" by auto
  have g: "grown s s1" "grown s1 s2" "m_output m \<in> fst ` set s2"
    using schema_good r(1,2) unfolding good_message_def by blast+
  note p = parameter_docs_good [OF r(3)]
  have "grown s s'" using g p grown_trans by blast
  moreover have "m_output m \<in> fst ` set s'" using g(3) p by (auto simp: grown_def)
  then have "resolved s' j"
    using operation_doc_refs [of name "m_output m" ps] p unfolding r(4) resolved_def by blast
  moreover have "is_object j" by (simp add: r(4) operation_doc_def)
  ultimately show ?thesis by blast
qed

lemma query_docs_good:
  assumes "query_docs depth lib routes paths s = Some (paths', s')" "closed_docs s s" "closed_docs s paths"
  shows "closed_docs s' s' \<and> closed_docs s' paths' \<and> fst ` set paths' = fst ` set paths \<union> fst ` set routes"
  using assms
proof (induction routes arbitrary: paths s)
  case (Cons pn routes)
  obtain path name where pn: "pn = (path, name)" by fastforce
  with Cons.prems obtain j s1 where q: "query_doc depth lib name s = Some (j, s1)"
    "query_docs depth lib routes (alist_put path j paths) s1 = Some (paths', s')" by (auto split: option.split_asm)
  note g = query_doc_good [OF q(1)]
  then have "closed_docs s1 s1" "closed_docs s1 (alist_put path j paths)"
    using Cons.prems by (auto simp: grown_def intro: closed_docs_put closed_docs_mono)
  from Cons.IH [OF q(2) this] pn show ?case by auto
qed simp

lemma bound_parameter_refs: "set (refs (bound_parameter route scope p)) \<subseteq> set (refs p)"
proof (cases "find (\<lambda>(_, field, _). json_get ''name'' p = String field) (r_fields route)")
  case (Some x)
  obtain path_name field is_list where x: "x = (path_name, field, is_list)" by (cases x)
  show ?thesis
    unfolding bound_parameter_def Some x option.case prod.case
    by (rule refs_json_put_all) (simp add: typed_def)
qed (simp add: bound_parameter_def)

lemma route_doc_refs: "set (refs (route_doc route scope path source)) \<subseteq> set (refs source)"
proof -
  let ?get = "json_get ''get'' source"
  let ?ps = "case json_get ''parameters'' ?get of Array ps \<Rightarrow> ps | _ \<Rightarrow> []"
  have get: "set (refs ?get) \<subseteq> set (refs source)" by (rule refs_json_get)
  have "set (refs (Array ?ps)) \<subseteq> set (refs (json_get ''parameters'' ?get))"
    by (cases "json_get ''parameters'' ?get") simp_all
  also have "\<dots> \<subseteq> set (refs ?get)" by (rule refs_json_get)
  finally have ps: "set (refs (Array (map (bound_parameter route scope) ?ps))) \<subseteq> set (refs ?get)"
    using bound_parameter_refs by fastforce
  let ?header = "Object [(''description'', String ''Selected region for automatic-profile or explicit-region requests.''),
              (''schema'', typed ''string'' [(''enum'', Array (map String [''tw'', ''en'', ''kr'', ''jp'']))])]"
  have "set (refs (json_put_in [''responses'', ''200'', ''headers''] ''X-Moenotes-Region'' ?header j)) \<subseteq> set (refs ?header) \<union> set (refs j)" for j
    by (rule refs_json_put_in) simp
  moreover have "refs ?header = []" by (simp add: typed_def)
  ultimately have header: "set (refs (json_put_in [''responses'', ''200'', ''headers''] ''X-Moenotes-Region'' ?header j)) \<subseteq> set (refs j)" for j
    by simp
  show ?thesis
    unfolding route_doc_def Let_def
  proof (rule refs_put_le)
    show "set (refs (json_put_in [''responses'', ''200'', ''headers''] ''X-Moenotes-Region'' ?header
        (json_put ''parameters'' (Array (map (bound_parameter route scope) ?ps))
          (json_put ''description'' (String (route_description route scope))
            (json_put ''operationId'' (String (''path:'' @ path)) ?get))))) \<subseteq> set (refs source)"
      by (rule order_trans [OF header], rule order_trans [OF _ get], intro refs_put_le ps) simp_all
  qed simp_all
qed

section \<open>The whole document\<close>

lemma is_object_put [simp]: "is_object (json_put k v j) = is_object j"
  by (cases j) (simp_all add: json_put_def is_object_def)

lemma put_all_keys: "fst ` set (put_all es ps) = fst ` set es \<union> fst ` set ps"
  unfolding put_all_def
proof (induction es arbitrary: ps)
  case (Cons kv es)
  obtain k v where kv: "kv = (k, v)" by fastforce
  have "fst ` set (foldl (\<lambda>ps (k, v). alist_put k v ps) ps (kv # es)) = fst ` set es \<union> fst ` set (alist_put k v ps)"
    using Cons.IH [of "alist_put k v ps"] kv by simp
  with kv show ?case by (simp only: set_keys_alist_put list.set image_insert fst_conv) blast
qed simp

lemma put_all_closed: "closed_docs s es \<Longrightarrow> closed_docs s ps \<Longrightarrow> closed_docs s (put_all es ps)"
  unfolding put_all_def
proof (induction es arbitrary: ps)
  case (Cons kv es)
  obtain k v where kv: "kv = (k, v)" by fastforce
  have "closed_docs s es" "closed_docs s (alist_put k v ps)"
    using Cons.prems kv by (auto simp: closed_docs_def intro!: closed_docs_put [unfolded closed_docs_def, simplified])
      (use set_alist_put [of k v ps] in fastforce)+
  with Cons.IH kv show ?case by simp
qed simp

lemma existing_closed: "closed_docs s ps \<Longrightarrow> closed_docs s (existing_paths mode ps)"
proof -
  assume "closed_docs s ps"
  then have "closed_docs s (if mode = Public then alist_remove ''/v1/circles/recommended'' ps else ps)"
    by (auto simp: closed_docs_def alist_remove_def)
  moreover have "refs support_doc = []" by (simp add: support_doc_def described_def)
  then have "resolved s support_doc" by (simp add: resolved_def)
  moreover have "is_object support_doc" by (simp add: support_doc_def)
  ultimately show ?thesis unfolding existing_paths_def by (intro closed_docs_put)
qed

lemma route_docs_closed: "closed_docs s existing \<Longrightarrow> closed_docs s (route_docs existing route)"
proof -
  assume closed: "closed_docs s existing"
  have "is_object (route_doc route scope path source) \<and> resolved s (route_doc route scope path source)"
    if "map_of existing legacy = Some source" for legacy scope path source
  proof -
    from map_of_SomeD [OF that] closed have "is_object source" "resolved s source" by (auto simp: closed_docs_def)
    with route_doc_refs [of route scope path source] show ?thesis
      by (auto simp: resolved_def route_doc_def Let_def)
  qed
  then show ?thesis by (auto simp: closed_docs_def route_docs_def Let_def split: option.split)
qed

lemma regional_docs_closed: "closed_docs s existing \<Longrightarrow> closed_docs s (regional_docs existing pm)"
proof -
  assume closed: "closed_docs s existing"
  have "resolved s (json_put ''get'' (json_put ''description'' (String d) (json_put ''operationId'' (String i) (json_get ''get'' source))) source)
      \<and> is_object source"
    if "map_of existing path = Some source" for path d i source
  proof -
    from map_of_SomeD [OF that] closed have c: "is_object source" "resolved s source" by (auto simp: closed_docs_def)
    have "set (refs (json_put ''get'' (json_put ''description'' (String d) (json_put ''operationId'' (String i) (json_get ''get'' source))) source))
        \<subseteq> set (refs source)"
      by (intro refs_put_le refs_json_get) simp_all
    with c show ?thesis by (auto simp: resolved_def)
  qed
  then show ?thesis by (auto simp: closed_docs_def regional_docs_def split: option.split prod.split)
qed

lemma hide_property_keys: "fst ` set (hide_property nf s) = fst ` set s"
proof -
  obtain name field where nf: "nf = (name, field)" by fastforce
  have "name \<in> fst ` set s" if "map_of s name = Some v" for v using map_of_SomeD [OF that] by force
  then show ?thesis by (auto simp: nf hide_property_def insert_absorb simp del: image_iff split: option.split json.split)
qed

lemma hide_property_closed:
  assumes "closed_docs s ds"
  shows "closed_docs s (hide_property nf ds)"
proof -
  obtain name field where nf: "nf = (name, field)" by fastforce
  have "closed_docs s (alist_put name (Object (alist_put ''properties'' (Object (alist_remove field ps)) kvs)) ds)"
    if m: "map_of ds name = Some (Object kvs)" "map_of kvs ''properties'' = Some (Object ps)" for kvs ps
  proof (rule closed_docs_put [OF assms])
    have "set (refs (Object (alist_remove field ps))) \<subseteq> set (refs (Object ps))" by (auto simp: alist_remove_def)
    also have "\<dots> \<subseteq> set (refs (Object kvs))" by (rule refs_member [OF map_of_SomeD [OF m(2)]])
    finally have "set (refs (json_put ''properties'' (Object (alist_remove field ps)) (Object kvs))) \<subseteq> set (refs (Object kvs))"
      by (intro refs_put_le) simp_all
    moreover have "resolved s (Object kvs)" using assms map_of_SomeD [OF m(1)] by (auto simp: closed_docs_def)
    ultimately show "resolved s (Object (alist_put ''properties'' (Object (alist_remove field ps)) kvs))"
      unfolding json_put_def resolved_def json.case by (rule order_trans)
  qed simp
  with assms show ?thesis by (auto simp: nf hide_property_def split: option.split json.split)
qed

lemma hide_all:
  "closed_docs s s \<Longrightarrow> closed_docs s ps \<Longrightarrow>
     closed_docs (fold hide_property hs s) (fold hide_property hs s) \<and> closed_docs (fold hide_property hs s) ps"
proof (induction hs arbitrary: s)
  case (Cons h hs)
  have k: "fst ` set s \<subseteq> fst ` set (hide_property h s)" by (simp add: hide_property_keys)
  have "closed_docs (hide_property h s) (hide_property h s)" "closed_docs (hide_property h s) ps"
    using closed_docs_mono [OF hide_property_closed [OF Cons.prems(1)] k] closed_docs_mono [OF Cons.prems(2) k] by simp_all
  from Cons.IH [OF this] show ?case by simp
qed simp

lemma document_parts_closed:
  assumes "document_parts depth lib mode = Some (paths, schemas)"
  shows "closed_docs schemas schemas \<and> closed_docs schemas paths"
proof -
  from assms obtain ps s where q: "query_docs depth lib ROUTES [] [] = Some (ps, s)"
    "paths = put_all (concat (map (route_docs (existing_paths mode ps)) PATH_ROUTES)
        @ concat (map (regional_docs (existing_paths mode ps)) ROUTES)) (existing_paths mode ps)"
    "schemas = (if mode = Public then fold hide_property hidden_properties s else s)"
    by (auto simp: document_parts_def Let_def)
  have c: "closed_docs s s" "closed_docs s ps" using query_docs_good [OF q(1)] by (simp_all add: closed_docs_def)
  note e = existing_closed [OF c(2), of mode]
  have "closed_docs s (concat (map (route_docs (existing_paths mode ps)) PATH_ROUTES)
        @ concat (map (regional_docs (existing_paths mode ps)) ROUTES))"
    using route_docs_closed [OF e] regional_docs_closed [OF e] by (fastforce simp: closed_docs_def)
  then have "closed_docs s paths" unfolding q(2) using e by (rule put_all_closed)
  with c(1) hide_all show ?thesis unfolding q(3) by auto
qed

section \<open>The document is always produced\<close>

text \<open>The messages of \<open>R\<close> are declared, and their fields lead to messages of \<open>R\<close> only.\<close>

definition field_within :: "document_library \<Rightarrow> string set \<Rightarrow> field_descriptor \<Rightarrow> bool" where
  "field_within lib R f \<longleftrightarrow>
     (if f_is_map f
      then (\<exists>entry v. f_kind f = KMessage entry \<and> field_by_name (dl_pool lib) entry ''value'' = Some v
              \<and> (\<forall>m. f_kind v = KMessage m \<longrightarrow> m \<in> R))
      else (\<forall>m. f_kind f = KMessage m \<longrightarrow> m \<in> R))"

definition covered :: "document_library \<Rightarrow> string set \<Rightarrow> bool" where
  "covered lib R \<longleftrightarrow> finite R \<and> (\<forall>name\<in>R. \<exists>fs. dl_pool lib name = Some fs \<and> (\<forall>f\<in>set fs. field_within lib R f))"

lemma kind_schema_returns:
  "(\<And>m. k = KMessage m \<Longrightarrow> message m s \<noteq> None) \<Longrightarrow> \<exists>j s'. kind_schema lib message k s = Some (j, s')"
  by (cases k) (auto simp: kind_schema_def)

lemma field_schemas_returns:
  assumes "good_message message" "\<And>name s. name \<in> R \<Longrightarrow> fst ` set s0 \<subseteq> fst ` set s \<Longrightarrow> message name s \<noteq> None"
    and "\<forall>f\<in>set fs. field_within lib R f" "fst ` set s0 \<subseteq> fst ` set s"
  shows "field_schemas lib message fs ps s \<noteq> None"
  using assms(3,4)
proof (induction fs arbitrary: ps s)
  case (Cons f fs)
  have kind: "\<exists>j s'. kind_schema lib message k s = Some (j, s')" if "\<forall>m. k = KMessage m \<longrightarrow> m \<in> R" for k
    using that assms(2) Cons.prems(2) by (intro kind_schema_returns) auto
  obtain j s1 where f: "field_schema lib message f s = Some (j, s1)"
  proof (cases "f_is_map f")
    case True
    with Cons.prems(1) obtain entry v where e: "f_kind f = KMessage entry" "field_by_name (dl_pool lib) entry ''value'' = Some v"
      "\<forall>m. f_kind v = KMessage m \<longrightarrow> m \<in> R" by (auto simp: field_within_def)
    from kind [OF e(3)] e True that show ?thesis by (auto simp: field_schema_def)
  next
    case False
    with Cons.prems(1) have "\<forall>m. f_kind f = KMessage m \<longrightarrow> m \<in> R" by (simp add: field_within_def)
    from kind [OF this] False that show ?thesis by (cases "f_is_list f") (auto simp: field_schema_def)
  qed
  then have "fst ` set s0 \<subseteq> fst ` set s1"
    using field_schema_good [OF assms(1) f] Cons.prems(2) by (auto simp: grown_def)
  with Cons f show ?case by simp
qed simp

lemma schema_returns:
  assumes "covered lib R"
  shows "name \<in> R \<Longrightarrow> card (R - fst ` set s) \<le> depth \<Longrightarrow> schema depth lib name s \<noteq> None"
proof (induction depth arbitrary: name s)
  case 0
  then have "name \<in> fst ` set s" using assms by (auto simp: covered_def)
  then show ?case by (auto simp: map_of_eq_None_iff)
next
  case (Suc depth)
  show ?case
  proof (cases "map_of s name")
    case None
    let ?s1 = "alist_put name (Object []) s"
    from assms Suc.prems(1) obtain fs where fs: "dl_pool lib name = Some fs" "\<forall>f\<in>set fs. field_within lib R f"
      by (auto simp: covered_def)
    have "name \<in> R - fst ` set s" using None Suc.prems(1) by (auto simp: map_of_eq_None_iff)
    then have "card (R - fst ` set ?s1) < card (R - fst ` set s)"
      using assms by (intro psubset_card_mono) (auto simp: covered_def)
    with Suc.prems(2) have small: "card (R - fst ` set ?s1) \<le> depth" by simp
    have msgs: "schema depth lib m s' \<noteq> None" if "m \<in> R" "fst ` set ?s1 \<subseteq> fst ` set s'" for m s'
    proof (rule Suc.IH [OF that(1)])
      have "card (R - fst ` set s') \<le> card (R - fst ` set ?s1)"
        using assms that(2) by (intro card_mono) (auto simp: covered_def)
      with small show "card (R - fst ` set s') \<le> depth" by simp
    qed
    have "field_schemas lib (schema depth lib) fs [] ?s1 \<noteq> None"
      by (rule field_schemas_returns [OF schema_good msgs fs(2) order_refl])
    with fs(1) None show ?thesis by auto
  qed simp
qed

lemma collect_leaves:
  "collect depth pool prefix message = Some out \<Longrightarrow> \<forall>x\<in>set out. \<forall>m. f_kind (snd x) \<noteq> KMessage m"
proof (induction depth arbitrary: prefix message out)
  case (Suc depth)
  let ?step = "\<lambda>f rest.
       (case rest of
          None \<Rightarrow> None
        | Some out \<Rightarrow>
            (case f_kind f of
               KMessage nested \<Rightarrow>
                 if f_is_list f \<or> f_is_map f then None
                 else map_option (\<lambda>inner. inner @ out)
                        (collect depth pool (prefix @ f_json_name f @ ''.'') nested)
             | _ \<Rightarrow> Some ((prefix @ f_json_name f, f) # out)))"
  have "foldr ?step fs (Some []) = Some out \<Longrightarrow> \<forall>x\<in>set out. \<forall>m. f_kind (snd x) \<noteq> KMessage m" for fs out
  proof (induction fs arbitrary: out)
    case (Cons f fs)
    then obtain rest where r: "foldr ?step fs (Some []) = Some rest" by (auto split: option.split_asm)
    with Cons have rest: "\<forall>x\<in>set rest. \<forall>m. f_kind (snd x) \<noteq> KMessage m" by blast
    show ?case
    proof (cases "f_kind f")
      case (KMessage nested)
      with Cons.prems r obtain inner where "collect depth pool (prefix @ f_json_name f @ ''.'') nested = Some inner"
        "out = inner @ rest" by (auto split: if_split_asm)
      with Suc.IH rest show ?thesis by fastforce
    qed (use Cons.prems r rest in auto)
  qed simp
  with Suc.prems show ?case by simp
qed simp

lemma parameter_docs_returns:
  "\<forall>x\<in>set fs. \<forall>m. f_kind (snd x) \<noteq> KMessage m \<Longrightarrow> parameter_docs depth lib method fs s \<noteq> None"
proof (induction fs arbitrary: s)
  case (Cons nf fs)
  obtain name f where nf: "nf = (name, f)" by fastforce
  with Cons.prems obtain j s1 where "kind_schema lib (schema depth lib) (f_kind f) s = Some (j, s1)"
    using kind_schema_returns [of "f_kind f"] by fastforce
  with Cons nf show ?case by auto
qed simp

definition documented :: "document_library \<Rightarrow> string set \<Rightarrow> string \<Rightarrow> bool" where
  "documented lib R name \<longleftrightarrow>
     (case find_method name of
        None \<Rightarrow> False
      | Some m \<Rightarrow> m_input m \<in> R \<and> m_output m \<in> R \<and> query_fields (dl_pool lib) (m_input m) \<noteq> None)"

lemma query_docs_returns:
  assumes "covered lib R" "card R \<le> depth"
  shows "\<forall>(path, name)\<in>set routes. documented lib R name \<Longrightarrow> query_docs depth lib routes paths s \<noteq> None"
proof (induction routes arbitrary: paths s)
  case (Cons pn routes)
  obtain path name where pn: "pn = (path, name)" by fastforce
  with Cons.prems obtain m :: api_method and fs where m: "find_method name = Some m" "m_input m \<in> R" "m_output m \<in> R"
    "query_fields (dl_pool lib) (m_input m) = Some fs"
    by (auto simp: documented_def split: option.split_asm)
  have call: "schema depth lib n s \<noteq> None" if "n \<in> R" for n s
  proof (rule schema_returns [OF assms(1) that])
    have "card (R - fst ` set s) \<le> card R" using assms(1) by (intro card_mono) (auto simp: covered_def)
    with assms(2) show "card (R - fst ` set s) \<le> depth" by simp
  qed
  from call [OF m(2)] obtain s1 where s1: "schema depth lib (m_input m) s = Some s1" by blast
  from call [OF m(3)] obtain s2 where s2: "schema depth lib (m_output m) s1 = Some s2" by blast
  have "\<forall>x\<in>set fs. \<forall>m. f_kind (snd x) \<noteq> KMessage m" using m(4) collect_leaves unfolding query_fields_def by blast
  from parameter_docs_returns [OF this] obtain ps s3 where "parameter_docs depth lib name fs s2 = Some (ps, s3)" by fast
  with m s1 s2 have "query_doc depth lib name s = Some (operation_doc name (m_output m) ps, s3)" by (simp add: query_doc_def)
  with Cons pn show ?case by simp
qed simp

section \<open>The documented paths\<close>

lemma readable_routes_extend:
  "route \<in> set PATH_ROUTES \<Longrightarrow>
     \<exists>legacy. find (\<lambda>(_, name). name = r_method route) ROUTES = Some (legacy, r_method route)
       \<and> legacy \<noteq> ''/v1/circles/recommended'' \<and> r_method route \<noteq> ''circle-recommendations''"
proof -
  have "list_all (\<lambda>route. case find (\<lambda>(_, name). name = r_method route) ROUTES of None \<Rightarrow> False
      | Some (legacy, m) \<Rightarrow> m = r_method route \<and> legacy \<noteq> ''/v1/circles/recommended'' \<and> m \<noteq> ''circle-recommendations'') PATH_ROUTES"
    by (simp add: PATH_ROUTES_def ROUTES_def)
  moreover assume "route \<in> set PATH_ROUTES"
  ultimately show ?thesis by (fastforce simp: list_all_iff split: option.split_asm)
qed

lemma recommended_route: "(path, m) \<in> set ROUTES \<Longrightarrow> path = ''/v1/circles/recommended'' \<longleftrightarrow> m = ''circle-recommendations''"
  by (auto simp: ROUTES_def)

definition shown :: "response_mode \<Rightarrow> (string \<times> string) set" where
  "shown mode = {(path, m). (path, m) \<in> set ROUTES \<and> permitted mode m}"

lemma fst_image_iff: "x \<in> fst ` A \<longleftrightarrow> (\<exists>y. (x, y) \<in> A)"
  by force

lemma existing_keys:
  "fst ` set ps = fst ` set ROUTES \<Longrightarrow>
     fst ` set (existing_paths mode ps) = {''/v1/status'', ''/readyz''} \<union> fst ` shown mode"
proof -
  assume ps: "fst ` set ps = fst ` set ROUTES"
  have "fst ` shown mode = (if mode = Public then fst ` set ROUTES - {''/v1/circles/recommended''} else fst ` set ROUTES)"
  proof (rule set_eqI)
    fix path
    show "path \<in> fst ` shown mode \<longleftrightarrow>
        path \<in> (if mode = Public then fst ` set ROUTES - {''/v1/circles/recommended''} else fst ` set ROUTES)"
      unfolding fst_image_iff Diff_iff shown_def permitted_def singleton_iff if_distrib [of "\<lambda>S. path \<in> S"]
      using recommended_route [of path] by auto
  qed
  with ps show ?thesis by (cases "mode = Public") (simp_all add: existing_paths_def insert_commute)
qed

lemma route_docs_keys:
  assumes "route \<in> set PATH_ROUTES" "fst ` shown mode \<subseteq> fst ` set existing"
  shows "fst ` set (route_docs existing route)
    = (\<lambda>scope. case scope of None \<Rightarrow> r_path route | Some r \<Rightarrow> scoped r (r_path route)) ` {None, Some Tw, Some En, Some Kr, Some Jp}"
proof -
  from readable_routes_extend [OF assms(1)] obtain legacy where l:
    "find (\<lambda>(_, name). name = r_method route) ROUTES = Some (legacy, r_method route)"
    "r_method route \<noteq> ''circle-recommendations''" by blast
  then have "(legacy, r_method route) \<in> shown mode"
    by (auto simp: find_Some_iff shown_def permitted_def in_set_conv_nth)
  with assms(2) have "legacy \<in> fst ` set existing" by force
  then obtain source where "map_of existing legacy = Some source" by (cases "map_of existing legacy") (auto simp: map_of_eq_None_iff)
  with l(1) show ?thesis by (simp add: route_docs_def Let_def)
qed

lemma regional_docs_keys:
  "fst ` set (regional_docs existing (path, m)) = (if path \<in> fst ` set existing then (\<lambda>r. scoped r path) ` {Tw, En, Kr, Jp} else {})"
proof (cases "map_of existing path")
  case None
  then have "path \<notin> fst ` set existing" by (simp add: map_of_eq_None_iff)
  with None show ?thesis by (simp add: regional_docs_def)
next
  case (Some source)
  then have "path \<in> fst ` set existing" by (metis map_of_eq_None_iff option.distinct(1))
  moreover have "fst ` set (regional_docs existing (path, m)) = (\<lambda>r. scoped r path) ` {Tw, En, Kr, Jp}"
    using Some by (simp add: regional_docs_def)
  ultimately show ?thesis by simp
qed

lemma union_where: "(\<Union>(p, m)\<in>A. if P m then B p else {}) = (\<Union>(p, m)\<in>{(p, m). (p, m) \<in> A \<and> P m}. B p)"
  by (auto split: if_split_asm)

lemma document_keys:
  assumes "document_parts depth lib mode = Some (paths, schemas)"
  shows "fst ` set paths = {''/v1/status'', ''/readyz''} \<union> fst ` shown mode
    \<union> (\<Union>route\<in>set PATH_ROUTES. (\<lambda>scope. case scope of None \<Rightarrow> r_path route | Some r \<Rightarrow> scoped r (r_path route))
         ` {None, Some Tw, Some En, Some Kr, Some Jp})
    \<union> (\<Union>(path, m)\<in>shown mode. (\<lambda>r. scoped r path) ` {Tw, En, Kr, Jp})"
proof -
  from assms obtain ps s where q: "query_docs depth lib ROUTES [] [] = Some (ps, s)"
    "paths = put_all (concat (map (route_docs (existing_paths mode ps)) PATH_ROUTES)
        @ concat (map (regional_docs (existing_paths mode ps)) ROUTES)) (existing_paths mode ps)"
    by (auto simp: document_parts_def Let_def)
  let ?existing = "existing_paths mode ps"
  have "fst ` set ps = fst ` set ROUTES" using query_docs_good [OF q(1)] by (simp add: closed_docs_def)
  note e = existing_keys [OF this, of mode]
  have routes: "fst ` (\<Union>route\<in>set PATH_ROUTES. set (route_docs ?existing route))
      = (\<Union>route\<in>set PATH_ROUTES. (\<lambda>scope. case scope of None \<Rightarrow> r_path route | Some r \<Rightarrow> scoped r (r_path route))
         ` {None, Some Tw, Some En, Some Kr, Some Jp})"
    unfolding image_UN by (rule SUP_cong [OF refl]) (rule route_docs_keys [where mode = mode], simp, unfold e, blast)
  have support: "''/v1/status'' \<notin> fst ` set ROUTES" "''/readyz'' \<notin> fst ` set ROUTES" by (simp_all add: ROUTES_def)
  have "path \<in> fst ` set ?existing \<longleftrightarrow> permitted mode m" if "(path, m) \<in> set ROUTES" for path m
  proof -
    have "path \<noteq> ''/v1/status''" "path \<noteq> ''/readyz''" using support that by force+
    moreover have "distinct (map fst ROUTES)" by (simp add: ROUTES_def)
    then have "m' = m" if "(path, m') \<in> set ROUTES" for m'
      using that \<open>(path, m) \<in> set ROUTES\<close> by (metis map_of_is_SomeI option.inject)
    ultimately show ?thesis
      using that unfolding e Un_iff insert_iff empty_iff fst_image_iff shown_def mem_Collect_eq prod.case by blast
  qed
  then have regional: "fst ` set (regional_docs ?existing (path, m)) = (if permitted mode m then (\<lambda>r. scoped r path) ` {Tw, En, Kr, Jp} else {})"
    if "(path, m) \<in> set ROUTES" for path m
    using that by (simp add: regional_docs_keys)
  have "fst ` (\<Union>pm\<in>set ROUTES. set (regional_docs ?existing pm))
      = (\<Union>(path, m)\<in>set ROUTES. if permitted mode m then (\<lambda>r. scoped r path) ` {Tw, En, Kr, Jp} else {})"
    unfolding image_UN
  proof (rule SUP_cong [OF refl])
    fix pm
    assume member: "pm \<in> set ROUTES"
    obtain path m where pm: "pm = (path, m)" by (cases pm)
    show "fst ` set (regional_docs ?existing pm)
        = (case pm of (path, m) \<Rightarrow> if permitted mode m then (\<lambda>r. scoped r path) ` {Tw, En, Kr, Jp} else {})"
      using regional [OF member [unfolded pm]] unfolding pm prod.case .
  qed
  then have others: "fst ` (\<Union>pm\<in>set ROUTES. set (regional_docs ?existing pm)) = (\<Union>(path, m)\<in>shown mode. (\<lambda>r. scoped r path) ` {Tw, En, Kr, Jp})"
    by (simp only: shown_def union_where)
  have "fst ` set paths = fst ` (\<Union>route\<in>set PATH_ROUTES. set (route_docs ?existing route))
      \<union> fst ` (\<Union>pm\<in>set ROUTES. set (regional_docs ?existing pm)) \<union> fst ` set ?existing"
    unfolding q(2) put_all_keys set_append set_concat set_map image_Un by simp
  then show ?thesis unfolding routes others e by (simp only: Un_ac)
qed

text \<open>The protected routes of a mode that serves queries, by what they lead to.\<close>

definition readable_endpoints :: "(string \<times> endpoint) set" where
  "readable_endpoints =
     (\<Union>route\<in>set PATH_ROUTES. (\<lambda>scope. (case scope of None \<Rightarrow> r_path route | Some r \<Rightarrow> scoped r (r_path route), PathEndpoint route scope))
        ` {None, Some Tw, Some En, Some Kr, Some Jp})"

definition regional_endpoints :: "(string \<times> endpoint) set" where
  "regional_endpoints = (\<Union>(path, m)\<in>set ROUTES. (\<lambda>r. (scoped r path, QueryEndpoint m r)) ` {Tw, En, Kr, Jp})"

lemma protected_routes_set:
  "mode \<noteq> Disabled \<Longrightarrow> set (protected_routes mode) =
     {(''/openapi.json'', OpenApiPage), (''/readyz'', ReadyPage), (''/v1/status'', StatusPage)}
     \<union> readable_endpoints \<union> regional_endpoints \<union> {(path, MainEndpoint m) |path m. (path, m) \<in> set ROUTES}"
proof -
  assume "mode \<noteq> Disabled"
  moreover have "(\<lambda>(path, name). (path, MainEndpoint name)) ` set ROUTES = {(path, MainEndpoint m) |path m. (path, m) \<in> set ROUTES}"
    by force
  ultimately show ?thesis
    by (simp add: protected_routes_def installed_routes_def readable_endpoints_def regional_endpoints_def split_beta Un_assoc)
qed

definition offered :: "response_mode \<Rightarrow> (string \<times> endpoint) set \<Rightarrow> string set" where
  "offered mode S = {path. \<exists>e. (path, e) \<in> S \<and> e \<noteq> OpenApiPage \<and> (\<forall>m. endpoint_method e = Some m \<longrightarrow> permitted mode m)}"

lemma offered_union: "offered mode (X \<union> Y) = offered mode X \<union> offered mode Y"
  unfolding offered_def by blast

lemma offered_pages:
  "offered mode {(''/openapi.json'', OpenApiPage), (''/readyz'', ReadyPage), (''/v1/status'', StatusPage)} = {''/v1/status'', ''/readyz''}"
proof -
  have "endpoint_method ReadyPage = None" "endpoint_method StatusPage = None" by (simp_all add: endpoint_method_def)
  then show ?thesis by (auto simp: offered_def)
qed

lemma offered_readable:
  "offered mode readable_endpoints =
     (\<Union>route\<in>set PATH_ROUTES. (\<lambda>scope. case scope of None \<Rightarrow> r_path route | Some r \<Rightarrow> scoped r (r_path route))
        ` {None, Some Tw, Some En, Some Kr, Some Jp})"
proof -
  have "permitted mode (r_method route)" if "route \<in> set PATH_ROUTES" for route
    using readable_routes_extend [OF that] by (auto simp: permitted_def)
  then have "\<forall>(path, e)\<in>readable_endpoints. e \<noteq> OpenApiPage \<and> (\<forall>m. endpoint_method e = Some m \<longrightarrow> permitted mode m)"
    by (auto simp: readable_endpoints_def endpoint_method_def)
  then have "offered mode readable_endpoints = fst ` readable_endpoints" unfolding offered_def by force
  then show ?thesis by (simp add: readable_endpoints_def image_UN)
qed

lemma offered_regional:
  "offered mode regional_endpoints = (\<Union>(path, m)\<in>shown mode. (\<lambda>r. scoped r path) ` {Tw, En, Kr, Jp})"
proof -
  have "QueryEndpoint m r \<noteq> OpenApiPage \<and> (\<forall>m'. endpoint_method (QueryEndpoint m r) = Some m' \<longrightarrow> permitted mode m') \<longleftrightarrow> permitted mode m"
    for m r by (simp add: endpoint_method_def)
  then show ?thesis unfolding offered_def regional_endpoints_def shown_def by blast
qed

lemma offered_queries: "offered mode {(path, MainEndpoint m) |path m. (path, m) \<in> set ROUTES} = fst ` shown mode"
  by (auto simp: offered_def shown_def fst_image_iff endpoint_method_def) (metis endpoint.distinct endpoint.simps option.inject)

section \<open>Properties\<close>


text \<open>
  C40: the document is always produced, and every reference in it leads somewhere.  Given the
  declarations of the messages, cyclic ones included, the recursion ends within the number of
  messages, and each \<open>$ref\<close> of a path or a schema names a schema of the document, in every mode.
\<close>

theorem document_references_are_resolved:
  assumes "covered lib R" "card R \<le> depth" "\<forall>(path, name)\<in>set ROUTES. documented lib R name"
  shows "\<exists>paths schemas. document_parts depth lib mode = Some (paths, schemas)
    \<and> (\<forall>(k, j)\<in>set (paths @ schemas). set (refs j) \<subseteq> schema_ref ` fst ` set schemas)"
proof -
  obtain paths schemas where d: "document_parts depth lib mode = Some (paths, schemas)"
    using query_docs_returns [OF assms, of "[]" "[]"] by (auto simp: document_parts_def Let_def)
  with document_parts_closed [OF d] show ?thesis
    by (fastforce simp: closed_docs_def resolved_def)
qed

section \<open>Witnesses\<close>

text \<open>Answers that lead to a message that contains itself.\<close>

definition sample_messages :: "string set" where
  "sample_messages = insert ''entity.Node'' (m_input ` set METHODS \<union> m_output ` set METHODS)"

definition sample_document_library :: document_library where
  "sample_document_library = \<lparr>dl_pool = (\<lambda>name.
       if name = ''entity.Node'' \<or> ends_with name ''Response''
       then Some [\<lparr>f_name = ''node'', f_json_name = ''node'', f_is_list = False, f_is_map = False, f_kind = KMessage ''entity.Node''\<rparr>]
       else Some []), dl_enum_values = (\<lambda>_. []), dl_deprecated = (\<lambda>_. False), dl_version = ''0''\<rparr>"

lemma sample_covered: "covered sample_document_library sample_messages"
  by (auto simp: covered_def sample_messages_def sample_document_library_def field_within_def)

lemma sample_documented: "\<forall>(path, name)\<in>set ROUTES. documented sample_document_library sample_messages name"
proof -
  have inputs: "list_all (\<lambda>m. m_input m \<noteq> ''entity.Node'' \<and> \<not> ends_with (m_input m) ''Response'') METHODS"
    by code_simp
  have names: "list_all (\<lambda>(_, name). list_ex (\<lambda>m. m_name m = name) METHODS) ROUTES"
    by code_simp
  have "documented sample_document_library sample_messages name" if "(path, name) \<in> set ROUTES" for path name
  proof -
    from names that have "list_ex (\<lambda>m. m_name m = name) METHODS" unfolding list_all_iff by blast
    then obtain m :: api_method where m: "find_method name = Some m"
      by (cases "find_method name") (auto simp: find_method_def find_None_iff list_ex_iff)
    then have member: "m \<in> set METHODS" by (auto simp: find_method_def find_Some_iff)
    with inputs have "m_input m \<noteq> ''entity.Node''" "\<not> ends_with (m_input m) ''Response''" by (simp_all add: list_all_iff)
    then have "query_fields (dl_pool sample_document_library) (m_input m) \<noteq> None"
      by (simp add: query_fields_def sample_document_library_def fields_of_def numeral_eq_Suc)
    moreover have "m_input m \<in> sample_messages" "m_output m \<in> sample_messages"
      using member by (simp_all add: sample_messages_def)
    ultimately show ?thesis using m by (simp add: documented_def)
  qed
  then show ?thesis by blast
qed

theorem document_references_are_resolved_witness:
  "\<exists>paths schemas. document_parts (card sample_messages) sample_document_library Public = Some (paths, schemas)
     \<and> (\<forall>(k, j)\<in>set (paths @ schemas). set (refs j) \<subseteq> schema_ref ` fst ` set schemas)"
  by (rule document_references_are_resolved [OF sample_covered order_refl sample_documented])


end
