(* ===== verification/Spec2Isabelle.thy ===== *)
theory Spec2Isabelle
  imports Client_Steps Grpc_Transport Pool_Progress Commands Open_Api
begin

text \<open>
  A verification development of moenotes-api: a game client library (\<open>client/src\<close>) and the HTTP
  gateway built on it (\<open>server/src\<close>).  File names below are those of the two crates.

  \<^bold>\<open>The program and its parts\<close>

  The client holds one immutable session at a time (configuration, optional credentials,
  transport, generation).  Operations (typed queries, the JP calls, the SDK login calls and the
  version check) pass a bounded semaphore, a serial lock and a minimum interval before the
  transport is called; an answer is classified, may block the session, and may install a new
  session, unless the session has been replaced meanwhile.  A managed client observes the
  outcome of every protected query, re-logs in at most once per generation, and checks the data
  versions.  A pool rotates over several such sessions and caches answers.  The gateway
  authenticates, admits and routes HTTP requests, turns path and query parameters into a typed
  query, asks the pool of the selected region, and projects the answer to its public fields.  Around
  it are the configuration, the inspection at start, the runtimes and pools made from it, the
  private files with sessions and SDK authorizations, and the operator's commands.

  \<^bold>\<open>Theories\<close>

  \<^item> Prelude: results as sums, bytes and text, decimal numbers, association lists, collections of
    simplification rules (\<open>result_simps\<close>, \<open>text_simps\<close>) that carry the component proofs.
  \<^item> Errors (\<open>error.rs\<close>): kinds, business codes and \<open>from_metadata\<close>.  Queries (\<open>query.rs\<close>): the
    allowlist of methods, requests and their validation.  Version_Text (\<open>versions.rs\<close>, \<open>jp.rs\<close>):
    revisions, client versions and their successors, the choice of an asset entry.
  \<^item> Session_Config (\<open>session.rs\<close>): configuration checks and the request metadata with its
    credential headers.  Sdk_Login (\<open>auth.rs\<close>): callbacks, binding and the login request.
  \<^item> Game_Client (\<open>lib.rs\<close>, \<open>versions.rs\<close>, \<open>jp.rs\<close>, \<open>auth.rs\<close>): the sessions and what each operation
    sends and does with its answer.  Client_Steps: the interleavings of any number of operations
    as the step relation \<open>world_step\<close>, with its invariant.  Grpc_Transport (\<open>transport.rs\<close>): one call.
  \<^item> Query_Interface (the trait \<open>QueryClient\<close>): the locale \<open>query_client\<close>, interpreted by the game
    client there and by the managed client in Managed_Session (\<open>managed.rs\<close>,
    \<open>managed/versions.rs\<close>); Managed_Steps: the interleavings of observations, recovery workers,
    version checks and reloads.
  \<^item> Response_Cache (\<open>cache.rs\<close>), Session_Pool and Pool_Progress (\<open>pool.rs\<close>).
  \<^item> Sdk_Form, Sdk_Http (\<open>sdk_http.rs\<close> and its modules): the signed forms and the password login.
  \<^item> Secret_Files (\<open>secret_file.rs\<close> and the files of \<open>session.rs\<close>, \<open>auth.rs\<close>, \<open>jp.rs\<close>), Operator_State
    (\<open>operator.rs\<close>: settings, lock, pointer, snapshots, \<open>persist\<close>), Recovery (\<open>GameRecovery\<close> and the
    login flows of the operator), Accounts (\<open>accounts.rs\<close>).
  \<^item> Json, Projection (\<open>projection.rs\<close>), Query_Params (\<open>query_params.rs\<close>), Regions (\<open>regions.rs\<close>), Http,
    Path_Routes (\<open>path_routes.rs\<close>), Gateway (\<open>lib.rs\<close>, \<open>diagnostics.rs\<close>), Open_Api (\<open>openapi.rs\<close>).
  \<^item> Config (\<open>config.rs\<close>), Startup (\<open>startup.rs\<close>), Runtime (\<open>runtime.rs\<close> and the assembly of pools and
    application in \<open>main.rs\<close>), Commands (\<open>config_file.rs\<close>, \<open>jp_operator.rs\<close>, the command line of \<open>main.rs\<close>).

  \<^bold>\<open>How state and operations correspond\<close>

  Structs are records, enumerations are datatypes, an operation under a mutex is a function from
  the state to its result and the new state, and the code between two suspension points is one
  step of a step relation.  Errors are the left values of sums, with the code's classified kind.
  Hash maps and header maps are association lists.  Files are a map from paths to nodes with Unix
  modes; an operation on files that can be cut off returns every store it passes through, the last
  one first.  In Runtime and Open_Api the value None is a panic (a failing \<open>unwrap\<close>).  Counters and
  request fields are words of their width; decimal texts are read with their bounds.  Time is a
  number, of milliseconds for durations, and an argument wherever the code reads a clock.

  \<^bold>\<open>What is shown\<close>

  \<^item> Client: calls upstream are serial and spaced, anonymous calls carry no account secret, a
    blocked session sends nothing it must not, issued sessions never change, admission is bounded.
  \<^item> Managed client: recoveries and version checks exclude each other, automatic re-logins are
    bounded per generation and spaced, candidate client versions are tried in order.
  \<^item> Cache and pool: hits are genuine, sizes stay within their limits; the pool's loop implements
    the choice of the first admitting member in rotation order, a failing member rests, and a
    member that admits queries is chosen within one round.
  \<^item> Login and files: the password leaves only encrypted, forms cannot be extended by a value,
    \<open>persist\<close> is atomic at every moment, an automatic re-login keeps the account, stored
    authorizations load again, account directories and users stay separate.
  \<^item> Gateway: only holders of the configured key reach a handler, in every interleaving; load is
    bounded; path and query parameters arrive unaltered; public answers are projections, which are
    fail-closed; the OpenAPI document lists exactly the served and permitted paths, is
    always produced, and has no dangling reference.
  \<^item> Start: an accepted configuration is sound and cannot make the start panic, inline secrets
    need a private file, only a complete file is served, each region is served by its own sessions,
    members of a pool are different accounts, and JP registration is requested at most once.

  \<^bold>\<open>Bounds and fuel\<close>

  \<open>query_fields\<close> follows at most 8 nested messages (\<open>query_fields_returns\<close> shows that a nesting below
  the bound suffices; requests of the allowlist nest at most one).  \<open>schema\<close> has a depth, and
  \<open>document_references_are_resolved\<close> shows that the number of messages suffices, cyclic declarations
  included.  \<open>follow\<close> resolves at most 40 symbolic links, as Linux does.  All other recursions,
  among them cache eviction and the check of a nested TOML document, terminate by a measure.

  \<^bold>\<open>Parameters\<close>

  Code of other crates is an argument, in most cases a field of a record (\<open>library\<close>, \<open>sdk_library\<close>,
  \<open>web_library\<close>, \<open>document_library\<close>, \<open>config_library\<close>, the codecs): URL and header syntax, TOML and JSON
  deserialisation, protobuf encoding and descriptors, the form parser, percent decoding, RSA, MD5 and
  SHA-256, base64, directory listings and path canonicalisation, UUIDs, clocks, and what the
  network answers.  Where a theorem relies on such code it says so in a named hypothesis (a codec
  reads back what it wrote, a digest does not collide on the names at hand, a listing has no
  duplicates), and its witness instantiates it.

  \<^bold>\<open>Not modelled\<close>

  \<^item> \<open>proto/src/lib.rs\<close>, \<open>proto/build.rs\<close>: they load generated descriptors; \<open>secret.rs\<close>: a wrapper
    whose only point is a redacted \<open>Debug\<close> output; the protobuf codec of \<open>transport.rs\<close>, which
    only passes on to the protobuf library.
  \<^item> Display, log lines, help texts, password prompts, the printed report of \<open>auth-status\<close>, and the
    network listener with its signal loop; \<open>runtime_reload\<close> and \<open>runtime_start\<close> are what that
    loop calls.
  \<^item> Route matching, body limits and header parsing of the HTTP framework, task scheduling other
    than its interleaving of the modelled steps, and interference by other processes with the
    private files.
\<close>

end
